theory Spec2Isabelle
  imports Main
begin

unbundle bit_operations_syntax

section \<open>simple-shell.c: a shallow embedding\<close>

text \<open>
  The shell reads a line, splits it into arguments (\<open>splitArgs\<close>), scans the arguments
  for the control characters \<open><\<close>, \<open>>\<close>, \<open>|\<close> and \<open>&\<close> (\<open>interpretArgs\<close>), and
  forks the command (\<open>forkInto\<close>, \<open>forkAndPipeInto\<close>), redirecting descriptors with
  \<open>redirect\<close> and \<open>redirectToFile\<close>. The C code works on the process's descriptor
  table, on files and on child processes; the embedding passes that state explicitly.
\<close>

subsection \<open>The operating system as seen by one process\<close>

text \<open>
  What a descriptor refers to. \<open>creat\<close> opens write-only, \<open>open(O_RDONLY)\<close> read-only.
\<close>

datatype access = O_RDONLY | O_WRONLY

datatype target = Terminal | OpenFile string access | PipeRead | PipeWrite

record file_data =
  content :: string
  perms :: nat

text \<open>
  Every \<open>fprintf(stderr, ...)\<close> of the source, named after the error it reports:
  \<^item> \<open>TokenLimitExceeded\<close>: "Command exceeds the argument limit!Cannot fully interpret."
  \<^item> \<open>SpawnFailure\<close>: "Failed to fork process"
  \<^item> \<open>ProgramNotFound p\<close>: "Chould not find a program named p"
  \<^item> \<open>RedirectFailure\<close>: "Failed to redirect input/output."
  \<^item> \<open>MissingPath\<close>: "Please specify a file to redirect into!"
  \<^item> \<open>FileOpenFailure f\<close>: "Failed to open file f!" and "Failed to read/create file f!"
  \<^item> \<open>PipeFailure\<close>: "Failed to establish a pipe between the processes!"
  \<^item> \<open>DuplicateRedirect\<close>: "Multiple redirects in a single command unsupported!"
  \<^item> \<open>DuplicatePipe\<close>: "Multiple pipes in a single command unsupported!"
  \<^item> \<open>EmptyCommand\<close>: "Please enter a command!"
  \<^item> \<open>NoHistory\<close>: "No commands in history"
\<close>

datatype shell_error =
    TokenLimitExceeded
  | SpawnFailure
  | ProgramNotFound "string option"
  | RedirectFailure
  | MissingPath
  | FileOpenFailure string
  | PipeFailure
  | DuplicateRedirect
  | DuplicatePipe
  | EmptyCommand
  | NoHistory

text \<open>
  The program a forked child goes on to run: \<open>forkInto\<close>'s child calls
  \<open>execvp(args[0], args)\<close>; \<open>forkAndPipeInto\<close>'s child builds the pipe for
  \<open>args\<close> and \<open>dest_prog\<close>. A child starts with a copy of the descriptor table.
\<close>

datatype job = RunSimple "string list" | RunPiped "string list" "string option"

record child =
  job_of :: job
  inherited :: "target option list"
  reaped :: bool

text \<open>
  The state a process of the shell works on: its descriptor table (slot \<open>i\<close> is
  descriptor \<open>i\<close>; the length of the table is the limit on open descriptors), the
  files, what it wrote to \<open>stderr\<close>, the children it forked, and how many more
  processes the system lets it create. Two fields stand for what the system decides:
  \<open>creatable w path\<close> says whether a file that does not exist can be created under
  \<open>path\<close> (its directory exists and can be written to), and \<open>first_exit w cs\<close>
  chooses, among the children of \<open>cs\<close> that have not been waited for, the one that
  terminates first.
\<close>

record world =
  fdtab :: "target option list"
  fs :: "string \<Rightarrow> file_data option"
  stderr_log :: "shell_error list"
  children :: "child list"
  nproc :: nat
  creatable :: "string \<Rightarrow> bool"
  first_exit :: "child list \<Rightarrow> nat"

definition STDIN_FILENO :: int where "STDIN_FILENO = 0"
definition STDOUT_FILENO :: int where "STDOUT_FILENO = 1"
definition S_IRUSR :: nat where "S_IRUSR = 256"
definition S_IWUSR :: nat where "S_IWUSR = 128"

definition report :: "shell_error \<Rightarrow> world \<Rightarrow> world" where
  "report e w = w\<lparr>stderr_log := stderr_log w @ [e]\<rparr>"

definition fd_target :: "world \<Rightarrow> int \<Rightarrow> target option" where
  "fd_target w fd =
     (if 0 \<le> fd \<and> nat fd < length (fdtab w) then fdtab w ! nat fd else None)"

text \<open>The lowest descriptor that is not open, as \<open>open\<close>, \<open>creat\<close> and \<open>dup\<close> pick it.\<close>

fun free_slot :: "target option list \<Rightarrow> nat option" where
  "free_slot [] = None"
| "free_slot (None # tab) = Some 0"
| "free_slot (Some t # tab) = map_option Suc (free_slot tab)"

text \<open>
  The system calls the source uses. Each returns the call's result (\<open>-1\<close> on
  failure) and the new state; a failed call changes nothing.
  \<^item> \<open>open(path, O_RDONLY)\<close> fails when the path is empty, the file is missing or
    is not readable by its owner, or no descriptor is free.
  \<^item> \<open>creat(path, mode)\<close> fails when the path is empty, when the file exists and is
    not writable by its owner, when it does not exist and cannot be created there, or
    when no descriptor is free; it truncates a file that exists and creates one with
    permissions \<open>mode\<close> otherwise.
  \<^item> \<open>dup(fd)\<close> fails when \<open>fd\<close> is not open or no descriptor is free.
  \<^item> \<open>dup2(src, dst)\<close> fails when \<open>src\<close> is not open or \<open>dst\<close> is out of range.
  \<^item> \<open>close(fd)\<close> fails when \<open>fd\<close> is not open.
  \<^item> \<open>fork()\<close> fails when the process limit is reached.
\<close>

definition sys_open :: "string \<Rightarrow> access \<Rightarrow> world \<Rightarrow> int \<times> world" where
  "sys_open path acc w =
     (if path = [] then (-1, w)
      else case fs w path of
        None \<Rightarrow> (-1, w)
      | Some f \<Rightarrow>
          if (perms f div S_IRUSR) mod 2 = 0 then (-1, w)
          else (case free_slot (fdtab w) of
                  None \<Rightarrow> (-1, w)
                | Some i \<Rightarrow> (int i, w\<lparr>fdtab := (fdtab w)[i := Some (OpenFile path acc)]\<rparr>)))"

definition sys_creat :: "string \<Rightarrow> nat \<Rightarrow> world \<Rightarrow> int \<times> world" where
  "sys_creat path mode w =
     (if path = [] then (-1, w)
      else case free_slot (fdtab w) of
        None \<Rightarrow> (-1, w)
      | Some i \<Rightarrow>
          (case fs w path of
             None \<Rightarrow>
               if creatable w path
               then (int i, w\<lparr>fdtab := (fdtab w)[i := Some (OpenFile path O_WRONLY)],
                              fs := (fs w)(path \<mapsto> \<lparr>content = [], perms = mode\<rparr>)\<rparr>)
               else (-1, w)
           | Some f \<Rightarrow>
               if (perms f div S_IWUSR) mod 2 = 0 then (-1, w)
               else (int i, w\<lparr>fdtab := (fdtab w)[i := Some (OpenFile path O_WRONLY)],
                               fs := (fs w)(path \<mapsto> f\<lparr>content := []\<rparr>)\<rparr>)))"

definition sys_dup :: "int \<Rightarrow> world \<Rightarrow> int \<times> world" where
  "sys_dup fd w =
     (case fd_target w fd of
        None \<Rightarrow> (-1, w)
      | Some t \<Rightarrow>
          (case free_slot (fdtab w) of
             None \<Rightarrow> (-1, w)
           | Some i \<Rightarrow> (int i, w\<lparr>fdtab := (fdtab w)[i := Some t]\<rparr>)))"

definition sys_dup2 :: "int \<Rightarrow> int \<Rightarrow> world \<Rightarrow> int \<times> world" where
  "sys_dup2 src dst w =
     (case fd_target w src of
        None \<Rightarrow> (-1, w)
      | Some t \<Rightarrow>
          if 0 \<le> dst \<and> nat dst < length (fdtab w)
          then (dst, w\<lparr>fdtab := (fdtab w)[nat dst := Some t]\<rparr>)
          else (-1, w))"

definition sys_close :: "int \<Rightarrow> world \<Rightarrow> int \<times> world" where
  "sys_close fd w =
     (case fd_target w fd of
        None \<Rightarrow> (-1, w)
      | Some t \<Rightarrow> (0, w\<lparr>fdtab := (fdtab w)[nat fd := None]\<rparr>))"

definition sys_fork :: "job \<Rightarrow> world \<Rightarrow> int \<times> world" where
  "sys_fork j w =
     (if nproc w = 0 then (-1, w)
      else (int (Suc (length (children w))),
            w\<lparr>children := children w @ [\<lparr>job_of = j, inherited = fdtab w, reaped = False\<rparr>],
              nproc := nproc w - 1\<rparr>))"

text \<open>
  \<open>wait(NULL)\<close> returns at once when the caller has no child left to wait for.
  Otherwise it returns as soon as one of these children has terminated, which need not
  be the child forked last (a command started with \<open>&\<close> may end first), and that child
  is reaped: \<open>reap k cs\<close> marks the \<open>k\<close>-th child of \<open>cs\<close> that has not been waited
  for, and \<open>first_exit\<close> says which one it is.
\<close>

fun reap :: "nat \<Rightarrow> child list \<Rightarrow> child list" where
  "reap k [] = []"
| "reap k (c # cs) =
     (if reaped c then c # reap k cs
      else (case k of 0 \<Rightarrow> c\<lparr>reaped := True\<rparr> # cs | Suc k' \<Rightarrow> c # reap k' cs))"

definition unreaped :: "child list \<Rightarrow> nat" where
  "unreaped cs = length (filter (\<lambda>c. \<not> reaped c) cs)"

definition sys_wait :: "world \<Rightarrow> world" where
  "sys_wait w =
     (if unreaped (children w) = 0 then w
      else w\<lparr>children := reap (first_exit w (children w) mod unreaped (children w)) (children w),
             nproc := Suc (nproc w)\<rparr>)"

subsection \<open>redirect and redirectToFile\<close>

text \<open>
  \<open>int redirect(int source, int dest, bool* error)\<close>: the result is the copy of
  \<open>dest\<close> made by \<open>dup\<close>, the flag \<open>*error\<close> and the state. The result of \<open>dup\<close> is
  not checked; \<open>*error\<close> is set when \<open>dup2\<close> fails.
\<close>

definition redirect :: "int \<Rightarrow> int \<Rightarrow> bool \<Rightarrow> world \<Rightarrow> int \<times> bool \<times> world" where
  "redirect source dest error w =
     (let (std_tmp_copy, w1) = sys_dup dest w;
          (r, w2) = sys_dup2 source dest w1
      in if r = -1 then (std_tmp_copy, True, report RedirectFailure w2)
         else (std_tmp_copy, error, w2))"

text \<open>
  \<open>int redirectToFile(char* file, int dest, bool* error)\<close>; \<open>file\<close> is \<open>None\<close> for
  a null pointer.
\<close>

definition redirectToFile :: "string option \<Rightarrow> int \<Rightarrow> bool \<Rightarrow> world \<Rightarrow> int \<times> bool \<times> world" where
  "redirectToFile file dest error w =
     (case file of
        None \<Rightarrow> (-1, True, report MissingPath w)
      | Some path \<Rightarrow>
          let (fd, w1) = (if dest = STDIN_FILENO then sys_open path O_RDONLY w
                          else sys_creat path (S_IRUSR OR S_IWUSR) w)
          in if fd = -1 then (-1, True, report (FileOpenFailure path) w1)
             else let (std_tmp_copy, error', w2) = redirect fd dest error w1;
                      (r, w3) = sys_close fd w2
                  in (std_tmp_copy, error', w3))"

subsection \<open>forkInto and forkAndPipeInto, in the process that calls them\<close>

text \<open>
  \<open>void forkInto(char** args, bool _wait)\<close>. In the calling process: \<open>fork\<close>, report
  a failure, or call \<open>wait(NULL)\<close> when \<open>_wait\<close> (here \<open>waitp\<close>) is set. What the child
  does (\<open>execvp\<close>) happens in the child's copy of the state and is recorded as its job.
\<close>

definition forkInto :: "string list \<Rightarrow> bool \<Rightarrow> world \<Rightarrow> world" where
  "forkInto args waitp w =
     (let (pid, w1) = sys_fork (RunSimple args) w
      in if pid = -1 then report SpawnFailure w1
         else if waitp then sys_wait w1 else w1)"

text \<open>
  \<open>void forkAndPipeInto(char** args, char* dest_prog, bool _wait)\<close>, in the calling
  process (the \<open>default\<close> and \<open>-1\<close> cases of the outer \<open>switch\<close>). The child's side is
  the subject of the pipeline model below.
\<close>

definition forkAndPipeInto :: "string list \<Rightarrow> string option \<Rightarrow> bool \<Rightarrow> world \<Rightarrow> world" where
  "forkAndPipeInto args dest_prog waitp w =
     (let (pid, w1) = sys_fork (RunPiped args dest_prog) w
      in if pid = -1 then report SpawnFailure w1
         else if waitp then sys_wait w1 else w1)"

subsection \<open>interpretArgs\<close>

text \<open>
  The local variables of \<open>interpretArgs\<close>. \<open>exec_args\<close> is the null-terminated
  array filled up to \<open>exec_arg_count\<close>; \<open>redirected_from\<close> and \<open>redirected_to\<close> are
  uninitialised in the source and only read after \<open>redirected\<close> is set, which assigns
  both.
\<close>

record locals =
  exec_args :: "string list"
  wait :: bool
  error :: bool
  redirected :: bool
  pipe :: bool
  redirected_from :: int
  redirected_to :: int
  pipe_prog :: "string option"

definition init_locals :: locals where
  "init_locals = \<lparr>exec_args = [], wait = True, error = False, redirected = False,
     pipe = False, redirected_from = 0, redirected_to = 0, pipe_prog = None\<rparr>"

text \<open>
  \<open>interpretArgs(char** args, size_t arg_count)\<close> is given the array and the number of
  arguments in it. The model takes the \<open>arg_count\<close> arguments as the list \<open>args\<close>, and
  the array's next entry \<open>args[arg_count]\<close>, which \<open>args[++arg]\<close> reads when a control
  character is the last argument, as \<open>beyond\<close> (a null pointer is \<open>None\<close>).
\<close>

definition arg_at :: "string list \<Rightarrow> string option \<Rightarrow> nat \<Rightarrow> string option" where
  "arg_at args beyond i = (if i < length args then Some (args ! i) else beyond)"

text \<open>\<open>args[arg][0]\<close>: the first byte of a C string; the terminator for an empty one.\<close>

definition first_char :: "string \<Rightarrow> char" where
  "first_char tok = (case tok of [] \<Rightarrow> CHR 0x00 | c # cs \<Rightarrow> c)"

text \<open>
  The body of the \<open>for\<close> loop at cursor \<open>arg\<close>: the result is the cursor after the
  body (moved by \<open>++arg\<close> where an operand is taken), the locals and the state.
\<close>

definition scan_arg :: "string list \<Rightarrow> string option \<Rightarrow> nat \<Rightarrow> locals \<Rightarrow> world \<Rightarrow> nat \<times> locals \<times> world" where
  "scan_arg args beyond arg l w =
     (let c = first_char (args ! arg) in
      if c = CHR ''<'' \<or> c = CHR ''>'' then
        if redirected l then (arg, l\<lparr>error := True\<rparr>, report DuplicateRedirect w)
        else
          let to = (if c = CHR ''<'' then STDIN_FILENO else STDOUT_FILENO);
              (from, err, w1) = redirectToFile (arg_at args beyond (Suc arg)) to (error l) w
          in (Suc arg,
              l\<lparr>redirected := True, redirected_to := to, redirected_from := from, error := err\<rparr>,
              w1)
      else if c = CHR ''|'' then
        if pipe l then (arg, l\<lparr>error := True\<rparr>, report DuplicatePipe w)
        else (Suc arg, l\<lparr>pipe := True, pipe_prog := arg_at args beyond (Suc arg)\<rparr>, w)
      else if c = CHR ''&'' then (arg, l\<lparr>wait := False\<rparr>, w)
      else (arg, l\<lparr>exec_args := exec_args l @ [args ! arg]\<rparr>, w))"

lemma scan_arg_cursor: "scan_arg args beyond arg l w = (arg', l', w') \<Longrightarrow> arg \<le> arg'"
  by (auto simp: scan_arg_def Let_def split: if_splits prod.splits)

text \<open>\<open>for(int arg = 0; arg < arg_count && !error; ++arg)\<close>\<close>

function scan_loop :: "string list \<Rightarrow> string option \<Rightarrow> nat \<Rightarrow> locals \<Rightarrow> world \<Rightarrow> locals \<times> world" where
  "scan_loop args beyond arg l w =
     (if arg < length args \<and> \<not> error l
      then (case scan_arg args beyond arg l w of
              (arg', l', w') \<Rightarrow> scan_loop args beyond (Suc arg') l' w')
      else (l, w))"
  by pat_completeness auto
termination
  by (relation "measure (\<lambda>(args, beyond, arg, l, w). length args - arg)")
     (auto dest: scan_arg_cursor [OF sym])

declare scan_loop.simps [simp del]

text \<open>
  The scan, the execution when no error occurred, and the restoration of the
  redirected descriptor.
\<close>

definition execute :: "locals \<Rightarrow> world \<Rightarrow> world" where
  "execute l w =
     (if \<not> error l then
        (if pipe l then forkAndPipeInto (exec_args l) (pipe_prog l) (wait l) w
         else forkInto (exec_args l) (wait l) w)
      else w)"

definition restore :: "locals \<Rightarrow> world \<Rightarrow> world" where
  "restore l w =
     (if redirected l then
        (let (r, w1) = sys_dup2 (redirected_from l) (redirected_to l) w;
             (r', w2) = sys_close (redirected_from l) w1
         in w2)
      else w)"

definition interpretArgs :: "string list \<Rightarrow> string option \<Rightarrow> world \<Rightarrow> world" where
  "interpretArgs args beyond w =
     (let (l, w1) = scan_loop args beyond 0 init_locals w
      in restore l (execute l w1))"

subsection \<open>C strings in buffers\<close>

text \<open>
  A buffer is the list of its bytes. The C string at offset \<open>i\<close> runs up to the
  first terminator; the buffers of the source hold \<open>BUFSIZ\<close> bytes, of which the model
  keeps those up to the last one written, and a read past them sees a terminator.
\<close>

definition NUL :: char where "NUL = CHR 0x00"

definition byte_at :: "string \<Rightarrow> nat \<Rightarrow> char" where
  "byte_at buf i = (if i < length buf then buf ! i else NUL)"

definition cstring_at :: "string \<Rightarrow> nat \<Rightarrow> string" where
  "cstring_at buf i = takeWhile (\<lambda>c. c \<noteq> NUL) (drop i buf)"

text \<open>\<open>strcpy(dst, src)\<close> writes the string at \<open>src\<close> and its terminator over \<open>dst\<close>.\<close>

definition strcpy :: "string \<Rightarrow> string \<Rightarrow> string" where
  "strcpy dst src = (let s = cstring_at src 0 @ [NUL] in s @ drop (length s) dst)"

text \<open>
  \<open>strtok\<close> with the delimiter \<open>" "\<close>, on the buffer \<open>buf\<close> from the position \<open>p\<close>
  (the start of the buffer in the first call, the position saved by the previous call
  in the calls with \<open>NULL\<close>): skip the delimiters; at the terminator there is no token;
  otherwise the token starts here, the delimiter that ends it is overwritten with a
  terminator and the position after it is saved. The result is the token (its offset
  in the buffer), the buffer and the saved position.
\<close>

definition strtok :: "string \<Rightarrow> nat \<Rightarrow> nat option \<times> string \<times> nat" where
  "strtok buf p =
     (let s = p + length (takeWhile (\<lambda>c. c = CHR '' '') (drop p buf)) in
      if byte_at buf s = NUL then (None, buf, s)
      else
        let e = s + length (takeWhile (\<lambda>c. c \<noteq> CHR '' '' \<and> c \<noteq> NUL) (drop s buf)) in
        if byte_at buf e = NUL then (Some s, buf, e)
        else (Some s, buf[e := NUL], Suc e))"

subsection \<open>splitArgs\<close>

definition MAX_ARG :: nat where "MAX_ARG = 40"

text \<open>
  The memory \<open>main\<close> and \<open>splitArgs\<close> work on: \<open>main\<close>'s \<open>line_buf\<close>,
  \<open>last_line_buf\<close> and \<open>args\<close> (here \<open>args_ptrs\<close>), and \<open>splitArgs\<close>'s automatic
  array \<open>line_cpy\<close>. The tokens \<open>splitArgs\<close> stores in \<open>args\<close> are pointers into
  \<open>line_cpy\<close>: \<open>Some i\<close> is \<open>line_cpy + i\<close>, \<open>None\<close> the null pointer. \<open>main\<close> reads
  them after \<open>splitArgs\<close> has returned; \<open>splitArgs\<close> is only called from \<open>main\<close>, so
  \<open>line_cpy\<close> occupies the same bytes of the stack in every call, and the model keeps
  those bytes from one call to the next.
\<close>

record memory =
  line_buf :: string
  last_line_buf :: string
  args_ptrs :: "nat option list"
  line_cpy :: string

text \<open>The caller's buffer that \<open>line_src\<close> points to.\<close>

datatype line_source = LineBuf | LastLineBuf

definition deref :: "memory \<Rightarrow> line_source \<Rightarrow> string" where
  "deref m src = (case src of LineBuf \<Rightarrow> line_buf m | LastLineBuf \<Rightarrow> last_line_buf m)"

text \<open>
  The \<open>for\<close> loop of \<open>splitArgs\<close>, entered with the result of a call of \<open>strtok\<close>.
  The result is \<open>count\<close>, \<open>args\<close>, the buffer, and whether the warning was printed.
\<close>

function split_loop :: "nat option \<times> string \<times> nat \<Rightarrow> nat option list \<Rightarrow> nat \<Rightarrow> nat \<times> nat option list \<times> string \<times> bool" where
  "split_loop tk args count =
     (case tk of
        (None, buf, p) \<Rightarrow> (count, args, buf, False)
      | (Some token, buf, p) \<Rightarrow>
          if count < MAX_ARG - 1
          then split_loop (strtok buf p) (args[count := Some token]) (Suc count)
          else (count, args, buf, True))"
  by pat_completeness auto
termination
  by (relation "measure (\<lambda>(tk, args, count). MAX_ARG - count)") (auto simp: MAX_ARG_def)

declare split_loop.simps [simp del]

text \<open>
  \<open>size_t splitArgs(char* line_src, char** args)\<close>: the result is \<open>count\<close>, what was
  printed to \<open>stderr\<close>, and the memory.
\<close>

definition splitArgs :: "line_source \<Rightarrow> memory \<Rightarrow> nat \<times> shell_error list \<times> memory" where
  "splitArgs line_src m =
     (let cpy = strcpy (line_cpy m) (deref m line_src);
          (count, args, cpy', warned) = split_loop (strtok cpy 0) (args_ptrs m) 0
      in (count, (if warned then [TokenLimitExceeded] else []),
          m\<lparr>args_ptrs := args, line_cpy := cpy'\<rparr>))"

text \<open>
  The string an entry of \<open>args\<close> points to, as the caller reads it, and the strings
  of the first \<open>count\<close> entries. \<open>splitArgs\<close> sets each of the first \<open>count\<close>
  entries, so none of them is null when \<open>interpretArgs\<close> reads it; the model reads a
  null entry as the empty string.
\<close>

definition arg_string :: "memory \<Rightarrow> nat \<Rightarrow> string option" where
  "arg_string m i =
     (if i < length (args_ptrs m)
      then map_option (cstring_at (line_cpy m)) (args_ptrs m ! i) else None)"

definition arg_strings :: "memory \<Rightarrow> nat \<Rightarrow> string list" where
  "arg_strings m count = map (\<lambda>i. case arg_string m i of None \<Rightarrow> [] | Some a \<Rightarrow> a) [0..<count]"

text \<open>
  The tokens of a line as the specification has them: the line is split on runs of
  space characters, the tokens are the pieces between the runs, in order.
\<close>

fun spec_tokens :: "string \<Rightarrow> string \<Rightarrow> string list" where
  "spec_tokens cur [] = (if cur = [] then [] else [cur])"
| "spec_tokens cur (c # cs) =
     (if c = CHR '' '' then (if cur = [] then spec_tokens [] cs else cur # spec_tokens [] cs)
      else spec_tokens (cur @ [c]) cs)"

definition spec_split :: "string \<Rightarrow> string list \<times> nat" where
  "spec_split line = (spec_tokens [] line, length (spec_tokens [] line))"

subsection \<open>main\<close>

record shell =
  mem :: memory
  os :: world

text \<open>
  \<open>fgets(line_buf, BUFSIZ, stdin)\<close> on a line of input, and the overwriting of the
  newline: \<open>input\<close> is the line without its newline.
\<close>

definition read_line :: "string \<Rightarrow> memory \<Rightarrow> memory" where
  "read_line input m =
     m\<lparr>line_buf := input @ [NUL, NUL] @ drop (length input + 2) (line_buf m)\<rparr>"

definition reports :: "shell_error list \<Rightarrow> world \<Rightarrow> world" where
  "reports es w = w\<lparr>stderr_log := stderr_log w @ es\<rparr>"

text \<open>The call \<open>interpretArgs(args, arg_count)\<close> on the memory of \<open>main\<close>.\<close>

definition call_interpretArgs :: "nat \<Rightarrow> shell \<Rightarrow> shell" where
  "call_interpretArgs arg_count sh =
     sh\<lparr>os := interpretArgs (arg_strings (mem sh) arg_count)
                 (arg_string (mem sh) arg_count) (os sh)\<rparr>"

text \<open>
  One iteration of \<open>while (true)\<close> on a line of input. The result says whether the
  loop goes on (\<open>False\<close> for \<open>break\<close>).
\<close>

definition main_iteration :: "string \<Rightarrow> shell \<Rightarrow> bool \<times> shell" where
  "main_iteration input sh =
     (let m0 = read_line input (mem sh);
          (arg_count, printed, m1) = splitArgs LineBuf m0;
          sh1 = sh\<lparr>mem := m1, os := reports printed (os sh)\<rparr>
      in if arg_string m1 0 = None \<or> arg_string m1 0 = Some [] then
           (True, sh1\<lparr>os := report EmptyCommand (os sh1)\<rparr>)
         else if arg_string m1 0 = Some ''exit()'' \<or> arg_string m1 0 = Some ''exit'' then
           (False, sh1)
         else if arg_string m1 0 = Some ''!!'' then
           (if length (cstring_at (last_line_buf m1) 0) = 0 then
              (True, sh1\<lparr>os := report NoHistory (os sh1)\<rparr>)
            else
              let (arg_count', printed', m2) = splitArgs LastLineBuf m1;
                  sh2 = sh1\<lparr>mem := m2, os := reports printed' (os sh1)\<rparr>
              in (True, call_interpretArgs arg_count' sh2))
         else
           let m2 = m1\<lparr>last_line_buf := strcpy (last_line_buf m1) (line_buf m1)\<rparr>
           in (True, call_interpretArgs arg_count (sh1\<lparr>mem := m2\<rparr>)))"

text \<open>The read loop on the lines of input, until \<open>exit\<close> or the end of the lines.\<close>

fun main_loop :: "string list \<Rightarrow> shell \<Rightarrow> shell" where
  "main_loop [] sh = sh"
| "main_loop (input # inputs) sh =
     (case main_iteration input sh of
        (True, sh') \<Rightarrow> main_loop inputs sh'
      | (False, sh') \<Rightarrow> sh')"

text \<open>
  The state in which \<open>main\<close> enters the loop: \<open>line_buf\<close> and \<open>args\<close> are cleared with
  \<open>memset\<close>; \<open>last_line_buf\<close> is not, and holds whatever bytes the stack held, as
  does \<open>line_cpy\<close>.
\<close>

definition startup :: "string \<Rightarrow> string \<Rightarrow> world \<Rightarrow> shell" where
  "startup stack_last stack_cpy w =
     \<lparr>mem = \<lparr>line_buf = [], last_line_buf = stack_last,
              args_ptrs = replicate MAX_ARG None, line_cpy = stack_cpy\<rparr>,
      os = w\<rparr>"

subsection \<open>forkAndPipeInto, in the child: the two processes of the pipe\<close>

text \<open>
  The child forked by \<open>forkAndPipeInto\<close> (\<open>case 0\<close> of the outer \<open>switch\<close>) creates the
  pipe and forks again. The grandchild is the writer: it closes the read end, redirects
  its standard output into the pipe and executes \<open>args\<close>. The child itself is the
  reader: it closes the write end, calls \<open>wait(NULL)\<close>, redirects its standard input
  to the pipe and executes \<open>dest_prog\<close>. Each process is at one of the following
  points of the source; a process whose \<open>exec\<close> (or an earlier call) failed returns to
  \<open>interpretArgs\<close> and from there to the read loop of \<open>main\<close>, which it may leave
  later.
\<close>

datatype reader_pc =
    R_Pipe | R_Fork | R_CloseWrite | R_Wait | R_Redirect | R_Exec | R_Running | R_Returned

datatype writer_pc =
    W_Unborn | W_CloseRead | W_Redirect | W_Exec | W_Running nat | W_Exited
  | W_Returned | W_ReturnedExited

record pipeline =
  reader :: reader_pc
  writer :: writer_pc
  buffered :: nat

definition pipeline_start :: pipeline where
  "pipeline_start = \<lparr>reader = R_Pipe, writer = W_Unborn, buffered = 0\<rparr>"

text \<open>
  The steps the reader can take in a state. \<open>wait(NULL)\<close> returns only when a child
  of the caller has terminated, and the writer is the reader's only child. Once
  \<open>dest_prog\<close> runs, it reads from the pipe.
\<close>

definition reader_steps :: "pipeline \<Rightarrow> pipeline list" where
  "reader_steps s =
     (case reader s of
        R_Pipe \<Rightarrow> [s\<lparr>reader := R_Fork\<rparr>, s\<lparr>reader := R_Returned\<rparr>]
      | R_Fork \<Rightarrow> [s\<lparr>reader := R_CloseWrite, writer := W_CloseRead\<rparr>, s\<lparr>reader := R_Returned\<rparr>]
      | R_CloseWrite \<Rightarrow> [s\<lparr>reader := R_Wait\<rparr>]
      | R_Wait \<Rightarrow>
          (if writer s = W_Exited \<or> writer s = W_ReturnedExited
           then [s\<lparr>reader := R_Redirect\<rparr>] else [])
      | R_Redirect \<Rightarrow> [s\<lparr>reader := R_Exec\<rparr>, s\<lparr>reader := R_Returned\<rparr>]
      | R_Exec \<Rightarrow> [s\<lparr>reader := R_Running\<rparr>, s\<lparr>reader := R_Returned\<rparr>]
      | R_Running \<Rightarrow> (if 0 < buffered s then [s\<lparr>buffered := buffered s - 1\<rparr>] else [])
      | R_Returned \<Rightarrow> [])"

text \<open>
  The steps the writer can take, for a pipe that buffers \<open>cap\<close> bytes and a program
  \<open>args\<close> that writes \<open>n\<close> bytes and exits: a write blocks while the buffer is full.
\<close>

definition writer_steps :: "nat \<Rightarrow> nat \<Rightarrow> pipeline \<Rightarrow> pipeline list" where
  "writer_steps cap n s =
     (case writer s of
        W_Unborn \<Rightarrow> []
      | W_CloseRead \<Rightarrow> [s\<lparr>writer := W_Redirect\<rparr>]
      | W_Redirect \<Rightarrow> [s\<lparr>writer := W_Exec\<rparr>, s\<lparr>writer := W_Returned\<rparr>]
      | W_Exec \<Rightarrow> [s\<lparr>writer := W_Running n\<rparr>, s\<lparr>writer := W_Returned\<rparr>]
      | W_Running k \<Rightarrow>
          (case k of
             0 \<Rightarrow> [s\<lparr>writer := W_Exited\<rparr>]
           | Suc k' \<Rightarrow>
               (if buffered s < cap
                then [s\<lparr>writer := W_Running k', buffered := Suc (buffered s)\<rparr>] else []))
      | W_Exited \<Rightarrow> []
      | W_Returned \<Rightarrow> [s\<lparr>writer := W_ReturnedExited\<rparr>]
      | W_ReturnedExited \<Rightarrow> [])"

definition pipeline_steps :: "nat \<Rightarrow> nat \<Rightarrow> pipeline \<Rightarrow> pipeline list" where
  "pipeline_steps cap n s = reader_steps s @ writer_steps cap n s"

text \<open>The states the two processes can be in, under any scheduling.\<close>

inductive reachable :: "nat \<Rightarrow> nat \<Rightarrow> pipeline \<Rightarrow> bool" for cap n where
  start: "reachable cap n pipeline_start"
| step: "reachable cap n s \<Longrightarrow> s' \<in> set (pipeline_steps cap n s) \<Longrightarrow> reachable cap n s'"

text \<open>A run: the state reached by taking the steps chosen by a list of indices.\<close>

fun run :: "nat \<Rightarrow> nat \<Rightarrow> nat list \<Rightarrow> pipeline \<Rightarrow> pipeline option" where
  "run cap n [] s = Some s"
| "run cap n (i # sched) s =
     (if i < length (pipeline_steps cap n s) then run cap n sched (pipeline_steps cap n s ! i)
      else None)"

subsection \<open>The states the scan goes through\<close>

text \<open>
  \<open>visits args beyond w0 arg l w\<close>: started in the state \<open>w0\<close>, the loop of
  \<open>interpretArgs\<close> evaluates its condition with the cursor \<open>arg\<close>, the locals \<open>l\<close>
  and the state \<open>w\<close>. The argument at the cursor is scanned when the condition holds.
\<close>

inductive visits :: "string list \<Rightarrow> string option \<Rightarrow> world \<Rightarrow> nat \<Rightarrow> locals \<Rightarrow> world \<Rightarrow> bool"
  for args beyond w0 where
  enter: "visits args beyond w0 0 init_locals w0"
| iterate: "visits args beyond w0 arg l w \<Longrightarrow> arg < length args \<Longrightarrow> \<not> error l \<Longrightarrow>
     scan_arg args beyond arg l w = (arg', l', w') \<Longrightarrow> visits args beyond w0 (Suc arg') l' w'"

code_pred visits .

text \<open>
  One turn of the loop as a relation between its states (cursor, locals and state):
  the condition of the loop holds and the body is run, \<open>++arg\<close> included.
\<close>

definition scan_step :: "string list \<Rightarrow> string option \<Rightarrow> nat \<times> locals \<times> world \<Rightarrow> nat \<times> locals \<times> world \<Rightarrow> bool" where
  "scan_step args beyond s s' =
     (case s of (arg, l, w) \<Rightarrow>
        arg < length args \<and> \<not> error l \<and>
        (case scan_arg args beyond arg l w of (arg', l', w') \<Rightarrow> s' = (Suc arg', l', w')))"

definition is_redirect :: "string \<Rightarrow> bool" where
  "is_redirect tok = (first_char tok = CHR ''<'' \<or> first_char tok = CHR ''>'')"

text \<open>The arguments that start with a control character.\<close>

definition is_control :: "string \<Rightarrow> bool" where
  "is_control tok = (first_char tok \<in> {CHR ''<'', CHR ''>'', CHR ''|'', CHR ''&''})"

text \<open>
  The scan stops at a structural error: it ends with the error flag set and the
  message of \<open>DuplicateRedirect\<close> or \<open>DuplicatePipe\<close> printed last.
\<close>

definition structural_error :: "string list \<Rightarrow> string option \<Rightarrow> world \<Rightarrow> bool" where
  "structural_error args beyond w =
     (case scan_loop args beyond 0 init_locals w of
        (l, w1) \<Rightarrow> error l \<and> stderr_log w1 \<noteq> [] \<and>
          (last (stderr_log w1) = DuplicateRedirect \<or> last (stderr_log w1) = DuplicatePipe))"

text \<open>
  The bytes the writer has not written yet, and the invariant of a pipeline whose
  program writes more than the pipe buffers: the writer has not exited, and what it
  wrote is still in the buffer.
\<close>

fun to_write :: "nat \<Rightarrow> writer_pc \<Rightarrow> nat" where
  "to_write n (W_Running k) = k"
| "to_write n W_Exited = 0"
| "to_write n w = n"

definition writer_stuck :: "nat \<Rightarrow> nat \<Rightarrow> pipeline \<Rightarrow> bool" where
  "writer_stuck cap n s =
     (buffered s \<le> cap \<and> writer s \<noteq> W_Exited \<and>
      (reader s = R_Pipe \<or> reader s = R_Fork \<longrightarrow> writer s = W_Unborn) \<and>
      to_write n (writer s) + buffered s = n)"

text \<open>The number of descriptors a process can still open.\<close>

definition free_slots :: "world \<Rightarrow> nat" where
  "free_slots w = length (filter (\<lambda>t. t = None) (fdtab w))"

section \<open>Properties\<close>

subsection \<open>Examples used as concrete inputs\<close>

definition mem_example :: memory where
  "mem_example = \<lparr>line_buf = ''ls -l'' @ [NUL], last_line_buf = ''pwd'' @ [NUL],
     args_ptrs = replicate MAX_ARG None, line_cpy = []\<rparr>"

text \<open>
  A shell on a terminal, with room for two more descriptors, a readable file and a
  read-only file, in a directory where files can be created and that has no
  subdirectories.
\<close>

definition w_tty :: world where
  "w_tty = \<lparr>fdtab = [Some Terminal, Some Terminal, Some Terminal, None, None],
            fs = [''in.txt'' \<mapsto> \<lparr>content = ''data'', perms = 420\<rparr>,
                  ''ro.txt'' \<mapsto> \<lparr>content = ''keep'', perms = 256\<rparr>],
            stderr_log = [], children = [], nproc = 4,
            creatable = (\<lambda>path. CHR ''/'' \<notin> set path), first_exit = (\<lambda>cs. 0)\<rparr>"

lemmas os_defs = sys_open_def sys_creat_def sys_dup_def sys_dup2_def sys_close_def sys_fork_def
  sys_wait_def unreaped_def fd_target_def report_def STDIN_FILENO_def STDOUT_FILENO_def S_IRUSR_def S_IWUSR_def

text \<open>The state after \<open>> in.txt\<close> has been applied to \<open>w_tty\<close>.\<close>

definition w_truncated :: world where
  "w_truncated = w_tty\<lparr>fdtab := [Some Terminal, Some (OpenFile ''in.txt'' O_WRONLY), Some Terminal,
                           None, Some Terminal],
       fs := (fs w_tty)(''in.txt'' \<mapsto> \<lparr>content = [], perms = 420\<rparr>)\<rparr>"

text \<open>
  A shell on a terminal whose descriptor table has one free slot left, and the state
  in which \<open>echo hi > out.txt\<close> leaves it.
\<close>

definition w_last_slot :: world where
  "w_last_slot = \<lparr>fdtab = [Some Terminal, Some Terminal, Some Terminal, None],
            fs = Map.empty, stderr_log = [], children = [], nproc = 4,
            creatable = (\<lambda>path. CHR ''/'' \<notin> set path), first_exit = (\<lambda>cs. 0)\<rparr>"

definition w_stuck :: world where
  "w_stuck = \<lparr>fdtab = [Some Terminal, Some (OpenFile ''out.txt'' O_WRONLY), Some Terminal, None],
            fs = [''out.txt'' \<mapsto> \<lparr>content = [], perms = 384\<rparr>], stderr_log = [],
            children = [], nproc = 4,
            creatable = (\<lambda>path. CHR ''/'' \<notin> set path), first_exit = (\<lambda>cs. 0)\<rparr>"

text \<open>The shell after the line \<open>" ls"\<close> (with a leading space) as its first command.\<close>

definition sh_after_ls :: shell where
  "sh_after_ls =
     \<lparr>mem = \<lparr>line_buf = '' ls'' @ [NUL, NUL], last_line_buf = '' ls'' @ [NUL],
              args_ptrs = Some 1 # replicate 39 None, line_cpy = '' ls'' @ [NUL]\<rparr>,
      os = w_tty\<lparr>children := [\<lparr>job_of = RunSimple [''ls''], inherited = fdtab w_tty,
                                 reaped = True\<rparr>]\<rparr>\<rparr>"

lemma splitArgs_example:
  "splitArgs LineBuf mem_example =
     (2, [], mem_example\<lparr>args_ptrs := [Some 0, Some 3] @ replicate 38 None,
                         line_cpy := ''ls'' @ [NUL] @ ''-l'' @ [NUL]\<rparr>)"
  by (simp add: splitArgs_def mem_example_def deref_def strcpy_def cstring_at_def NUL_def
      strtok_def byte_at_def split_loop.simps MAX_ARG_def Let_def numeral_eq_Suc)

subsection \<open>splitArgs leaves the caller's line alone\<close>

text \<open>
  Claim C9. \<open>splitArgs\<close> copies the line into its own array \<open>line_cpy\<close> (the copy
  holds the same string) and lets \<open>strtok\<close> write terminators into the copy only:
  after the call the buffer that \<open>line_src\<close> points to, and both of \<open>main\<close>'s line
  buffers (\<open>line_buf\<close> and the history \<open>last_line_buf\<close>), hold the bytes they held
  before, whatever the line is; the memory differs in \<open>args\<close> and \<open>line_cpy\<close> only.
\<close>

theorem splitArgs_source_unmodified:
  assumes "splitArgs line_src m = (count, printed, m')"
  shows "deref m' line_src = deref m line_src \<and>
         line_buf m' = line_buf m \<and> last_line_buf m' = last_line_buf m \<and>
         m' = m\<lparr>args_ptrs := args_ptrs m', line_cpy := line_cpy m'\<rparr> \<and>
         cstring_at (strcpy (line_cpy m) (deref m line_src)) 0 = cstring_at (deref m line_src) 0"
proof -
  from assms obtain args' cpy' where m': "m' = m\<lparr>args_ptrs := args', line_cpy := cpy'\<rparr>"
    by (auto simp: splitArgs_def Let_def split: prod.splits)
  then have "line_buf m' = line_buf m" "last_line_buf m' = last_line_buf m"
    "m' = m\<lparr>args_ptrs := args_ptrs m', line_cpy := line_cpy m'\<rparr>"
    by simp_all
  moreover from this(1,2) have "deref m' line_src = deref m line_src"
    by (cases line_src) (simp_all add: deref_def)
  moreover have "cstring_at (strcpy (line_cpy m) (deref m line_src)) 0 =
      cstring_at (deref m line_src) 0"
    by (simp add: strcpy_def cstring_at_def Let_def takeWhile_tail)
  ultimately show ?thesis by blast
qed

theorem splitArgs_source_unmodified_witness:
  "splitArgs LineBuf mem_example =
     (2, [], mem_example\<lparr>args_ptrs := [Some 0, Some 3] @ replicate 38 None,
                         line_cpy := ''ls'' @ [NUL] @ ''-l'' @ [NUL]\<rparr>) \<and>
   line_buf (mem_example\<lparr>args_ptrs := [Some 0, Some 3] @ replicate 38 None,
                         line_cpy := ''ls'' @ [NUL] @ ''-l'' @ [NUL]\<rparr>) = ''ls -l'' @ [NUL]"
  using splitArgs_source_unmodified [OF splitArgs_example] splitArgs_example
  by (simp add: mem_example_def)

subsection \<open>The system calls\<close>


lemma free_slot_Some: "free_slot tab = Some i \<Longrightarrow> i < length tab \<and> tab ! i = None"
proof (induction tab arbitrary: i rule: free_slot.induct)
  case 1
  then show ?case by simp
next
  case (2 tab)
  then show ?case by auto
next
  case (3 t tab)
  then show ?case by (cases "free_slot tab") auto
qed

lemma free_slot_None: "free_slot tab = None \<Longrightarrow> None \<notin> set tab"
  by (induction tab rule: free_slot.induct) auto

lemma sys_open_fail: "fst (sys_open path acc w) = -1 \<Longrightarrow> sys_open path acc w = (-1, w)"
  by (auto simp: sys_open_def split: option.splits if_splits)

lemma sys_creat_fail: "fst (sys_creat path mode w) = -1 \<Longrightarrow> sys_creat path mode w = (-1, w)"
  by (auto simp: sys_creat_def split: option.splits if_splits)

lemma sys_open_ok:
  assumes "sys_open path acc w = (fd, w1)" "fd \<noteq> -1"
  shows "\<exists>i. free_slot (fdtab w) = Some i \<and> fd = int i \<and>
             w1 = w\<lparr>fdtab := (fdtab w)[i := Some (OpenFile path acc)]\<rparr>"
  using assms by (auto simp: sys_open_def split: option.splits if_splits)

lemma sys_creat_ok:
  assumes "sys_creat path mode w = (fd, w1)" "fd \<noteq> -1"
  shows "\<exists>i f. free_slot (fdtab w) = Some i \<and> fd = int i \<and>
             w1 = w\<lparr>fdtab := (fdtab w)[i := Some (OpenFile path O_WRONLY)],
                    fs := (fs w)(path \<mapsto> f)\<rparr> \<and> content f = [] \<and>
             perms f = (case fs w path of None \<Rightarrow> mode | Some f0 \<Rightarrow> perms f0)"
  using assms by (auto simp: sys_creat_def split: option.splits if_splits)

lemma redirectToFile_swapped:
  assumes dest: "dest = STDIN_FILENO \<or> dest = STDOUT_FILENO"
    and t: "fd_target w dest = Some t"
    and r: "redirectToFile (Some path) dest e w = (saved, e', w')"
    and s: "saved \<noteq> -1"
  shows "0 \<le> saved \<and> e' = e \<and> stderr_log w' = stderr_log w \<and>
         fdtab w' = (fdtab w)[nat saved := Some t,
            nat dest := Some (OpenFile path (if dest = STDIN_FILENO then O_RDONLY else O_WRONLY))] \<and>
         fd_target w saved = None \<and> nat saved < length (fdtab w)"
proof -
  let ?acc = "if dest = STDIN_FILENO then O_RDONLY else O_WRONLY"
  obtain fd w1 where o: "(if dest = STDIN_FILENO then sys_open path O_RDONLY w
                          else sys_creat path (S_IRUSR OR S_IWUSR) w) = (fd, w1)"
    by (cases "if dest = STDIN_FILENO then sys_open path O_RDONLY w
                          else sys_creat path (S_IRUSR OR S_IWUSR) w") auto
  from r s o have fd: "fd \<noteq> -1"
    by (auto simp: redirectToFile_def Let_def split: if_splits)
  from o fd obtain i where i: "free_slot (fdtab w) = Some i" "fd = int i"
      "fdtab w1 = (fdtab w)[i := Some (OpenFile path ?acc)]" "stderr_log w1 = stderr_log w"
    by (auto split: if_splits dest!: sys_open_ok sys_creat_ok)
  from free_slot_Some [OF i(1)] have ilt: "i < length (fdtab w)" and inone: "fdtab w ! i = None"
    by auto
  from t inone have di: "nat dest \<noteq> i" "0 \<le> dest" "nat dest < length (fdtab w)"
    by (auto simp: fd_target_def split: if_splits)
  have t1: "fd_target w1 dest = Some t"
    using t di i(3) by (simp add: fd_target_def)
  from r o fd have r': "(case redirect fd dest e w1 of
      (std_tmp_copy, error', w2) \<Rightarrow> (std_tmp_copy, error', snd (sys_close fd w2))) = (saved, e', w')"
    by (simp add: redirectToFile_def Let_def split: prod.splits)
  from r' s t1 obtain j where j: "free_slot (fdtab w1) = Some j" "saved = int j"
    by (auto simp: redirect_def sys_dup_def Let_def split: prod.splits option.splits if_splits)
  from free_slot_Some [OF j(1)] i(3) ilt have jlt: "j < length (fdtab w)" and jne: "j \<noteq> i"
    and jnone: "fdtab w ! j = None"
    by (auto simp: nth_list_update split: if_splits)
  from jnone t di have dj: "nat dest \<noteq> j"
    by (auto simp: fd_target_def)
  have "fdtab w' = (fdtab w)[i := Some (OpenFile path ?acc), j := Some t,
           nat dest := Some (OpenFile path ?acc), i := None]"
    and "e' = e" and "stderr_log w' = stderr_log w"
    using r' j t1 i(2,3,4) ilt jlt di jne dj
    by (auto simp: redirect_def sys_dup_def sys_dup2_def sys_close_def fd_target_def Let_def
        report_def split: prod.splits option.splits if_splits)
  moreover have "(fdtab w)[i := Some (OpenFile path ?acc), j := Some t,
           nat dest := Some (OpenFile path ?acc), i := None] =
      (fdtab w)[j := Some t, nat dest := Some (OpenFile path ?acc)]"
    using ilt jlt di jne dj inone
    by (auto simp: list_eq_iff_nth_eq nth_list_update)
  ultimately show ?thesis
    using j(2) jnone jlt by (simp add: fd_target_def)
qed

subsection \<open>The contract of redirectToFile\<close>

lemma redirectToFile_example:
  "redirectToFile (Some ''out.txt'') STDOUT_FILENO False w_tty =
     (4, False,
      w_tty\<lparr>fdtab := [Some Terminal, Some (OpenFile ''out.txt'' O_WRONLY), Some Terminal, None,
                       Some Terminal],
             fs := (fs w_tty)(''out.txt'' \<mapsto> \<lparr>content = [], perms = 384\<rparr>)\<rparr>)"
  by (simp add: redirectToFile_def redirect_def w_tty_def os_defs Let_def)

lemma open_missing: "fst (sys_open ''missing'' O_RDONLY w_tty) = -1"
  by (simp add: w_tty_def sys_open_def)

lemma creat_ro: "fst (sys_creat ''ro.txt'' (S_IRUSR OR S_IWUSR) w_tty) = -1"
  by (simp add: w_tty_def sys_creat_def S_IWUSR_def)

lemma open_in: "sys_open ''in.txt'' O_RDONLY w_tty =
     (3, w_tty\<lparr>fdtab := [Some Terminal, Some Terminal, Some Terminal,
                          Some (OpenFile ''in.txt'' O_RDONLY), None]\<rparr>)"
  by (simp add: w_tty_def sys_open_def S_IRUSR_def)

lemma creat_out: "sys_creat ''out.txt'' (S_IRUSR OR S_IWUSR) w_tty =
     (3, w_tty\<lparr>fdtab := [Some Terminal, Some Terminal, Some Terminal,
                          Some (OpenFile ''out.txt'' O_WRONLY), None],
                fs := (fs w_tty)(''out.txt'' \<mapsto> \<lparr>content = [], perms = 384\<rparr>)\<rparr>)"
  by (simp add: w_tty_def sys_creat_def S_IRUSR_def S_IWUSR_def)

lemma redirectToFile_last_slot:
  "redirectToFile (Some ''out.txt'') STDOUT_FILENO False w_last_slot = (-1, False, w_stuck)"
  by (simp add: redirectToFile_def redirect_def w_last_slot_def w_stuck_def os_defs Let_def)

text \<open>
  Claim C5 ends the contract of \<open>redirectToFile\<close> with: on success the descriptors
  are swapped, the file's own descriptor is closed, \<open>dest\<close> is the live channel and the
  saved descriptor is returned. The comments of \<open>redirect\<close> and \<open>redirectToFile\<close> say
  the same: the error flag is set if an error occurs, and a copy of \<open>dest\<close> from before
  the redirection is returned. \<open>redirect\<close> does not check the result of \<open>dup\<close>. With
  one free descriptor left, \<open>creat\<close> takes it, \<open>dup\<close> fails, \<open>dup2\<close> still points
  standard output at the file, and \<open>redirectToFile\<close> returns \<open>-1\<close> with the error flag
  unset and nothing printed: standard output is \<open>out.txt\<close>, and the caller is given
  neither a saved descriptor nor an error.
\<close>

theorem redirectToFile_returns_no_copy:
  "fd_target w_last_slot STDOUT_FILENO = Some Terminal \<and>
   sys_creat ''out.txt'' (S_IRUSR OR S_IWUSR) w_last_slot =
     (3, w_last_slot\<lparr>fdtab := [Some Terminal, Some Terminal, Some Terminal,
                                 Some (OpenFile ''out.txt'' O_WRONLY)],
                      fs := [''out.txt'' \<mapsto> \<lparr>content = [], perms = 384\<rparr>]\<rparr>) \<and>
   redirectToFile (Some ''out.txt'') STDOUT_FILENO False w_last_slot = (-1, False, w_stuck) \<and>
   fd_target w_stuck STDOUT_FILENO = Some (OpenFile ''out.txt'' O_WRONLY) \<and>
   fd_target w_stuck (-1) = None \<and>
   stderr_log w_stuck = []"
  by (simp add: redirectToFile_last_slot)
     (simp add: w_last_slot_def w_stuck_def sys_creat_def fd_target_def STDOUT_FILENO_def
        S_IRUSR_def S_IWUSR_def)

subsection \<open>The scan of interpretArgs\<close>

lemma visits_scan_loop:
  "visits args beyond w0 arg l w \<Longrightarrow>
     scan_loop args beyond arg l w = scan_loop args beyond 0 init_locals w0"
proof (induction rule: visits.induct)
  case enter
  show ?case by simp
next
  case (iterate arg l w arg' l' w')
  then show ?case by (simp add: scan_loop.simps [of args beyond arg l w])
qed

lemma scan_loop_visits_end:
  "visits args beyond w0 arg l w \<Longrightarrow> scan_loop args beyond arg l w = (l', w') \<Longrightarrow>
     \<exists>arg'. visits args beyond w0 arg' l' w' \<and> \<not> (arg' < length args \<and> \<not> error l')"
proof (induction args beyond arg l w rule: scan_loop.induct)
  case (1 args beyond arg l w)
  show ?case
  proof (cases "arg < length args \<and> \<not> error l")
    case True
    obtain a1 l1 w1 where s: "scan_arg args beyond arg l w = (a1, l1, w1)"
      by (cases "scan_arg args beyond arg l w") auto
    with True "1.prems" have v: "visits args beyond w0 (Suc a1) l1 w1"
      by (auto intro: visits.iterate)
    from "1.prems"(2) True s have sl: "scan_loop args beyond (Suc a1) l1 w1 = (l', w')"
      by (simp add: scan_loop.simps [of args beyond arg l w])
    from "1.IH" [OF True s [symmetric] refl v sl] show ?thesis .
  next
    case False
    with "1.prems" show ?thesis
      by (auto simp: scan_loop.simps [of args beyond arg l w])
  qed
qed

lemma scan_loop_final:
  "scan_loop args beyond 0 init_locals w0 = (l', w') \<Longrightarrow>
     \<exists>arg'. visits args beyond w0 arg' l' w' \<and> \<not> (arg' < length args \<and> \<not> error l')"
  using scan_loop_visits_end [OF visits.enter] by blast


lemma redirectToFile_frame:
  assumes "redirectToFile file dest e w = (saved, e', w')"
  shows "children w' = children w \<and> nproc w' = nproc w \<and>
         (fs w' = fs w \<or>
          (dest \<noteq> STDIN_FILENO \<and>
           (\<exists>path f. file = Some path \<and> fs w' = (fs w)(path \<mapsto> f) \<and> content f = [])))"
proof (cases "file")
  case None
  with assms show ?thesis by (auto simp: redirectToFile_def report_def)
next
  case (Some path)
  show ?thesis
  proof (cases "dest = STDIN_FILENO")
    case True
    with assms Some show ?thesis
      by (auto simp: redirectToFile_def redirect_def sys_open_def sys_dup_def sys_dup2_def
          sys_close_def report_def Let_def split: option.splits if_splits prod.splits)
  next
    case False
    with assms Some show ?thesis
      by (auto simp: redirectToFile_def redirect_def sys_creat_def sys_dup_def sys_dup2_def
          sys_close_def report_def Let_def split: option.splits if_splits prod.splits)
  qed
qed

lemma scan_arg_frame:
  assumes "scan_arg args beyond arg l w = (arg', l', w')"
  shows "children w' = children w \<and> nproc w' = nproc w"
  using assms
  by (auto simp: scan_arg_def Let_def report_def split: if_splits prod.splits
      dest: redirectToFile_frame)

lemma visits_children:
  "visits args beyond w0 arg l w \<Longrightarrow> children w = children w0 \<and> nproc w = nproc w0"
  by (induction rule: visits.induct) (auto dest: scan_arg_frame)

lemma restore_frame:
  "children (restore l w) = children w \<and> stderr_log (restore l w) = stderr_log w \<and>
   fs (restore l w) = fs w \<and> nproc (restore l w) = nproc w"
  by (auto simp: restore_def sys_dup2_def sys_close_def Let_def split: option.splits prod.splits)

lemma execute_error: "error l \<Longrightarrow> execute l w = w"
  by (simp add: execute_def)

lemma interpretArgs_stopped:
  assumes v: "visits args beyond w0 arg l w" and e: "error l"
  shows "interpretArgs args beyond w0 = restore l w"
proof -
  from visits_scan_loop [OF v] e have "scan_loop args beyond 0 init_locals w0 = (l, w)"
    by (simp add: scan_loop.simps [of args beyond arg l w])
  with e show ?thesis by (simp add: interpretArgs_def execute_error)
qed

lemma scan_loop_stopped:
  assumes v: "visits args beyond w0 arg l w" and e: "error l"
  shows "scan_loop args beyond 0 init_locals w0 = (l, w)"
  using visits_scan_loop [OF v] e by (simp add: scan_loop.simps [of args beyond arg l w])

lemma scan_loop_ended:
  assumes v: "visits args beyond w0 arg l w" and e: "\<not> (arg < length args \<and> \<not> error l)"
  shows "scan_loop args beyond 0 init_locals w0 = (l, w)"
  using visits_scan_loop [OF v] e by (simp add: scan_loop.simps [of args beyond arg l w])

lemma nth_update_any: "xs[i := x] ! j = (if i = j \<and> i < length xs then x else xs ! j)"
  by (cases "i < length xs") (auto simp: nth_list_update list_update_beyond)

lemma sys_dup_keeps:
  assumes "sys_dup fd w = (r, w1)" "fd_target w x = Some t"
  shows "fd_target w1 x = Some t \<and> length (fdtab w1) = length (fdtab w) \<and>
         stderr_log w1 = stderr_log w"
proof (cases "fd_target w fd")
  case None
  with assms show ?thesis by (simp add: sys_dup_def)
next
  case (Some u)
  show ?thesis
  proof (cases "free_slot (fdtab w)")
    case None
    with Some assms show ?thesis by (simp add: sys_dup_def)
  next
    case (Some i)
    from free_slot_Some [OF Some] assms(2) have "nat x \<noteq> i"
      by (auto simp: fd_target_def split: if_splits)
    with Some \<open>fd_target w fd = Some u\<close> assms show ?thesis
      by (auto simp: sys_dup_def fd_target_def split: if_splits)
  qed
qed

lemma redirect_ok:
  assumes s: "fd_target w source = Some t" and d: "0 \<le> dest" "nat dest < length (fdtab w)"
    and r: "redirect source dest e w = (saved, e', w')"
  shows "e' = e \<and> stderr_log w' = stderr_log w"
proof -
  obtain c w1 where dup: "sys_dup dest w = (c, w1)"
    by (cases "sys_dup dest w") auto
  from sys_dup_keeps [OF dup s] d
  have "sys_dup2 source dest w1 = (dest, w1\<lparr>fdtab := (fdtab w1)[nat dest := Some t]\<rparr>)"
    by (simp add: sys_dup2_def)
  with r dup d sys_dup_keeps [OF dup s] show ?thesis
    by (auto simp: redirect_def)
qed

lemma sys_close_log: "stderr_log (snd (sys_close fd w)) = stderr_log w"
  by (simp add: sys_close_def split: option.splits)

lemma redirectToFile_opened_stdin:
  assumes o: "fst (sys_open path O_RDONLY w) \<noteq> -1"
    and r: "redirectToFile (Some path) STDIN_FILENO e w = (saved, e', w')"
  shows "e' = e \<and> stderr_log w' = stderr_log w"
proof -
  obtain fd w1 where f: "sys_open path O_RDONLY w = (fd, w1)"
    by (cases "sys_open path O_RDONLY w") auto
  with o sys_open_ok [of path O_RDONLY w fd w1] obtain i where i: "free_slot (fdtab w) = Some i" "fd = int i"
      "w1 = w\<lparr>fdtab := (fdtab w)[i := Some (OpenFile path O_RDONLY)]\<rparr>"
    by auto
  from free_slot_Some [OF i(1)] have ilt: "i < length (fdtab w)" by simp
  with i have t: "fd_target w1 fd = Some (OpenFile path O_RDONLY)"
    and z: "0 \<le> STDIN_FILENO" "nat STDIN_FILENO < length (fdtab w1)"
    and lg: "stderr_log w1 = stderr_log w"
    by (auto simp: fd_target_def STDIN_FILENO_def)
  obtain s2 e2 w2 where r2: "redirect fd STDIN_FILENO e w1 = (s2, e2, w2)"
    by (cases "redirect fd STDIN_FILENO e w1") auto
  from r f o r2 have "e' = e2" "w' = snd (sys_close fd w2)"
    by (auto simp: redirectToFile_def Let_def split: prod.splits)
  with redirect_ok [OF t z r2] lg show ?thesis
    by (simp add: sys_close_log)
qed

lemma pipe_example_visit:
  "visits [''ls'', ''|'', ''wc'', ''|'', ''cat''] None w_tty (Suc (Suc (Suc 0)))
     (init_locals\<lparr>exec_args := [''ls''], pipe := True, pipe_prog := Some ''wc''\<rparr>) w_tty"
proof -
  let ?args = "[''ls'', ''|'', ''wc'', ''|'', ''cat'']"
  have "scan_arg ?args None 0 init_locals w_tty = (0, init_locals\<lparr>exec_args := [''ls'']\<rparr>, w_tty)"
    by (simp add: scan_arg_def first_char_def init_locals_def)
  from visits.iterate [OF visits.enter _ _ this]
  have v1: "visits ?args None w_tty (Suc 0) (init_locals\<lparr>exec_args := [''ls'']\<rparr>) w_tty"
    by (simp add: init_locals_def)
  have "scan_arg ?args None (Suc 0) (init_locals\<lparr>exec_args := [''ls'']\<rparr>) w_tty =
      (Suc (Suc 0), init_locals\<lparr>exec_args := [''ls''], pipe := True, pipe_prog := Some ''wc''\<rparr>, w_tty)"
    by (simp add: scan_arg_def first_char_def arg_at_def init_locals_def)
  from visits.iterate [OF v1 _ _ this] show ?thesis
    by (simp add: init_locals_def)
qed


text \<open>
  The loop is deterministic and its cursor only moves forward, so the states of a scan
  are linearly ordered: of two states the scan goes through, the one with the larger
  cursor is reached from the other.
\<close>

lemma scan_step_deterministic:
  "scan_step args beyond s a \<Longrightarrow> scan_step args beyond s b \<Longrightarrow> a = b"
  by (auto simp: scan_step_def split: prod.splits)

lemma scan_step_cursor: "scan_step args beyond s s' \<Longrightarrow> fst s < fst s'"
  by (auto simp: scan_step_def split: prod.splits dest: scan_arg_cursor)

lemma scan_steps_cursor: "(scan_step args beyond)\<^sup>*\<^sup>* s s' \<Longrightarrow> fst s \<le> fst s'"
  by (induction rule: rtranclp_induct) (auto dest: scan_step_cursor)

lemma visits_scan_steps:
  "visits args beyond w0 arg l w \<Longrightarrow> (scan_step args beyond)\<^sup>*\<^sup>* (0, init_locals, w0) (arg, l, w)"
proof (induction rule: visits.induct)
  case enter
  show ?case by simp
next
  case (iterate arg l w arg' l' w')
  then have "scan_step args beyond (arg, l, w) (Suc arg', l', w')"
    by (simp add: scan_step_def)
  with iterate.IH show ?case by (rule rtranclp.rtrancl_into_rtrancl)
qed

lemma scan_steps_linear:
  assumes "(scan_step args beyond)\<^sup>*\<^sup>* s x" and "(scan_step args beyond)\<^sup>*\<^sup>* s y"
  shows "(scan_step args beyond)\<^sup>*\<^sup>* x y \<or> (scan_step args beyond)\<^sup>*\<^sup>* y x"
  using assms
proof (induction rule: rtranclp_induct)
  case base
  then show ?case by simp
next
  case (step x' x)
  from step.IH [OF step.prems] show ?case
  proof
    assume "(scan_step args beyond)\<^sup>*\<^sup>* x' y"
    then show ?thesis
    proof (cases rule: converse_rtranclpE)
      case base
      with step.hyps(2) have "(scan_step args beyond)\<^sup>*\<^sup>* y x" by auto
      then show ?thesis ..
    next
      case (step z)
      from scan_step_deterministic [OF \<open>scan_step args beyond x' x\<close> step(1)] step(2)
      show ?thesis by simp
    qed
  next
    assume "(scan_step args beyond)\<^sup>*\<^sup>* y x'"
    from this step.hyps(2) have "(scan_step args beyond)\<^sup>*\<^sup>* y x"
      by (rule rtranclp.rtrancl_into_rtrancl)
    then show ?thesis ..
  qed
qed

lemma visits_later:
  assumes i: "visits args beyond w0 i l1 w1" and j: "visits args beyond w0 j l2 w2" and lt: "i < j"
  shows "i < length args \<and> \<not> error l1 \<and>
         (\<exists>a' l' w'. scan_arg args beyond i l1 w1 = (a', l', w') \<and>
            (scan_step args beyond)\<^sup>*\<^sup>* (Suc a', l', w') (j, l2, w2))"
proof -
  from scan_steps_linear [OF visits_scan_steps [OF i] visits_scan_steps [OF j]]
  have "(scan_step args beyond)\<^sup>*\<^sup>* (i, l1, w1) (j, l2, w2)"
    using lt by (auto dest: scan_steps_cursor)
  then show ?thesis
  proof (cases rule: converse_rtranclpE)
    case base
    with lt show ?thesis by simp
  next
    case (step z)
    then show ?thesis by (auto simp: scan_step_def split: prod.splits)
  qed
qed

text \<open>The flags are only ever set, each by its control character.\<close>

lemma scan_arg_flags:
  assumes "scan_arg args beyond arg l w = (arg', l', w')"
  shows "(redirected l \<or> is_redirect (args ! arg) \<longrightarrow> redirected l') \<and>
         (pipe l \<or> first_char (args ! arg) = CHR ''|'' \<longrightarrow> pipe l') \<and>
         (\<not> wait l \<or> first_char (args ! arg) = CHR ''&'' \<longrightarrow> \<not> wait l')"
  using assms
  by (auto simp: scan_arg_def is_redirect_def Let_def split: if_splits prod.splits)

lemma scan_steps_flags:
  "(scan_step args beyond)\<^sup>*\<^sup>* s s' \<Longrightarrow>
     (redirected (fst (snd s)) \<longrightarrow> redirected (fst (snd s'))) \<and>
     (pipe (fst (snd s)) \<longrightarrow> pipe (fst (snd s'))) \<and>
     (\<not> wait (fst (snd s)) \<longrightarrow> \<not> wait (fst (snd s')))"
proof (induction rule: rtranclp_induct)
  case base
  show ?case by simp
next
  case (step y z)
  from step.hyps(2) obtain arg l w arg' l' w' where
    "y = (arg, l, w)" "z = (Suc arg', l', w')" "scan_arg args beyond arg l w = (arg', l', w')"
    by (cases y) (auto simp: scan_step_def split: prod.splits)
  with scan_arg_flags [of args beyond arg l w arg' l' w'] step.IH show ?case by simp
qed

lemma control_already_set:
  assumes i: "visits args beyond w0 i l1 w1" and j: "visits args beyond w0 j l2 w2" and lt: "i < j"
  shows "(is_redirect (args ! i) \<longrightarrow> redirected l2) \<and>
         (first_char (args ! i) = CHR ''|'' \<longrightarrow> pipe l2)"
proof -
  from visits_later [OF i j lt] obtain a' l' w' where
    s: "scan_arg args beyond i l1 w1 = (a', l', w')"
    and r: "(scan_step args beyond)\<^sup>*\<^sup>* (Suc a', l', w') (j, l2, w2)"
    by blast
  from scan_arg_flags [OF s] scan_steps_flags [OF r] show ?thesis by simp
qed

subsection \<open>Saving and restoring the redirected descriptor\<close>

lemma second_free_slot:
  "free_slot tab = Some i \<Longrightarrow> 2 \<le> length (filter (\<lambda>t. t = None) tab) \<Longrightarrow>
     free_slot (tab[i := Some x]) \<noteq> None"
proof (induction tab arbitrary: i rule: free_slot.induct)
  case 1
  then show ?case by simp
next
  case (2 tab)
  then have "None \<in> set tab"
    by (cases "filter (\<lambda>t. t = None) tab") (auto dest: filter_eq_ConsD)
  with free_slot_None [of tab] have "free_slot tab \<noteq> None" by blast
  with 2 show ?case by auto
next
  case (3 t tab)
  then show ?case by (cases "free_slot tab") auto
qed

lemma redirectToFile_unsaved:
  assumes t: "fd_target w dest = Some t" and two: "2 \<le> free_slots w"
    and r: "redirectToFile file dest e w = (-1, e', w')"
  shows "fdtab w' = fdtab w"
proof (cases "file")
  case None
  with r show ?thesis by (auto simp: redirectToFile_def report_def)
next
  case (Some path)
  obtain fd w1 where o: "(if dest = STDIN_FILENO then sys_open path O_RDONLY w
                          else sys_creat path (S_IRUSR OR S_IWUSR) w) = (fd, w1)"
    by (cases "if dest = STDIN_FILENO then sys_open path O_RDONLY w
                          else sys_creat path (S_IRUSR OR S_IWUSR) w") auto
  show ?thesis
  proof (cases "fd = -1")
    case True
    with o have "w1 = w"
      by (auto simp: sys_open_def sys_creat_def split: if_splits option.splits)
    with r Some o True show ?thesis by (auto simp: redirectToFile_def report_def)
  next
    case False
    with o obtain i u where i: "free_slot (fdtab w) = Some i" "fd = int i"
        "fdtab w1 = (fdtab w)[i := Some u]"
      by (auto split: if_splits dest!: sys_open_ok sys_creat_ok)
    from free_slot_Some [OF i(1)] t have di: "nat dest \<noteq> i" "0 \<le> dest" "nat dest < length (fdtab w)"
      by (auto simp: fd_target_def split: if_splits)
    with i(3) t have t1: "fd_target w1 dest = Some t"
      by (simp add: fd_target_def)
    from second_free_slot [OF i(1), of u] two i(3) obtain j where j: "free_slot (fdtab w1) = Some j"
      by (auto simp: free_slots_def)
    from t1 j have "fst (sys_dup dest w1) = int j"
      by (simp add: sys_dup_def)
    then have "fst (redirect fd dest e w1) \<noteq> -1"
      by (auto simp: redirect_def Let_def split: prod.splits)
    with r Some o False show ?thesis
      by (auto simp: redirectToFile_def Let_def split: prod.splits)
  qed
qed

lemma restore_cong: "fdtab w = fdtab w' \<Longrightarrow> fdtab (restore l w) = fdtab (restore l w')"
  by (auto simp: restore_def sys_dup2_def sys_close_def fd_target_def Let_def
      split: option.splits prod.splits)

lemma restore_unsaved:
  "redirected_from l = -1 \<Longrightarrow> fdtab (restore l w) = fdtab w"
  by (simp add: restore_def sys_dup2_def sys_close_def fd_target_def Let_def)

lemma restore_not_redirected: "\<not> redirected l \<Longrightarrow> restore l w = w"
  by (simp add: restore_def)

lemma restore_swapped:
  assumes l: "redirected l" "redirected_from l = s" "redirected_to l = d"
    and s: "0 \<le> s" "nat s < length tab" "tab ! nat s = None"
    and d: "0 \<le> d" "nat d < length tab" "tab ! nat d = Some t"
    and w: "fdtab w = tab[nat s := Some t, nat d := Some f]"
  shows "fdtab (restore l w) = tab"
proof -
  from s d have ne: "nat s \<noteq> nat d" by auto
  with s d w have src: "fd_target w s = Some t"
    by (simp add: fd_target_def)
  with l s d w have "sys_dup2 (redirected_from l) (redirected_to l) w =
      (d, w\<lparr>fdtab := tab[nat s := Some t, nat d := Some t]\<rparr>)"
    by (simp add: sys_dup2_def)
  moreover from s d ne
  have "fd_target (w\<lparr>fdtab := tab[nat s := Some t, nat d := Some t]\<rparr>) s = Some t"
    by (simp add: fd_target_def)
  ultimately have "fdtab (restore l w) = tab[nat s := Some t, nat d := Some t, nat s := None]"
    using l by (simp add: restore_def sys_close_def)
  also from s d ne have "\<dots> = tab"
    by (auto simp: list_eq_iff_nth_eq nth_list_update)
  finally show ?thesis .
qed

lemma scan_arg_restore:
  assumes s: "scan_arg args beyond arg l w = (arg', l', w')"
    and inv: "fdtab (restore l w) = tab"
    and std: "\<not> redirected l \<Longrightarrow>
        fd_target w STDIN_FILENO \<noteq> None \<and> fd_target w STDOUT_FILENO \<noteq> None \<and> 2 \<le> free_slots w"
  shows "fdtab (restore l' w') = tab"
proof (cases "is_redirect (args ! arg) \<and> \<not> redirected l")
  case False
  with s have "fdtab w' = fdtab w" "redirected l' = redirected l"
    "redirected_from l' = redirected_from l" "redirected_to l' = redirected_to l"
    by (auto simp: scan_arg_def is_redirect_def report_def Let_def split: if_splits)
  then have "fdtab (restore l' w') = fdtab (restore l w)"
    by (auto simp: restore_def sys_dup2_def sys_close_def fd_target_def Let_def
        split: option.splits prod.splits)
  with inv show ?thesis by simp
next
  case True
  let ?dest = "if first_char (args ! arg) = CHR ''<'' then STDIN_FILENO else STDOUT_FILENO"
  let ?file = "arg_at args beyond (Suc arg)"
  from True inv have tab: "fdtab w = tab" by (simp add: restore_not_redirected)
  from True std obtain t where t: "fd_target w ?dest = Some t" and two: "2 \<le> free_slots w"
    by (cases "first_char (args ! arg) = CHR ''<''") auto
  obtain saved e1 w1 where r: "redirectToFile ?file ?dest (error l) w = (saved, e1, w1)"
    by (cases "redirectToFile ?file ?dest (error l) w") auto
  with s True have l': "redirected l'" "redirected_from l' = saved" "redirected_to l' = ?dest"
    and w': "w' = w1"
    by (auto simp: scan_arg_def is_redirect_def Let_def split: if_splits)
  show ?thesis
  proof (cases "saved = -1")
    case True
    with r redirectToFile_unsaved [OF t two] have "fdtab w1 = fdtab w" by blast
    with True l' w' tab show ?thesis by (simp add: restore_unsaved)
  next
    case False
    with r obtain path where p: "?file = Some path"
      by (cases ?file) (auto simp: redirectToFile_def)
    have dest: "?dest = STDIN_FILENO \<or> ?dest = STDOUT_FILENO" by simp
    from redirectToFile_swapped [OF dest t r [unfolded p] False]
    have sw: "0 \<le> saved" "fd_target w saved = None" "nat saved < length (fdtab w)"
      "fdtab w1 = (fdtab w)[nat saved := Some t,
         nat ?dest := Some (OpenFile path (if ?dest = STDIN_FILENO then O_RDONLY else O_WRONLY))]"
      by simp_all
    from t have d: "0 \<le> ?dest" "nat ?dest < length (fdtab w)" "fdtab w ! nat ?dest = Some t"
      by (auto simp: fd_target_def split: if_splits)
    from sw(1-3) have "fdtab w ! nat saved = None"
      by (simp add: fd_target_def)
    from restore_swapped [OF l' sw(1,3) this d sw(4) [folded w']] tab show ?thesis by simp
  qed
qed

lemma visits_restore:
  assumes "fd_target w0 STDIN_FILENO \<noteq> None" "fd_target w0 STDOUT_FILENO \<noteq> None"
    "2 \<le> free_slots w0"
  shows "visits args beyond w0 arg l w \<Longrightarrow> fdtab (restore l w) = fdtab w0"
proof (induction rule: visits.induct)
  case enter
  show ?case by (simp add: restore_def init_locals_def)
next
  case (iterate arg l w arg' l' w')
  have "fd_target w STDIN_FILENO \<noteq> None \<and> fd_target w STDOUT_FILENO \<noteq> None \<and> 2 \<le> free_slots w"
    if "\<not> redirected l"
  proof -
    from that iterate.IH have eq: "fdtab w = fdtab w0" by (simp add: restore_not_redirected)
    then have "fd_target w x = fd_target w0 x" for x
      by (simp add: fd_target_def)
    moreover from eq have "free_slots w = free_slots w0"
      by (simp add: free_slots_def)
    ultimately show ?thesis using assms by simp
  qed
  with iterate.hyps(4) iterate.IH show ?case by (rule scan_arg_restore)
qed

lemma execute_fdtab: "fdtab (execute l w) = fdtab w"
  by (simp add: execute_def forkInto_def forkAndPipeInto_def sys_fork_def sys_wait_def report_def
      Let_def split: list.splits)

lemma restore_nothing_saved:
  "redirected_from l = -1 \<Longrightarrow> restore l w = w"
  by (simp add: restore_def sys_dup2_def sys_close_def fd_target_def Let_def)

subsection \<open>A second redirect or pipe is rejected\<close>

lemma redirectToFile_unopened:
  assumes "fst (sys_open path O_RDONLY w) = -1"
  shows "redirectToFile (Some path) STDIN_FILENO e w = (-1, True, report (FileOpenFailure path) w)"
  using assms by (simp add: redirectToFile_def sys_open_fail)

lemma missing_example:
  "interpretArgs [''a'', ''<'', ''missing'', ''<'', ''f2''] None w_tty =
     report (FileOpenFailure ''missing'') w_tty"
proof -
  let ?args = "[''a'', ''<'', ''missing'', ''<'', ''f2'']"
  let ?l1 = "init_locals\<lparr>exec_args := [''a'']\<rparr>"
  let ?l2 = "?l1\<lparr>redirected := True, redirected_to := STDIN_FILENO,
                    redirected_from := -1, error := True\<rparr>"
  have "scan_arg ?args None 0 init_locals w_tty = (0, ?l1, w_tty)"
    by (simp add: scan_arg_def first_char_def init_locals_def)
  from visits.iterate [OF visits.enter _ _ this]
  have v1: "visits ?args None w_tty (Suc 0) ?l1 w_tty"
    by (simp add: init_locals_def)
  have "scan_arg ?args None (Suc 0) ?l1 w_tty =
      (Suc (Suc 0), ?l2, report (FileOpenFailure ''missing'') w_tty)"
    by (simp add: scan_arg_def first_char_def arg_at_def init_locals_def
        redirectToFile_unopened [OF open_missing])
  from visits.iterate [OF v1 _ _ this]
  have "visits ?args None w_tty (Suc (Suc (Suc 0))) ?l2 (report (FileOpenFailure ''missing'') w_tty)"
    by (simp add: init_locals_def)
  then have "interpretArgs ?args None w_tty = restore ?l2 (report (FileOpenFailure ''missing'') w_tty)"
    by (rule interpretArgs_stopped) simp
  then show ?thesis by (simp add: restore_nothing_saved)
qed

lemma mixed_redirect_first_visit:
  "visits [''a'', ''>'', ''out.txt'', ''<'', ''in.txt''] None w_tty (Suc 0)
     (init_locals\<lparr>exec_args := [''a'']\<rparr>) w_tty"
proof -
  let ?args = "[''a'', ''>'', ''out.txt'', ''<'', ''in.txt'']"
  have "scan_arg ?args None 0 init_locals w_tty = (0, init_locals\<lparr>exec_args := [''a'']\<rparr>, w_tty)"
    by (simp add: scan_arg_def first_char_def init_locals_def)
  from visits.iterate [OF visits.enter _ _ this] show ?thesis
    by (simp add: init_locals_def)
qed

lemma mixed_redirect_visit:
  "visits [''a'', ''>'', ''out.txt'', ''<'', ''in.txt''] None w_tty (Suc (Suc (Suc 0)))
     (init_locals\<lparr>exec_args := [''a''], redirected := True, redirected_to := 1,
        redirected_from := 4\<rparr>)
     (w_tty\<lparr>fdtab := [Some Terminal, Some (OpenFile ''out.txt'' O_WRONLY), Some Terminal, None,
                       Some Terminal],
             fs := (fs w_tty)(''out.txt'' \<mapsto> \<lparr>content = [], perms = 384\<rparr>)\<rparr>)"
proof -
  let ?args = "[''a'', ''>'', ''out.txt'', ''<'', ''in.txt'']"
  have "scan_arg ?args None 0 init_locals w_tty = (0, init_locals\<lparr>exec_args := [''a'']\<rparr>, w_tty)"
    by (simp add: scan_arg_def first_char_def init_locals_def)
  from visits.iterate [OF visits.enter _ _ this]
  have v1: "visits ?args None w_tty (Suc 0) (init_locals\<lparr>exec_args := [''a'']\<rparr>) w_tty"
    by (simp add: init_locals_def)
  have "scan_arg ?args None (Suc 0) (init_locals\<lparr>exec_args := [''a'']\<rparr>) w_tty =
      (Suc (Suc 0), init_locals\<lparr>exec_args := [''a''], redirected := True, redirected_to := 1,
        redirected_from := 4\<rparr>,
       w_tty\<lparr>fdtab := [Some Terminal, Some (OpenFile ''out.txt'' O_WRONLY), Some Terminal, None,
                       Some Terminal],
             fs := (fs w_tty)(''out.txt'' \<mapsto> \<lparr>content = [], perms = 384\<rparr>)\<rparr>)"
    by (simp add: scan_arg_def first_char_def arg_at_def init_locals_def redirectToFile_example)
       (simp add: STDOUT_FILENO_def)
  from visits.iterate [OF v1 _ _ this] show ?thesis
    by (simp add: init_locals_def)
qed

text \<open>
  Claim C4, as the code has it. Whenever the scan is at an argument that starts with
  \<open><\<close> or \<open>>\<close> while \<open>redirected\<close> is already set, \<open>interpretArgs\<close> prints the
  message of \<open>DuplicateRedirect\<close> as its last message and forks nothing; likewise an
  argument that starts with \<open>|\<close> scanned while \<open>pipe\<close> is set gives \<open>DuplicatePipe\<close>
  and no fork. The flags are set by the arguments themselves: once the scan has been at
  an argument that starts with \<open><\<close> or \<open>>\<close> (with \<open>|\<close>), \<open>redirected\<close> (\<open>pipe\<close>)
  is set in every later state of the scan. The loop stops at the first error, so a
  second redirect is scanned only when the first one raised none: \<open>a < f1 < f2\<close> ends
  with \<open>DuplicateRedirect\<close> and no fork when \<open>open\<close> can open \<open>f1\<close>; when it cannot,
  \<open>redirectToFile\<close> sets the error flag at the first \<open><\<close>, the second \<open><\<close> is never
  scanned, and \<open>interpretArgs\<close> leaves the state as it was but for the message of
  \<open>FileOpenFailure\<close>: again nothing is forked.
\<close>

theorem duplicate_control_rejected:
  "(visits args beyond w0 arg l w \<and> arg < length args \<and> \<not> error l \<and>
    is_redirect (args ! arg) \<and> redirected l \<longrightarrow>
      stderr_log (interpretArgs args beyond w0) = stderr_log w @ [DuplicateRedirect] \<and>
      children (interpretArgs args beyond w0) = children w0) \<and>
   (visits args beyond w0 arg l w \<and> arg < length args \<and> \<not> error l \<and>
    first_char (args ! arg) = CHR ''|'' \<and> pipe l \<longrightarrow>
      stderr_log (interpretArgs args beyond w0) = stderr_log w @ [DuplicatePipe] \<and>
      children (interpretArgs args beyond w0) = children w0) \<and>
   (visits args beyond w0 i l1 w1 \<and> visits args beyond w0 arg l w \<and> i < arg \<longrightarrow>
      (is_redirect (args ! i) \<longrightarrow> redirected l) \<and>
      (first_char (args ! i) = CHR ''|'' \<longrightarrow> pipe l)) \<and>
   (\<not> is_control a \<and> fst (sys_open f1 O_RDONLY w0) \<noteq> -1 \<longrightarrow>
      stderr_log (interpretArgs [a, ''<'', f1, ''<'', f2] beyond w0) =
        stderr_log w0 @ [DuplicateRedirect] \<and>
      children (interpretArgs [a, ''<'', f1, ''<'', f2] beyond w0) = children w0) \<and>
   (\<not> is_control a \<and> fst (sys_open f1 O_RDONLY w0) = -1 \<longrightarrow>
      interpretArgs [a, ''<'', f1, ''<'', f2] beyond w0 = report (FileOpenFailure f1) w0)"
proof -
  have dup_redirect: "stderr_log (interpretArgs args beyond w0) = stderr_log w @ [DuplicateRedirect] \<and>
      children (interpretArgs args beyond w0) = children w0"
    if v: "visits args beyond w0 arg l w" and a: "arg < length args" "\<not> error l"
      and c: "is_redirect (args ! arg)" "redirected l"
    for args beyond w0 arg l w
  proof -
    from c have "scan_arg args beyond arg l w = (arg, l\<lparr>error := True\<rparr>, report DuplicateRedirect w)"
      by (simp add: scan_arg_def is_redirect_def)
    with v a have "visits args beyond w0 (Suc arg) (l\<lparr>error := True\<rparr>) (report DuplicateRedirect w)"
      by (rule visits.iterate)
    then have "interpretArgs args beyond w0 = restore (l\<lparr>error := True\<rparr>) (report DuplicateRedirect w)"
      by (rule interpretArgs_stopped) simp
    with visits_children [OF v] show ?thesis
      by (simp add: restore_frame report_def)
  qed
  have dup_pipe: "stderr_log (interpretArgs args beyond w0) = stderr_log w @ [DuplicatePipe] \<and>
      children (interpretArgs args beyond w0) = children w0"
    if v: "visits args beyond w0 arg l w" and a: "arg < length args" "\<not> error l"
      and c: "first_char (args ! arg) = CHR ''|''" "pipe l"
  proof -
    from c have "scan_arg args beyond arg l w = (arg, l\<lparr>error := True\<rparr>, report DuplicatePipe w)"
      by (simp add: scan_arg_def)
    with v a have "visits args beyond w0 (Suc arg) (l\<lparr>error := True\<rparr>) (report DuplicatePipe w)"
      by (rule visits.iterate)
    then have "interpretArgs args beyond w0 = restore (l\<lparr>error := True\<rparr>) (report DuplicatePipe w)"
      by (rule interpretArgs_stopped) simp
    with visits_children [OF v] show ?thesis
      by (simp add: restore_frame report_def)
  qed
  have opened: "stderr_log (interpretArgs [a, ''<'', f1, ''<'', f2] beyond w0) =
        stderr_log w0 @ [DuplicateRedirect] \<and>
      children (interpretArgs [a, ''<'', f1, ''<'', f2] beyond w0) = children w0"
    if na: "\<not> is_control a" and o: "fst (sys_open f1 O_RDONLY w0) \<noteq> -1"
  proof -
    let ?args = "[a, ''<'', f1, ''<'', f2]"
    let ?l1 = "init_locals\<lparr>exec_args := [a]\<rparr>"
    obtain saved e' w1 where r: "redirectToFile (Some f1) STDIN_FILENO False w0 = (saved, e', w1)"
      by (cases "redirectToFile (Some f1) STDIN_FILENO False w0") auto
    from redirectToFile_opened_stdin [OF o r] have e': "e' = False" "stderr_log w1 = stderr_log w0"
      by simp_all
    let ?l2 = "?l1\<lparr>redirected := True, redirected_to := STDIN_FILENO,
                    redirected_from := saved, error := False\<rparr>"
    from na have "scan_arg ?args beyond 0 init_locals w0 = (0, ?l1, w0)"
      by (simp add: scan_arg_def is_control_def init_locals_def)
    from visits.iterate [OF visits.enter _ _ this]
    have v1: "visits ?args beyond w0 (Suc 0) ?l1 w0"
      by (simp add: init_locals_def)
    from r e' have "scan_arg ?args beyond (Suc 0) ?l1 w0 = (Suc (Suc 0), ?l2, w1)"
      by (simp add: scan_arg_def first_char_def arg_at_def init_locals_def)
    from visits.iterate [OF v1 _ _ this]
    have v3: "visits ?args beyond w0 (Suc (Suc (Suc 0))) ?l2 w1"
      by (simp add: init_locals_def)
    have "is_redirect (?args ! Suc (Suc (Suc 0)))"
      by (simp add: is_redirect_def first_char_def)
    with dup_redirect [OF v3] e' show ?thesis by (simp add: init_locals_def)
  qed
  have unopened: "interpretArgs [a, ''<'', f1, ''<'', f2] beyond w0 = report (FileOpenFailure f1) w0"
    if na: "\<not> is_control a" and o: "fst (sys_open f1 O_RDONLY w0) = -1"
  proof -
    let ?args = "[a, ''<'', f1, ''<'', f2]"
    let ?l1 = "init_locals\<lparr>exec_args := [a]\<rparr>"
    let ?l2 = "?l1\<lparr>redirected := True, redirected_to := STDIN_FILENO,
                    redirected_from := -1, error := True\<rparr>"
    from na have "scan_arg ?args beyond 0 init_locals w0 = (0, ?l1, w0)"
      by (simp add: scan_arg_def is_control_def init_locals_def)
    from visits.iterate [OF visits.enter _ _ this]
    have v1: "visits ?args beyond w0 (Suc 0) ?l1 w0"
      by (simp add: init_locals_def)
    have "scan_arg ?args beyond (Suc 0) ?l1 w0 =
        (Suc (Suc 0), ?l2, report (FileOpenFailure f1) w0)"
      by (simp add: scan_arg_def first_char_def arg_at_def init_locals_def
          redirectToFile_unopened [OF o])
    from visits.iterate [OF v1 _ _ this]
    have "visits ?args beyond w0 (Suc (Suc (Suc 0))) ?l2 (report (FileOpenFailure f1) w0)"
      by (simp add: init_locals_def)
    then have "interpretArgs ?args beyond w0 = restore ?l2 (report (FileOpenFailure f1) w0)"
      by (rule interpretArgs_stopped) simp
    then show ?thesis by (simp add: restore_nothing_saved)
  qed
  from dup_redirect dup_pipe opened unopened control_already_set [of args beyond w0 i l1 w1 arg l w]
  show ?thesis by blast
qed

theorem duplicate_control_rejected_witness:
  "visits [''a'', ''>'', ''out.txt'', ''<'', ''in.txt''] None w_tty (Suc 0)
     (init_locals\<lparr>exec_args := [''a'']\<rparr>) w_tty \<and>
   is_redirect ([''a'', ''>'', ''out.txt'', ''<'', ''in.txt''] ! Suc 0) \<and>
   is_redirect ([''a'', ''>'', ''out.txt'', ''<'', ''in.txt''] ! Suc (Suc (Suc 0))) \<and>
   stderr_log (interpretArgs [''a'', ''>'', ''out.txt'', ''<'', ''in.txt''] None w_tty) =
     [DuplicateRedirect] \<and>
   children (interpretArgs [''a'', ''>'', ''out.txt'', ''<'', ''in.txt''] None w_tty) = [] \<and>
   stderr_log (interpretArgs [''ls'', ''|'', ''wc'', ''|'', ''cat''] None w_tty) = [DuplicatePipe] \<and>
   children (interpretArgs [''ls'', ''|'', ''wc'', ''|'', ''cat''] None w_tty) = [] \<and>
   \<not> is_control ''a'' \<and> fst (sys_open ''in.txt'' O_RDONLY w_tty) \<noteq> -1 \<and>
   stderr_log (interpretArgs [''a'', ''<'', ''in.txt'', ''<'', ''f2''] None w_tty) =
     [DuplicateRedirect] \<and>
   children (interpretArgs [''a'', ''<'', ''in.txt'', ''<'', ''f2''] None w_tty) = [] \<and>
   fst (sys_open ''nofile'' O_RDONLY w_tty) = -1 \<and>
   interpretArgs [''a'', ''<'', ''nofile'', ''<'', ''f2''] None w_tty =
     report (FileOpenFailure ''nofile'') w_tty"
proof -
  let ?ma = "[''a'', ''>'', ''out.txt'', ''<'', ''in.txt'']"
  let ?pa = "[''ls'', ''|'', ''wc'', ''|'', ''cat'']"
  let ?l1 = "init_locals\<lparr>exec_args := [''a'']\<rparr>"
  let ?l3 = "init_locals\<lparr>exec_args := [''a''], redirected := True, redirected_to := 1,
        redirected_from := 4\<rparr>"
  let ?w3 = "w_tty\<lparr>fdtab := [Some Terminal, Some (OpenFile ''out.txt'' O_WRONLY), Some Terminal, None,
                       Some Terminal],
             fs := (fs w_tty)(''out.txt'' \<mapsto> \<lparr>content = [], perms = 384\<rparr>)\<rparr>"
  let ?lp = "init_locals\<lparr>exec_args := [''ls''], pipe := True, pipe_prog := Some ''wc''\<rparr>"
  have r1: "is_redirect (?ma ! Suc 0)" and r3: "is_redirect (?ma ! Suc (Suc (Suc 0)))"
    by (simp_all add: is_redirect_def first_char_def)
  note m = duplicate_control_rejected [of ?ma None w_tty "Suc (Suc (Suc 0))" ?l3 ?w3 "Suc 0" ?l1 w_tty]
  have "visits ?ma None w_tty (Suc 0) ?l1 w_tty \<and> visits ?ma None w_tty (Suc (Suc (Suc 0))) ?l3 ?w3 \<and>
      Suc 0 < Suc (Suc (Suc 0))"
    using mixed_redirect_first_visit mixed_redirect_visit by simp
  with m [THEN conjunct2, THEN conjunct2, THEN conjunct1]
  have "(is_redirect (?ma ! Suc 0) \<longrightarrow> redirected ?l3) \<and>
      (first_char (?ma ! Suc 0) = CHR ''|'' \<longrightarrow> pipe ?l3)"
    by (rule mp)
  with r1 have set: "redirected ?l3" by blast
  have "Suc (Suc (Suc 0)) < length ?ma \<and> \<not> error ?l3"
    by (simp add: init_locals_def)
  with mixed_redirect_visit r3 set
  have "visits ?ma None w_tty (Suc (Suc (Suc 0))) ?l3 ?w3 \<and> Suc (Suc (Suc 0)) < length ?ma \<and>
      \<not> error ?l3 \<and> is_redirect (?ma ! Suc (Suc (Suc 0))) \<and> redirected ?l3"
    by simp
  with m [THEN conjunct1]
  have "stderr_log (interpretArgs ?ma None w_tty) = stderr_log ?w3 @ [DuplicateRedirect] \<and>
      children (interpretArgs ?ma None w_tty) = children w_tty"
    by (rule mp)
  then have r: "stderr_log (interpretArgs ?ma None w_tty) = [DuplicateRedirect]"
    "children (interpretArgs ?ma None w_tty) = []"
    by (simp_all add: w_tty_def)
  have "visits ?pa None w_tty (Suc (Suc (Suc 0))) ?lp w_tty \<and> Suc (Suc (Suc 0)) < length ?pa \<and>
      \<not> error ?lp \<and> first_char (?pa ! Suc (Suc (Suc 0))) = CHR ''|'' \<and> pipe ?lp"
    using pipe_example_visit by (simp add: init_locals_def first_char_def)
  with duplicate_control_rejected [of ?pa None w_tty "Suc (Suc (Suc 0))" ?lp w_tty,
      THEN conjunct2, THEN conjunct1]
  have "stderr_log (interpretArgs ?pa None w_tty) = stderr_log w_tty @ [DuplicatePipe] \<and>
      children (interpretArgs ?pa None w_tty) = children w_tty"
    by (rule mp)
  then have p: "stderr_log (interpretArgs ?pa None w_tty) = [DuplicatePipe]"
    "children (interpretArgs ?pa None w_tty) = []"
    by (simp_all add: w_tty_def)
  have n: "\<not> is_control ''a''"
    by (simp add: is_control_def first_char_def)
  have o: "fst (sys_open ''in.txt'' O_RDONLY w_tty) \<noteq> -1"
    by (simp add: open_in)
  have x: "fst (sys_open ''nofile'' O_RDONLY w_tty) = -1"
    by (simp add: w_tty_def sys_open_def)
  from n o have "\<not> is_control ''a'' \<and> fst (sys_open ''in.txt'' O_RDONLY w_tty) \<noteq> -1" ..
  with duplicate_control_rejected [where a = "''a''" and ?f1.0 = "''in.txt''" and ?f2.0 = "''f2''"
      and ?w0.0 = w_tty and beyond = None, THEN conjunct2, THEN conjunct2, THEN conjunct2,
      THEN conjunct1]
  have "stderr_log (interpretArgs [''a'', ''<'', ''in.txt'', ''<'', ''f2''] None w_tty) =
        stderr_log w_tty @ [DuplicateRedirect] \<and>
      children (interpretArgs [''a'', ''<'', ''in.txt'', ''<'', ''f2''] None w_tty) = children w_tty"
    by (rule mp)
  then have i: "stderr_log (interpretArgs [''a'', ''<'', ''in.txt'', ''<'', ''f2''] None w_tty) =
        [DuplicateRedirect]"
      "children (interpretArgs [''a'', ''<'', ''in.txt'', ''<'', ''f2''] None w_tty) = []"
    by (simp_all add: w_tty_def)
  from n x have "\<not> is_control ''a'' \<and> fst (sys_open ''nofile'' O_RDONLY w_tty) = -1" ..
  with duplicate_control_rejected [where a = "''a''" and ?f1.0 = "''nofile''" and ?f2.0 = "''f2''"
      and ?w0.0 = w_tty and beyond = None, THEN conjunct2, THEN conjunct2, THEN conjunct2,
      THEN conjunct2]
  have j: "interpretArgs [''a'', ''<'', ''nofile'', ''<'', ''f2''] None w_tty =
     report (FileOpenFailure ''nofile'') w_tty"
    by (rule mp)
  show ?thesis
    by (intro conjI mixed_redirect_first_visit r1 r3 r p n o i x j)
qed

text \<open>
  The instance given in the claim, that \<open>a < f1 < f2\<close> yields \<open>DuplicateRedirect\<close>,
  fails for a file that cannot be opened: on \<open>a < missing < f2\<close> the only message is
  that of \<open>FileOpenFailure\<close>, and nothing is forked.
\<close>

theorem duplicate_redirect_not_reached:
  "fst (sys_open ''missing'' O_RDONLY w_tty) = -1 \<and>
   interpretArgs [''a'', ''<'', ''missing'', ''<'', ''f2''] None w_tty =
     report (FileOpenFailure ''missing'') w_tty \<and>
   stderr_log (interpretArgs [''a'', ''<'', ''missing'', ''<'', ''f2''] None w_tty) =
     [FileOpenFailure ''missing''] \<and>
   DuplicateRedirect \<notin> set (stderr_log (interpretArgs [''a'', ''<'', ''missing'', ''<'', ''f2''] None w_tty)) \<and>
   children (interpretArgs [''a'', ''<'', ''missing'', ''<'', ''f2''] None w_tty) = []"
  by (simp add: missing_example open_missing) (simp add: report_def w_tty_def)

subsection \<open>Control arguments are recognised by their first character\<close>





















subsection \<open>What a structural error leaves behind\<close>

lemma second_output_redirect_visit:
  "visits [''a'', ''>'', ''in.txt'', ''>'', ''f2''] None w_tty (Suc (Suc (Suc (Suc 0))))
     (init_locals\<lparr>exec_args := [''a''], redirected := True, redirected_to := 1,
        redirected_from := 4, error := True\<rparr>)
     (report DuplicateRedirect w_truncated)"
proof -
  let ?args = "[''a'', ''>'', ''in.txt'', ''>'', ''f2'']"
  let ?l1 = "init_locals\<lparr>exec_args := [''a'']\<rparr>"
  let ?l2 = "init_locals\<lparr>exec_args := [''a''], redirected := True, redirected_to := 1,
        redirected_from := 4\<rparr>"
  have "scan_arg ?args None 0 init_locals w_tty = (0, ?l1, w_tty)"
    by (simp add: scan_arg_def first_char_def init_locals_def)
  from visits.iterate [OF visits.enter _ _ this]
  have v1: "visits ?args None w_tty (Suc 0) ?l1 w_tty"
    by (simp add: init_locals_def)
  have r: "redirectToFile (Some ''in.txt'') STDOUT_FILENO False w_tty = (4, False, w_truncated)"
    by (simp add: redirectToFile_def redirect_def w_tty_def w_truncated_def os_defs Let_def)
  have "scan_arg ?args None (Suc 0) ?l1 w_tty = (Suc (Suc 0), ?l2, w_truncated)"
    by (simp add: scan_arg_def first_char_def arg_at_def init_locals_def r)
       (simp add: STDOUT_FILENO_def)
  from visits.iterate [OF v1 _ _ this]
  have v3: "visits ?args None w_tty (Suc (Suc (Suc 0))) ?l2 w_truncated"
    by (simp add: init_locals_def)
  have "scan_arg ?args None (Suc (Suc (Suc 0))) ?l2 w_truncated =
      (Suc (Suc (Suc 0)), ?l2\<lparr>error := True\<rparr>, report DuplicateRedirect w_truncated)"
    by (simp add: scan_arg_def first_char_def init_locals_def)
  from visits.iterate [OF v3 _ _ this] show ?thesis
    by (simp add: init_locals_def)
qed

lemma second_output_redirect_result:
  "interpretArgs [''a'', ''>'', ''in.txt'', ''>'', ''f2''] None w_tty =
     w_tty\<lparr>fs := (fs w_tty)(''in.txt'' \<mapsto> \<lparr>content = [], perms = 420\<rparr>),
           stderr_log := [DuplicateRedirect]\<rparr>"
proof -
  have "interpretArgs [''a'', ''>'', ''in.txt'', ''>'', ''f2''] None w_tty =
      restore (init_locals\<lparr>exec_args := [''a''], redirected := True, redirected_to := 1,
        redirected_from := 4, error := True\<rparr>) (report DuplicateRedirect w_truncated)"
    by (rule interpretArgs_stopped [OF second_output_redirect_visit]) simp
  also have "\<dots> = w_tty\<lparr>fs := (fs w_tty)(''in.txt'' \<mapsto> \<lparr>content = [], perms = 420\<rparr>),
           stderr_log := [DuplicateRedirect]\<rparr>"
    by (simp add: restore_def w_truncated_def w_tty_def os_defs Let_def)
  finally show ?thesis .
qed

lemma visits_unredirected:
  "visits args beyond w0 arg l w \<Longrightarrow> \<not> redirected l \<Longrightarrow>
     w = (if error l then report DuplicatePipe w0 else w0)"
proof (induction rule: visits.induct)
  case enter
  show ?case by (simp add: init_locals_def)
next
  case (iterate arg l w arg' l' w')
  from iterate.hyps(4) iterate.prems have "\<not> redirected l"
    using scan_arg_flags [OF iterate.hyps(4)] by blast
  with iterate.IH iterate.hyps(3) have "w = w0" by simp
  with iterate.hyps(3,4) iterate.prems \<open>\<not> redirected l\<close> show ?case
    by (auto simp: scan_arg_def Let_def split: if_splits prod.splits)
qed

lemma visits_redirect_origin:
  "visits args beyond w0 arg l w \<Longrightarrow> redirected l \<Longrightarrow>
     \<exists>i l0 w0'. visits args beyond w0 i l0 w0' \<and> i < length args \<and> \<not> error l0 \<and>
        \<not> redirected l0 \<and> is_redirect (args ! i)"
proof (induction rule: visits.induct)
  case enter
  then show ?case by (simp add: init_locals_def)
next
  case (iterate arg l w arg' l' w')
  show ?case
  proof (cases "redirected l")
    case True
    then show ?thesis by (rule iterate.IH)
  next
    case False
    with iterate.hyps(4) iterate.prems have "is_redirect (args ! arg)"
      by (auto simp: scan_arg_def is_redirect_def Let_def split: if_splits)
    with iterate.hyps False show ?thesis by blast
  qed
qed

lemma redirectToFile_error_message:
  assumes "redirectToFile file dest False w = (saved, True, w')"
  shows "stderr_log w' \<noteq> [] \<and> last (stderr_log w') \<noteq> DuplicateRedirect \<and>
         last (stderr_log w') \<noteq> DuplicatePipe"
proof (cases "file")
  case None
  with assms show ?thesis by (auto simp: redirectToFile_def report_def)
next
  case (Some path)
  obtain fd w1 where o: "(if dest = STDIN_FILENO then sys_open path O_RDONLY w
                          else sys_creat path (S_IRUSR OR S_IWUSR) w) = (fd, w1)"
    by (cases "if dest = STDIN_FILENO then sys_open path O_RDONLY w
                          else sys_creat path (S_IRUSR OR S_IWUSR) w") auto
  show ?thesis
  proof (cases "fd = -1")
    case True
    with assms Some o show ?thesis by (auto simp: redirectToFile_def report_def)
  next
    case False
    obtain c w2 where d: "sys_dup dest w1 = (c, w2)" by (cases "sys_dup dest w1") auto
    obtain r w3 where d2: "sys_dup2 fd dest w2 = (r, w3)" by (cases "sys_dup2 fd dest w2") auto
    from assms Some o False d d2 have "w' = snd (sys_close fd (report RedirectFailure w3))"
      by (auto simp: redirectToFile_def redirect_def Let_def split: if_splits prod.splits)
    then show ?thesis by (simp add: sys_close_log report_def)
  qed
qed

lemma redirectToFile_no_error:
  assumes "redirectToFile file dest False w = (saved, False, w')"
  shows "\<exists>path fd w1. file = Some path \<and>
           (if dest = STDIN_FILENO then sys_open path O_RDONLY w
            else sys_creat path (S_IRUSR OR S_IWUSR) w) = (fd, w1) \<and> fd \<noteq> -1 \<and> fs w' = fs w1"
proof (cases "file")
  case None
  with assms show ?thesis by (auto simp: redirectToFile_def report_def)
next
  case (Some path)
  obtain fd w1 where o: "(if dest = STDIN_FILENO then sys_open path O_RDONLY w
                          else sys_creat path (S_IRUSR OR S_IWUSR) w) = (fd, w1)"
    by (cases "if dest = STDIN_FILENO then sys_open path O_RDONLY w
                          else sys_creat path (S_IRUSR OR S_IWUSR) w") auto
  from assms Some o have fd: "fd \<noteq> -1"
    by (auto simp: redirectToFile_def Let_def split: if_splits)
  obtain c w2 where d: "sys_dup dest w1 = (c, w2)" by (cases "sys_dup dest w1") auto
  obtain r w3 where d2: "sys_dup2 fd dest w2 = (r, w3)" by (cases "sys_dup2 fd dest w2") auto
  have "fs w2 = fs w1" using d by (auto simp: sys_dup_def split: option.splits)
  moreover have "fs w3 = fs w2" using d2 by (auto simp: sys_dup2_def split: option.splits if_splits)
  moreover have "fs (snd (sys_close fd w3)) = fs w3" by (simp add: sys_close_def split: option.splits)
  moreover from assms Some o fd d d2 have "w' = snd (sys_close fd w3)"
    by (auto simp: redirectToFile_def redirect_def Let_def split: if_splits prod.splits)
  ultimately have "fs w' = fs w1" by simp
  with Some o fd show ?thesis by blast
qed

lemma scan_loop_redirected:
  "redirected l \<Longrightarrow> scan_loop args beyond a l w = (lf, wx) \<Longrightarrow> fs wx = fs w"
proof (induction args beyond a l w rule: scan_loop.induct)
  case (1 args beyond arg l w)
  show ?case
  proof (cases "arg < length args \<and> \<not> error l")
    case True
    obtain a1 l1 w1 where s: "scan_arg args beyond arg l w = (a1, l1, w1)"
      by (cases "scan_arg args beyond arg l w") auto
    with "1.prems"(1) have k: "redirected l1" "fs w1 = fs w"
      by (auto simp: scan_arg_def report_def Let_def split: if_splits)
    from "1.prems"(2) True s have "scan_loop args beyond (Suc a1) l1 w1 = (lf, wx)"
      by (simp add: scan_loop.simps [of args beyond arg l w])
    from "1.IH" [OF True s [symmetric] refl k(1) this] k(2) show ?thesis by simp
  next
    case False
    with "1.prems" show ?thesis by (auto simp: scan_loop.simps [of args beyond arg l w])
  qed
qed

lemma first_redirect_applied:
  assumes se: "structural_error args beyond w"
    and v: "visits args beyond w i l0 w0'" and i: "i < length args" "\<not> error l0" "\<not> redirected l0"
    and r: "is_redirect (args ! i)"
  shows "\<exists>path fd w1. arg_at args beyond (Suc i) = Some path \<and>
           (if first_char (args ! i) = CHR ''<'' then sys_open path O_RDONLY w
            else sys_creat path (S_IRUSR OR S_IWUSR) w) = (fd, w1) \<and> fd \<noteq> -1 \<and>
           fs (interpretArgs args beyond w) = fs w1"
proof -
  let ?dest = "if first_char (args ! i) = CHR ''<'' then STDIN_FILENO else STDOUT_FILENO"
  from visits_unredirected [OF v i(3)] i(2) have w0': "w0' = w" by simp
  obtain saved err wr where rf:
    "redirectToFile (arg_at args beyond (Suc i)) ?dest False w = (saved, err, wr)"
    by (cases "redirectToFile (arg_at args beyond (Suc i)) ?dest False w") auto
  let ?l' = "l0\<lparr>redirected := True, redirected_to := ?dest, redirected_from := saved, error := err\<rparr>"
  from r i rf w0' have s: "scan_arg args beyond i l0 w0' = (Suc i, ?l', wr)"
    by (simp add: scan_arg_def is_redirect_def Let_def)
  from visits.iterate [OF v i(1,2) s] have v': "visits args beyond w (Suc (Suc i)) ?l' wr" .
  obtain lf wx where sl: "scan_loop args beyond 0 init_locals w = (lf, wx)"
    by (cases "scan_loop args beyond 0 init_locals w") auto
  with se have e: "error lf" "stderr_log wx \<noteq> []"
    "last (stderr_log wx) = DuplicateRedirect \<or> last (stderr_log wx) = DuplicatePipe"
    by (simp_all add: structural_error_def)
  from visits_scan_loop [OF v'] sl have sl': "scan_loop args beyond (Suc (Suc i)) ?l' wr = (lf, wx)"
    by simp
  have ne: "\<not> err"
  proof
    assume err
    with sl' have "wx = wr" by (simp add: scan_loop.simps [of args beyond "Suc (Suc i)"])
    with redirectToFile_error_message [of "arg_at args beyond (Suc i)" ?dest w saved wr] rf \<open>err\<close> e
    show False by simp
  qed
  from scan_loop_redirected [OF _ sl'] have "fs wx = fs wr" by simp
  moreover from sl e have "interpretArgs args beyond w = restore lf wx"
    by (simp add: interpretArgs_def execute_error)
  ultimately have f: "fs (interpretArgs args beyond w) = fs wr"
    by (simp add: restore_frame)
  from redirectToFile_no_error [of "arg_at args beyond (Suc i)" ?dest w saved wr] rf ne
  obtain path fd w1 where "arg_at args beyond (Suc i) = Some path"
    "(if ?dest = STDIN_FILENO then sys_open path O_RDONLY w
            else sys_creat path (S_IRUSR OR S_IWUSR) w) = (fd, w1)" "fd \<noteq> -1" "fs wr = fs w1"
    by auto
  with f show ?thesis
    by (auto simp: STDIN_FILENO_def STDOUT_FILENO_def split: if_splits)
qed

lemma redirectToFile_log:
  assumes "redirectToFile file dest False w = (saved, err, w')"
  shows "if err then \<exists>m. stderr_log w' = stderr_log w @ [m] else stderr_log w' = stderr_log w"
proof (cases "file")
  case None
  with assms show ?thesis by (auto simp: redirectToFile_def report_def)
next
  case (Some path)
  obtain fd w1 where o: "(if dest = STDIN_FILENO then sys_open path O_RDONLY w
                          else sys_creat path (S_IRUSR OR S_IWUSR) w) = (fd, w1)"
    by (cases "if dest = STDIN_FILENO then sys_open path O_RDONLY w
                          else sys_creat path (S_IRUSR OR S_IWUSR) w") auto
  show ?thesis
  proof (cases "fd = -1")
    case True
    with o have "w1 = w"
      by (auto simp: sys_open_def sys_creat_def split: if_splits option.splits)
    with assms Some o True show ?thesis by (auto simp: redirectToFile_def report_def)
  next
    case False
    from o have l1: "stderr_log w1 = stderr_log w"
      by (auto simp: sys_open_def sys_creat_def split: if_splits option.splits)
    obtain c w2 where d: "sys_dup dest w1 = (c, w2)" by (cases "sys_dup dest w1") auto
    obtain r w3 where d2: "sys_dup2 fd dest w2 = (r, w3)" by (cases "sys_dup2 fd dest w2") auto
    from d have l2: "stderr_log w2 = stderr_log w1" by (auto simp: sys_dup_def split: option.splits)
    from d2 have l3: "stderr_log w3 = stderr_log w2"
      by (auto simp: sys_dup2_def split: option.splits if_splits)
    from assms Some o False d d2 have "w' = snd (sys_close fd (if err then report RedirectFailure w3 else w3))"
      by (auto simp: redirectToFile_def redirect_def Let_def split: if_splits prod.splits)
    with l1 l2 l3 show ?thesis by (simp add: sys_close_log report_def)
  qed
qed

lemma scan_arg_log:
  assumes s: "scan_arg args beyond arg l w = (arg', l', w')" and e: "\<not> error l"
  shows "if error l' then \<exists>m. stderr_log w' = stderr_log w @ [m] else stderr_log w' = stderr_log w"
proof (cases "is_redirect (args ! arg) \<and> \<not> redirected l")
  case True
  let ?dest = "if first_char (args ! arg) = CHR ''<'' then STDIN_FILENO else STDOUT_FILENO"
  obtain saved err wr where rf:
    "redirectToFile (arg_at args beyond (Suc arg)) ?dest False w = (saved, err, wr)"
    by (cases "redirectToFile (arg_at args beyond (Suc arg)) ?dest False w") auto
  with s True e have "error l' = err" "w' = wr"
    by (auto simp: scan_arg_def is_redirect_def Let_def split: if_splits)
  with redirectToFile_log [OF rf] show ?thesis by simp
next
  case False
  with s e show ?thesis
    by (auto simp: scan_arg_def is_redirect_def report_def Let_def split: if_splits)
qed

lemma visits_log:
  "visits args beyond w0 arg l w \<Longrightarrow>
     (if error l then \<exists>m. stderr_log w = stderr_log w0 @ [m] else stderr_log w = stderr_log w0)"
proof (induction rule: visits.induct)
  case enter
  show ?case by (simp add: init_locals_def)
next
  case (iterate arg l w arg' l' w')
  from iterate.IH iterate.hyps(3) have "stderr_log w = stderr_log w0" by simp
  with scan_arg_log [OF iterate.hyps(4) iterate.hyps(3)] show ?case
    by (cases "error l'") simp_all
qed

lemma pipe_after_redirect_visit:
  "visits [''ls'', ''>'', ''out.txt'', ''|'', ''wc'', ''|'', ''cat''] None w_tty
     (Suc (Suc (Suc (Suc (Suc (Suc 0))))))
     (init_locals\<lparr>exec_args := [''ls''], redirected := True, redirected_to := 1,
        redirected_from := 4, pipe := True, pipe_prog := Some ''wc'', error := True\<rparr>)
     (report DuplicatePipe
        (w_tty\<lparr>fdtab := [Some Terminal, Some (OpenFile ''out.txt'' O_WRONLY), Some Terminal, None,
                       Some Terminal],
               fs := (fs w_tty)(''out.txt'' \<mapsto> \<lparr>content = [], perms = 384\<rparr>)\<rparr>))"
proof -
  let ?args = "[''ls'', ''>'', ''out.txt'', ''|'', ''wc'', ''|'', ''cat'']"
  let ?wr = "w_tty\<lparr>fdtab := [Some Terminal, Some (OpenFile ''out.txt'' O_WRONLY), Some Terminal, None,
                       Some Terminal],
               fs := (fs w_tty)(''out.txt'' \<mapsto> \<lparr>content = [], perms = 384\<rparr>)\<rparr>"
  let ?l1 = "init_locals\<lparr>exec_args := [''ls'']\<rparr>"
  let ?l2 = "init_locals\<lparr>exec_args := [''ls''], redirected := True, redirected_to := 1,
        redirected_from := 4\<rparr>"
  let ?l3 = "init_locals\<lparr>exec_args := [''ls''], redirected := True, redirected_to := 1,
        redirected_from := 4, pipe := True, pipe_prog := Some ''wc''\<rparr>"
  have "scan_arg ?args None 0 init_locals w_tty = (0, ?l1, w_tty)"
    by (simp add: scan_arg_def first_char_def init_locals_def)
  from visits.iterate [OF visits.enter _ _ this]
  have v1: "visits ?args None w_tty (Suc 0) ?l1 w_tty"
    by (simp add: init_locals_def)
  have "scan_arg ?args None (Suc 0) ?l1 w_tty = (Suc (Suc 0), ?l2, ?wr)"
    by (simp add: scan_arg_def first_char_def arg_at_def init_locals_def redirectToFile_example)
       (simp add: STDOUT_FILENO_def)
  from visits.iterate [OF v1 _ _ this]
  have v3: "visits ?args None w_tty (Suc (Suc (Suc 0))) ?l2 ?wr"
    by (simp add: init_locals_def)
  have "scan_arg ?args None (Suc (Suc (Suc 0))) ?l2 ?wr = (Suc (Suc (Suc (Suc 0))), ?l3, ?wr)"
    by (simp add: scan_arg_def first_char_def arg_at_def init_locals_def)
  from visits.iterate [OF v3 _ _ this]
  have v5: "visits ?args None w_tty (Suc (Suc (Suc (Suc (Suc 0))))) ?l3 ?wr"
    by (simp add: init_locals_def)
  have "scan_arg ?args None (Suc (Suc (Suc (Suc (Suc 0))))) ?l3 ?wr =
      (Suc (Suc (Suc (Suc (Suc 0)))), ?l3\<lparr>error := True\<rparr>, report DuplicatePipe ?wr)"
    by (simp add: scan_arg_def first_char_def init_locals_def)
  from visits.iterate [OF v5 _ _ this] show ?thesis
    by (simp add: init_locals_def)
qed

text \<open>
  Claim C2, as the code has it. \<open>interpretArgs\<close> applies a redirect while it scans:
  \<open>redirectToFile\<close> is called in the loop, before the rest of the line is looked at.
  When the scan stops at \<open>DuplicateRedirect\<close> or \<open>DuplicatePipe\<close>, no process has been
  forked and that one message has been printed. If no redirect was scanned before the
  error, nothing else has changed. Otherwise the first argument starting with \<open><\<close> or
  \<open>>\<close> that the scan was at has been applied: for \<open>>\<close>, the file named by the next
  argument has been created with the permissions \<open>S_IRUSR | S_IWUSR\<close>, or emptied if
  it existed, and all other files are as before; for \<open><\<close>, the file named by the next
  argument was opened and the files are as before. The descriptor table is as before
  the command when standard input and output were open and two more descriptors could
  be opened.
\<close>

theorem structural_error_effects:
  assumes "structural_error args beyond w"
  shows "children (interpretArgs args beyond w) = children w \<and>
     nproc (interpretArgs args beyond w) = nproc w \<and>
     (stderr_log (interpretArgs args beyond w) = stderr_log w @ [DuplicateRedirect] \<or>
      stderr_log (interpretArgs args beyond w) = stderr_log w @ [DuplicatePipe]) \<and>
     (\<not> redirected (fst (scan_loop args beyond 0 init_locals w)) \<longrightarrow>
        interpretArgs args beyond w = report DuplicatePipe w) \<and>
     (redirected (fst (scan_loop args beyond 0 init_locals w)) \<longrightarrow>
        (\<exists>i l0 w0'. visits args beyond w i l0 w0' \<and> i < length args \<and> \<not> error l0 \<and>
           \<not> redirected l0 \<and> is_redirect (args ! i))) \<and>
     (visits args beyond w i l0 w0' \<and> i < length args \<and> \<not> error l0 \<and> \<not> redirected l0 \<and>
      first_char (args ! i) = CHR ''>'' \<longrightarrow>
        (\<exists>path. arg_at args beyond (Suc i) = Some path \<and>
           fs (interpretArgs args beyond w) =
             (fs w)(path \<mapsto> \<lparr>content = [],
                perms = (case fs w path of None \<Rightarrow> S_IRUSR OR S_IWUSR | Some f0 \<Rightarrow> perms f0)\<rparr>))) \<and>
     (visits args beyond w i l0 w0' \<and> i < length args \<and> \<not> error l0 \<and> \<not> redirected l0 \<and>
      first_char (args ! i) = CHR ''<'' \<longrightarrow>
        (\<exists>path. arg_at args beyond (Suc i) = Some path \<and> fst (sys_open path O_RDONLY w) \<noteq> -1) \<and>
        fs (interpretArgs args beyond w) = fs w) \<and>
     (fd_target w STDIN_FILENO \<noteq> None \<and> fd_target w STDOUT_FILENO \<noteq> None \<and>
      2 \<le> free_slots w \<longrightarrow>
        fdtab (interpretArgs args beyond w) = fdtab w)"
proof -
  obtain lf wx where sl: "scan_loop args beyond 0 init_locals w = (lf, wx)"
    by (cases "scan_loop args beyond 0 init_locals w") auto
  with assms have e: "error lf"
    and m: "last (stderr_log wx) = DuplicateRedirect \<or> last (stderr_log wx) = DuplicatePipe"
    by (simp_all add: structural_error_def)
  from scan_loop_final [OF sl] obtain a where v: "visits args beyond w a lf wx" by blast
  from sl e have r: "interpretArgs args beyond w = restore lf wx"
    by (simp add: interpretArgs_def execute_error)
  have spawn: "children (interpretArgs args beyond w) = children w"
    "nproc (interpretArgs args beyond w) = nproc w"
    using visits_children [OF v] r by (simp_all add: restore_frame)
  from visits_log [OF v] e obtain msg where "stderr_log wx = stderr_log w @ [msg]" by auto
  with m r have log: "stderr_log (interpretArgs args beyond w) = stderr_log w @ [DuplicateRedirect] \<or>
      stderr_log (interpretArgs args beyond w) = stderr_log w @ [DuplicatePipe]"
    by (auto simp: restore_frame)
  have none: "interpretArgs args beyond w = report DuplicatePipe w"
    if "\<not> redirected (fst (scan_loop args beyond 0 init_locals w))"
    using that sl visits_unredirected [OF v] e r by (simp add: restore_not_redirected)
  have origin: "\<exists>i l0 w0'. visits args beyond w i l0 w0' \<and> i < length args \<and> \<not> error l0 \<and>
           \<not> redirected l0 \<and> is_redirect (args ! i)"
    if "redirected (fst (scan_loop args beyond 0 init_locals w))"
    using that sl visits_redirect_origin [OF v] by simp
  have out: "\<exists>path. arg_at args beyond (Suc i) = Some path \<and>
           fs (interpretArgs args beyond w) =
             (fs w)(path \<mapsto> \<lparr>content = [],
                perms = (case fs w path of None \<Rightarrow> S_IRUSR OR S_IWUSR | Some f0 \<Rightarrow> perms f0)\<rparr>)"
    if h: "visits args beyond w i l0 w0' \<and> i < length args \<and> \<not> error l0 \<and> \<not> redirected l0 \<and>
      first_char (args ! i) = CHR ''>''"
  proof -
    from h have "is_redirect (args ! i)" by (simp add: is_redirect_def)
    with first_redirect_applied [OF assms, of i l0 w0'] h
    obtain path fd w1 where p: "arg_at args beyond (Suc i) = Some path"
      and c: "sys_creat path (S_IRUSR OR S_IWUSR) w = (fd, w1)" "fd \<noteq> -1"
      and f: "fs (interpretArgs args beyond w) = fs w1"
      by auto
    from sys_creat_ok [OF c] obtain d where "fs w1 = (fs w)(path \<mapsto> d)" "content d = []"
      "perms d = (case fs w path of None \<Rightarrow> S_IRUSR OR S_IWUSR | Some f0 \<Rightarrow> perms f0)"
      by auto
    moreover from this(2,3) have "d = \<lparr>content = [],
        perms = (case fs w path of None \<Rightarrow> S_IRUSR OR S_IWUSR | Some f0 \<Rightarrow> perms f0)\<rparr>"
      by (cases d) simp
    ultimately show ?thesis using p f by simp
  qed
  have inp: "(\<exists>path. arg_at args beyond (Suc i) = Some path \<and> fst (sys_open path O_RDONLY w) \<noteq> -1) \<and>
        fs (interpretArgs args beyond w) = fs w"
    if h: "visits args beyond w i l0 w0' \<and> i < length args \<and> \<not> error l0 \<and> \<not> redirected l0 \<and>
      first_char (args ! i) = CHR ''<''"
  proof -
    from h have "is_redirect (args ! i)" by (simp add: is_redirect_def)
    with first_redirect_applied [OF assms, of i l0 w0'] h
    obtain path fd w1 where p: "arg_at args beyond (Suc i) = Some path"
      and c: "sys_open path O_RDONLY w = (fd, w1)" "fd \<noteq> -1"
      and f: "fs (interpretArgs args beyond w) = fs w1"
      by auto
    from sys_open_ok [OF c] have "fs w1 = fs w" by auto
    with p c f show ?thesis by simp
  qed
  have desc: "fdtab (interpretArgs args beyond w) = fdtab w"
    if "fd_target w STDIN_FILENO \<noteq> None \<and> fd_target w STDOUT_FILENO \<noteq> None \<and> 2 \<le> free_slots w"
    using that visits_restore [OF _ _ _ v] r by simp
  from spawn log none origin out inp desc show ?thesis by blast
qed

theorem structural_error_effects_witness:
  "structural_error [''ls'', ''>'', ''out.txt'', ''|'', ''wc'', ''|'', ''cat''] None w_tty \<and>
   visits [''ls'', ''>'', ''out.txt'', ''|'', ''wc'', ''|'', ''cat''] None w_tty (Suc 0)
     (init_locals\<lparr>exec_args := [''ls'']\<rparr>) w_tty \<and>
   fs w_tty ''out.txt'' = None \<and>
   children (interpretArgs [''ls'', ''>'', ''out.txt'', ''|'', ''wc'', ''|'', ''cat''] None w_tty) = [] \<and>
   stderr_log (interpretArgs [''ls'', ''>'', ''out.txt'', ''|'', ''wc'', ''|'', ''cat''] None w_tty) =
     [DuplicatePipe] \<and>
   fs (interpretArgs [''ls'', ''>'', ''out.txt'', ''|'', ''wc'', ''|'', ''cat''] None w_tty) =
     (fs w_tty)(''out.txt'' \<mapsto> \<lparr>content = [], perms = 384\<rparr>) \<and>
   fdtab (interpretArgs [''ls'', ''>'', ''out.txt'', ''|'', ''wc'', ''|'', ''cat''] None w_tty) =
     [Some Terminal, Some Terminal, Some Terminal, None, None]"
proof -
  let ?args = "[''ls'', ''>'', ''out.txt'', ''|'', ''wc'', ''|'', ''cat'']"
  let ?wr = "w_tty\<lparr>fdtab := [Some Terminal, Some (OpenFile ''out.txt'' O_WRONLY), Some Terminal, None,
                       Some Terminal],
               fs := (fs w_tty)(''out.txt'' \<mapsto> \<lparr>content = [], perms = 384\<rparr>)\<rparr>"
  let ?l1 = "init_locals\<lparr>exec_args := [''ls'']\<rparr>"
  let ?lf = "init_locals\<lparr>exec_args := [''ls''], redirected := True, redirected_to := 1,
        redirected_from := 4, pipe := True, pipe_prog := Some ''wc'', error := True\<rparr>"
  have sl: "scan_loop ?args None 0 init_locals w_tty = (?lf, report DuplicatePipe ?wr)"
    by (rule scan_loop_stopped [OF pipe_after_redirect_visit]) simp
  then have se: "structural_error ?args None w_tty"
    by (simp add: structural_error_def report_def)
  have "scan_arg ?args None 0 init_locals w_tty = (0, ?l1, w_tty)"
    by (simp add: scan_arg_def first_char_def init_locals_def)
  from visits.iterate [OF visits.enter _ _ this]
  have v1: "visits ?args None w_tty (Suc 0) ?l1 w_tty"
    by (simp add: init_locals_def)
  note t = structural_error_effects [OF se, of "Suc 0" ?l1 w_tty]
  have n: "fs w_tty ''out.txt'' = None"
    by (simp add: w_tty_def)
  from t have c: "children (interpretArgs ?args None w_tty) = children w_tty"
    by (rule conjunct1)
  have h: "Suc 0 < length ?args \<and> \<not> error ?l1 \<and> \<not> redirected ?l1 \<and>
      first_char (?args ! Suc 0) = CHR ''>''"
    by (simp add: init_locals_def first_char_def)
  with v1 have "visits ?args None w_tty (Suc 0) ?l1 w_tty \<and> Suc 0 < length ?args \<and> \<not> error ?l1 \<and>
      \<not> redirected ?l1 \<and> first_char (?args ! Suc 0) = CHR ''>''"
    by (rule conjI)
  with t [THEN conjunct2, THEN conjunct2, THEN conjunct2, THEN conjunct2, THEN conjunct2,
      THEN conjunct1]
  have "\<exists>path. arg_at ?args None (Suc (Suc 0)) = Some path \<and>
           fs (interpretArgs ?args None w_tty) =
             (fs w_tty)(path \<mapsto> \<lparr>content = [],
                perms = (case fs w_tty path of None \<Rightarrow> S_IRUSR OR S_IWUSR | Some f0 \<Rightarrow> perms f0)\<rparr>)"
    by (rule mp)
  then have f: "fs (interpretArgs ?args None w_tty) =
      (fs w_tty)(''out.txt'' \<mapsto> \<lparr>content = [], perms = 384\<rparr>)"
    using n by (auto simp: arg_at_def S_IRUSR_def S_IWUSR_def)
  have "fd_target w_tty STDIN_FILENO \<noteq> None \<and> fd_target w_tty STDOUT_FILENO \<noteq> None \<and>
      2 \<le> free_slots w_tty"
    by (simp add: w_tty_def fd_target_def STDIN_FILENO_def STDOUT_FILENO_def free_slots_def)
  with t [THEN conjunct2, THEN conjunct2, THEN conjunct2, THEN conjunct2, THEN conjunct2,
      THEN conjunct2, THEN conjunct2]
  have "fdtab (interpretArgs ?args None w_tty) = fdtab w_tty"
    by (rule mp)
  then have d: "fdtab (interpretArgs ?args None w_tty) =
      [Some Terminal, Some Terminal, Some Terminal, None, None]"
    by (simp add: w_tty_def)
  from sl have "stderr_log (interpretArgs ?args None w_tty) =
      stderr_log (restore ?lf (report DuplicatePipe ?wr))"
    by (simp add: interpretArgs_def execute_error init_locals_def)
  then have g: "stderr_log (interpretArgs ?args None w_tty) = [DuplicatePipe]"
    by (simp add: restore_frame report_def w_tty_def)
  from c have c': "children (interpretArgs ?args None w_tty) = []"
    by (simp add: w_tty_def)
  show ?thesis
    by (intro conjI se v1 n c' g f d)
qed

text \<open>
  The claim as stated, that nothing of the arguments seen so far has been applied,
  fails on \<open>a > in.txt > f2\<close>: the scan stops at the second \<open>>\<close> with
  \<open>DuplicateRedirect\<close> and nothing is forked, but \<open>in.txt\<close>, which held \<open>data\<close>, is
  empty afterwards.
\<close>

theorem partial_plan_counterexample:
  "structural_error [''a'', ''>'', ''in.txt'', ''>'', ''f2''] None w_tty \<and>
   children (interpretArgs [''a'', ''>'', ''in.txt'', ''>'', ''f2''] None w_tty) = [] \<and>
   fs w_tty ''in.txt'' = Some \<lparr>content = ''data'', perms = 420\<rparr> \<and>
   fs (interpretArgs [''a'', ''>'', ''in.txt'', ''>'', ''f2''] None w_tty) ''in.txt'' =
     Some \<lparr>content = [], perms = 420\<rparr>"
proof -
  have "scan_loop [''a'', ''>'', ''in.txt'', ''>'', ''f2''] None 0 init_locals w_tty =
      (init_locals\<lparr>exec_args := [''a''], redirected := True, redirected_to := 1,
        redirected_from := 4, error := True\<rparr>, report DuplicateRedirect w_truncated)"
    by (rule scan_loop_stopped [OF second_output_redirect_visit]) simp
  then have "structural_error [''a'', ''>'', ''in.txt'', ''>'', ''f2''] None w_tty"
    by (simp add: structural_error_def report_def)
  then show ?thesis
    by (simp add: second_output_redirect_result) (simp add: w_tty_def)
qed

subsection \<open>Restoring the redirected descriptor\<close>

lemma unsaved_redirect_visit:
  "visits [''echo'', ''hi'', ''>'', ''out.txt''] None w_last_slot (Suc (Suc (Suc (Suc 0))))
     (init_locals\<lparr>exec_args := [''echo'', ''hi''], redirected := True, redirected_to := 1,
        redirected_from := -1\<rparr>) w_stuck"
proof -
  let ?args = "[''echo'', ''hi'', ''>'', ''out.txt'']"
  let ?l1 = "init_locals\<lparr>exec_args := [''echo'']\<rparr>"
  let ?l2 = "init_locals\<lparr>exec_args := [''echo'', ''hi'']\<rparr>"
  let ?l3 = "init_locals\<lparr>exec_args := [''echo'', ''hi''], redirected := True, redirected_to := 1,
        redirected_from := -1\<rparr>"
  have "scan_arg ?args None 0 init_locals w_last_slot = (0, ?l1, w_last_slot)"
    by (simp add: scan_arg_def first_char_def init_locals_def Let_def)
  from visits.iterate [OF visits.enter _ _ this]
  have v1: "visits ?args None w_last_slot (Suc 0) ?l1 w_last_slot"
    by (simp add: init_locals_def)
  have "scan_arg ?args None (Suc 0) ?l1 w_last_slot = (Suc 0, ?l2, w_last_slot)"
    by (simp add: scan_arg_def first_char_def init_locals_def Let_def)
  from visits.iterate [OF v1 _ _ this]
  have v2: "visits ?args None w_last_slot (Suc (Suc 0)) ?l2 w_last_slot"
    by (simp add: init_locals_def)
  have r: "redirectToFile (Some ''out.txt'') STDOUT_FILENO False w_last_slot = (-1, False, w_stuck)"
    by (simp add: redirectToFile_def redirect_def w_last_slot_def w_stuck_def os_defs Let_def)
  have "scan_arg ?args None (Suc (Suc 0)) ?l2 w_last_slot = (Suc (Suc (Suc 0)), ?l3, w_stuck)"
    by (simp add: scan_arg_def first_char_def arg_at_def init_locals_def r)
       (simp add: STDOUT_FILENO_def)
  from visits.iterate [OF v2 _ _ this] show ?thesis
    by (simp add: init_locals_def)
qed

text \<open>
  Claim C3 says that after every command the standard input and output of the
  interpreter refer to what they referred to before. \<open>redirect\<close> does not check the
  result of \<open>dup\<close>: with one free descriptor left, \<open>creat\<close> takes it, \<open>dup\<close> fails,
  \<open>dup2\<close> still points standard output at the file, no error is flagged, and the
  restoring \<open>dup2(-1, 1)\<close> at the end of \<open>interpretArgs\<close> fails. After
  \<open>echo hi > out.txt\<close> standard output is still the file, and nothing was printed.
\<close>

theorem stdout_left_redirected:
  "fd_target w_last_slot STDOUT_FILENO = Some Terminal \<and>
   interpretArgs [''echo'', ''hi'', ''>'', ''out.txt''] None w_last_slot =
     w_stuck\<lparr>children := [\<lparr>job_of = RunSimple [''echo'', ''hi''], inherited = fdtab w_stuck,
                            reaped = True\<rparr>]\<rparr> \<and>
   fd_target (interpretArgs [''echo'', ''hi'', ''>'', ''out.txt''] None w_last_slot) STDOUT_FILENO =
     Some (OpenFile ''out.txt'' O_WRONLY)"
proof -
  let ?args = "[''echo'', ''hi'', ''>'', ''out.txt'']"
  let ?l = "init_locals\<lparr>exec_args := [''echo'', ''hi''], redirected := True, redirected_to := 1,
        redirected_from := -1\<rparr>"
  have "scan_loop ?args None 0 init_locals w_last_slot = (?l, w_stuck)"
    by (rule scan_loop_ended [OF unsaved_redirect_visit]) simp
  then have "interpretArgs ?args None w_last_slot = restore ?l (execute ?l w_stuck)"
    by (simp add: interpretArgs_def)
  also have "\<dots> = w_stuck\<lparr>children := [\<lparr>job_of = RunSimple [''echo'', ''hi''],
      inherited = fdtab w_stuck, reaped = True\<rparr>]\<rparr>"
    by (simp add: restore_def execute_def forkInto_def init_locals_def w_stuck_def os_defs Let_def)
  finally have i: "interpretArgs ?args None w_last_slot =
      w_stuck\<lparr>children := [\<lparr>job_of = RunSimple [''echo'', ''hi''], inherited = fdtab w_stuck,
                            reaped = True\<rparr>]\<rparr>" .
  show ?thesis
    by (simp add: i) (simp add: w_last_slot_def w_stuck_def fd_target_def STDOUT_FILENO_def)
qed

subsection \<open>strtok on a buffer\<close>

lemma byte_at_append: "byte_at (pre @ xs) (length pre) = (case xs of [] \<Rightarrow> NUL | c # cs \<Rightarrow> c)"
  by (cases xs) (simp_all add: byte_at_def nth_append)

lemma takeWhile_spaces:
  assumes "set sps \<subseteq> {CHR '' ''}" "xs = [] \<or> hd xs \<noteq> CHR '' ''"
  shows "takeWhile (\<lambda>c. c = CHR '' '') (sps @ xs) = sps"
proof -
  from assms(1) have "takeWhile (\<lambda>c. c = CHR '' '') (sps @ xs) = sps @ takeWhile (\<lambda>c. c = CHR '' '') xs"
    by (intro takeWhile_append2) auto
  with assms(2) show ?thesis by (cases xs) auto
qed

lemma takeWhile_token:
  assumes "CHR '' '' \<notin> set tok" "NUL \<notin> set tok" "xs = [] \<or> hd xs = CHR '' '' \<or> hd xs = NUL"
  shows "takeWhile (\<lambda>c. c \<noteq> CHR '' '' \<and> c \<noteq> NUL) (tok @ xs) = tok"
proof -
  from assms(1,2)
  have "takeWhile (\<lambda>c. c \<noteq> CHR '' '' \<and> c \<noteq> NUL) (tok @ xs) =
      tok @ takeWhile (\<lambda>c. c \<noteq> CHR '' '' \<and> c \<noteq> NUL) xs"
    by (intro takeWhile_append2) auto
  with assms(3) show ?thesis by (cases xs) auto
qed

lemma strtok_none:
  assumes "set sps \<subseteq> {CHR '' ''}" "zs = [] \<or> hd zs = NUL"
  shows "strtok (pre @ sps @ zs) (length pre) = (None, pre @ sps @ zs, length pre + length sps)"
proof -
  from assms have "takeWhile (\<lambda>c. c = CHR '' '') (sps @ zs) = sps"
    by (intro takeWhile_spaces) (auto simp: NUL_def)
  moreover from assms(2) have "byte_at ((pre @ sps) @ zs) (length (pre @ sps)) = NUL"
    unfolding byte_at_append by (cases zs) auto
  ultimately show ?thesis by (simp add: strtok_def)
qed

lemma strtok_last:
  assumes "set sps \<subseteq> {CHR '' ''}" "tok \<noteq> []" "CHR '' '' \<notin> set tok" "NUL \<notin> set tok"
    "zs = [] \<or> hd zs = NUL"
  shows "strtok (pre @ sps @ tok @ zs) (length pre) =
           (Some (length pre + length sps), pre @ sps @ tok @ zs,
            length pre + length sps + length tok)"
proof -
  from assms have "hd (tok @ zs) \<noteq> CHR '' ''"
    by (cases tok) auto
  with assms have a: "takeWhile (\<lambda>c. c = CHR '' '') (sps @ tok @ zs) = sps"
    by (intro takeWhile_spaces) auto
  from assms have b: "byte_at ((pre @ sps) @ tok @ zs) (length (pre @ sps)) \<noteq> NUL"
    unfolding byte_at_append by (cases tok) auto
  from assms have c: "takeWhile (\<lambda>c. c \<noteq> CHR '' '' \<and> c \<noteq> NUL) (tok @ zs) = tok"
    by (intro takeWhile_token) auto
  from assms(5) have d: "byte_at ((pre @ sps @ tok) @ zs) (length (pre @ sps @ tok)) = NUL"
    unfolding byte_at_append by (cases zs) auto
  from a b c d show ?thesis by (simp add: strtok_def Let_def add.assoc)
qed

lemma strtok_delimited:
  assumes "set sps \<subseteq> {CHR '' ''}" "tok \<noteq> []" "CHR '' '' \<notin> set tok" "NUL \<notin> set tok"
  shows "strtok (pre @ sps @ tok @ CHR '' '' # rest) (length pre) =
           (Some (length pre + length sps), pre @ sps @ tok @ NUL # rest,
            Suc (length pre + length sps + length tok))"
proof -
  from assms have "hd (tok @ CHR '' '' # rest) \<noteq> CHR '' ''"
    by (cases tok) auto
  with assms have a: "takeWhile (\<lambda>c. c = CHR '' '') (sps @ tok @ CHR '' '' # rest) = sps"
    by (intro takeWhile_spaces) auto
  from assms have b: "byte_at ((pre @ sps) @ tok @ CHR '' '' # rest) (length (pre @ sps)) \<noteq> NUL"
    unfolding byte_at_append by (cases tok) auto
  from assms have c: "takeWhile (\<lambda>c. c \<noteq> CHR '' '' \<and> c \<noteq> NUL) (tok @ CHR '' '' # rest) = tok"
    by (intro takeWhile_token) auto
  have d: "byte_at ((pre @ sps @ tok) @ CHR '' '' # rest) (length (pre @ sps @ tok)) \<noteq> NUL"
    unfolding byte_at_append by (simp add: NUL_def)
  have e: "(pre @ sps @ tok @ CHR '' '' # rest)[length pre + length sps + length tok := NUL] =
      pre @ sps @ tok @ NUL # rest"
    using list_update_length [of "pre @ sps @ tok" "CHR '' ''" rest NUL] by (simp add: add.assoc)
  from a b c d e show ?thesis by (simp add: strtok_def Let_def add.assoc)
qed

subsection \<open>The tokens of the specification\<close>

lemma spec_tokens_spaces:
  "set sps \<subseteq> {CHR '' ''} \<Longrightarrow> spec_tokens [] (sps @ xs) = spec_tokens [] xs"
  by (induction sps) auto

lemma spec_tokens_token:
  "CHR '' '' \<notin> set tok \<Longrightarrow> spec_tokens cur (tok @ xs) = spec_tokens (cur @ tok) xs"
  by (induction tok arbitrary: cur) auto

lemma spec_tokens_last:
  assumes "set sps \<subseteq> {CHR '' ''}" "tok \<noteq> []" "CHR '' '' \<notin> set tok"
  shows "spec_tokens [] (sps @ tok) = [tok]"
  using assms spec_tokens_token [of tok "[]" "[]"] by (simp add: spec_tokens_spaces)

lemma spec_tokens_delimited:
  assumes "set sps \<subseteq> {CHR '' ''}" "tok \<noteq> []" "CHR '' '' \<notin> set tok"
  shows "spec_tokens [] (sps @ tok @ CHR '' '' # rest) = tok # spec_tokens [] rest"
  using assms spec_tokens_token [of tok "[]" "CHR '' '' # rest"] by (simp add: spec_tokens_spaces)

lemma spec_tokens_blank: "set sps \<subseteq> {CHR '' ''} \<Longrightarrow> spec_tokens [] sps = []"
  using spec_tokens_spaces [of sps "[]"] by simp

text \<open>A line is blank, or ends in a token, or has a token followed by a space.\<close>

lemma line_cases:
  obtains (blank) "set r \<subseteq> {CHR '' ''}"
  | (last) sps tok where "r = sps @ tok" "set sps \<subseteq> {CHR '' ''}" "tok \<noteq> []"
      "CHR '' '' \<notin> set tok"
  | (delimited) sps tok rest where "r = sps @ tok @ CHR '' '' # rest" "set sps \<subseteq> {CHR '' ''}"
      "tok \<noteq> []" "CHR '' '' \<notin> set tok"
proof -
  define sps where "sps = takeWhile (\<lambda>c. c = CHR '' '') r"
  define t where "t = dropWhile (\<lambda>c. c = CHR '' '') r"
  define tok where "tok = takeWhile (\<lambda>c. c \<noteq> CHR '' '') t"
  define rest where "rest = dropWhile (\<lambda>c. c \<noteq> CHR '' '') t"
  have sps: "set sps \<subseteq> {CHR '' ''}"
    unfolding sps_def by (auto dest: set_takeWhileD)
  have r: "r = sps @ t"
    unfolding sps_def t_def by simp
  have t: "t = tok @ rest"
    unfolding tok_def rest_def by simp
  have tok: "CHR '' '' \<notin> set tok"
    unfolding tok_def by (auto dest: set_takeWhileD)
  show ?thesis
  proof (cases t)
    case Nil
    with r sps have "set r \<subseteq> {CHR '' ''}" by simp
    then show ?thesis by (rule blank)
  next
    case (Cons c cs)
    then have "c \<noteq> CHR '' ''"
      using hd_dropWhile [of "\<lambda>c. c = CHR '' ''" r] unfolding t_def by auto
    with Cons have ne: "tok \<noteq> []"
      unfolding tok_def by simp
    show ?thesis
    proof (cases rest)
      case Nil
      with r t have "r = sps @ tok" by simp
      then show ?thesis using sps ne tok by (rule last)
    next
      case (Cons d ds)
      then have "d = CHR '' ''"
        using hd_dropWhile [of "\<lambda>c. c \<noteq> CHR '' ''" t] unfolding rest_def by auto
      with Cons r t have "r = sps @ tok @ CHR '' '' # ds" by simp
      then show ?thesis using sps ne tok by (rule delimited)
    qed
  qed
qed

lemma cstring_at_token:
  assumes "NUL \<notin> set tok" "zs = [] \<or> hd zs = NUL"
  shows "cstring_at (pre @ tok @ zs) (length pre) = tok"
proof -
  from assms(1) have "takeWhile (\<lambda>c. c \<noteq> NUL) (tok @ zs) = tok @ takeWhile (\<lambda>c. c \<noteq> NUL) zs"
    by (intro takeWhile_append2) auto
  with assms(2) show ?thesis by (cases zs) (auto simp: cstring_at_def)
qed

subsection \<open>The loop of splitArgs\<close>

lemma split_loop_None: "split_loop (None, buf, p) args count = (count, args, buf, False)"
  by (simp add: split_loop.simps)

lemma split_loop_Some:
  "count < MAX_ARG - 1 \<Longrightarrow>
     split_loop (Some token, buf, p) args count =
       split_loop (strtok buf p) (args[count := Some token]) (Suc count)"
  by (simp add: split_loop.simps)

lemma take_smaller: "take (Suc n) xs = take (Suc n) ys \<Longrightarrow> take n xs = take n ys"
  by (metis take_take min.absorb1 le_SucI order_refl)

lemma split_loop_tokens:
  assumes "NUL \<notin> set r" "zs = [] \<or> hd zs = NUL"
    "count + length (spec_tokens [] r) < MAX_ARG" "length args = MAX_ARG"
  shows "\<exists>args' suffix.
      split_loop (strtok (pre @ r @ zs) (length pre)) args count =
        (count + length (spec_tokens [] r), args', pre @ suffix, False) \<and>
      length args' = length args \<and> take count args' = take count args \<and>
      (\<forall>k < length (spec_tokens [] r). \<exists>off. args' ! (count + k) = Some off \<and>
          cstring_at (pre @ suffix) off = spec_tokens [] r ! k)"
  using assms
proof (induction "length r" arbitrary: r pre args count rule: less_induct)
  case less
  show ?case
  proof (cases r rule: line_cases)
    case blank
    then have "spec_tokens [] r = []" by (rule spec_tokens_blank)
    moreover from blank less.prems(2)
    have "strtok (pre @ r @ zs) (length pre) = (None, pre @ r @ zs, length pre + length r)"
      by (rule strtok_none)
    ultimately show ?thesis by (simp add: split_loop_None)
  next
    case (last sps tok)
    from last less.prems(1) have nul: "NUL \<notin> set tok" by simp
    from last have toks: "spec_tokens [] r = [tok]" by (simp add: spec_tokens_last)
    with less.prems(3) have c: "count < MAX_ARG - 1" by simp
    let ?buf = "pre @ sps @ tok @ zs"
    let ?s = "length pre + length sps"
    from last nul less.prems(2)
    have "strtok ?buf (length pre) = (Some ?s, ?buf, ?s + length tok)"
      by (intro strtok_last)
    moreover from less.prems(2)
    have "strtok ((pre @ sps @ tok) @ [] @ zs) (length (pre @ sps @ tok)) =
        (None, (pre @ sps @ tok) @ [] @ zs, length (pre @ sps @ tok) + length ([]::string))"
      by (intro strtok_none) auto
    ultimately have "split_loop (strtok ?buf (length pre)) args count =
        (Suc count, args[count := Some ?s], ?buf, False)"
      using c by (simp add: split_loop_Some split_loop_None add.assoc)
    moreover from nul less.prems(2)
    have "cstring_at ((pre @ sps) @ tok @ zs) (length (pre @ sps)) = tok"
      by (rule cstring_at_token)
    moreover from c less.prems(4) have "args[count := Some ?s] ! count = Some ?s"
      by simp
    ultimately show ?thesis using last(1) toks
      by (intro exI [of _ "args[count := Some ?s]"] exI [of _ "sps @ tok @ zs"]) simp
  next
    case (delimited sps tok rest)
    from delimited less.prems(1) have nul: "NUL \<notin> set tok" "NUL \<notin> set rest" by simp_all
    from delimited have toks: "spec_tokens [] r = tok # spec_tokens [] rest"
      by (simp add: spec_tokens_delimited)
    with less.prems(3) have c: "count < MAX_ARG - 1"
      and c': "Suc count + length (spec_tokens [] rest) < MAX_ARG" by simp_all
    let ?s = "length pre + length sps"
    let ?pre' = "pre @ sps @ tok @ [NUL]"
    let ?args1 = "args[count := Some ?s]"
    from delimited nul
    have "strtok (pre @ sps @ tok @ CHR '' '' # rest @ zs) (length pre) =
        (Some ?s, pre @ sps @ tok @ NUL # rest @ zs, Suc (?s + length tok))"
      by (intro strtok_delimited)
    with c delimited(1)
    have sl: "split_loop (strtok (pre @ r @ zs) (length pre)) args count =
        split_loop (strtok (?pre' @ rest @ zs) (length ?pre')) ?args1 (Suc count)"
      by (simp add: split_loop_Some add.assoc)
    from delimited(1) have "length rest < length r" by simp
    from less.hyps [OF this nul(2) less.prems(2) c', of ?args1 ?pre'] less.prems(4)
    obtain args' suffix where ih:
      "split_loop (strtok (?pre' @ rest @ zs) (length ?pre')) ?args1 (Suc count) =
        (Suc count + length (spec_tokens [] rest), args', ?pre' @ suffix, False)"
      "length args' = length args" "take (Suc count) args' = take (Suc count) ?args1"
      "\<forall>k < length (spec_tokens [] rest). \<exists>off. args' ! (Suc count + k) = Some off \<and>
          cstring_at (?pre' @ suffix) off = spec_tokens [] rest ! k"
      by auto
    from ih(3) have "take count args' = take count ?args1" by (rule take_smaller)
    then have tk: "take count args' = take count args" by simp
    from ih(3) have "args' ! count = take (Suc count) ?args1 ! count"
      by (metis lessI nth_take)
    with c less.prems(4) have first: "args' ! count = Some ?s" by simp
    have str: "cstring_at ((pre @ sps) @ tok @ NUL # suffix) (length (pre @ sps)) = tok"
      using nul(1) by (intro cstring_at_token) auto
    have all: "\<exists>off. args' ! (count + k) = Some off \<and>
          cstring_at (pre @ sps @ tok @ NUL # suffix) off = (tok # spec_tokens [] rest) ! k"
      if "k < Suc (length (spec_tokens [] rest))" for k
    proof (cases k)
      case 0
      with first str show ?thesis by simp
    next
      case (Suc k')
      with that ih(4) show ?thesis by simp
    qed
    from sl ih(1,2) tk all toks show ?thesis
      by (intro exI [of _ args'] exI [of _ "sps @ tok @ NUL # suffix"]) simp
  qed
qed

lemma cstring_no_NUL: "NUL \<notin> set (cstring_at buf i)"
  by (auto simp: cstring_at_def dest: set_takeWhileD)

lemma line_example: "cstring_at (deref mem_example LineBuf) 0 = ''ls -l''"
  by (simp add: mem_example_def deref_def cstring_at_def NUL_def)

lemma spec_split_example: "spec_split ''ls -l'' = ([''ls'', ''-l''], 2)"
  by (simp add: spec_split_def)

lemma splitArgs_pointers:
  assumes len: "length (args_ptrs m) = MAX_ARG"
    and few: "length (spec_tokens [] (cstring_at (deref m line_src) 0)) \<le> 39"
  shows "\<exists>args' cpy'. splitArgs line_src m =
            (length (spec_tokens [] (cstring_at (deref m line_src) 0)), [],
             m\<lparr>args_ptrs := args', line_cpy := cpy'\<rparr>) \<and>
          length args' = MAX_ARG \<and>
          (\<forall>k < length (spec_tokens [] (cstring_at (deref m line_src) 0)).
             \<exists>off. args' ! k = Some off \<and>
               cstring_at cpy' off = spec_tokens [] (cstring_at (deref m line_src) 0) ! k)"
proof -
  define line where "line = cstring_at (deref m line_src) 0"
  define zs where "zs = NUL # drop (Suc (length line)) (line_cpy m)"
  have cpy: "strcpy (line_cpy m) (deref m line_src) = [] @ line @ zs"
    by (simp add: strcpy_def line_def zs_def Let_def)
  have "NUL \<notin> set line" unfolding line_def by (rule cstring_no_NUL)
  moreover have "zs = [] \<or> hd zs = NUL" by (simp add: zs_def)
  moreover from few have "0 + length (spec_tokens [] line) < MAX_ARG"
    by (simp add: line_def MAX_ARG_def)
  ultimately obtain args' suffix where
    sl: "split_loop (strtok ([] @ line @ zs) (length ([]::string))) (args_ptrs m) 0 =
        (0 + length (spec_tokens [] line), args', [] @ suffix, False)"
    and la: "length args' = length (args_ptrs m)"
    and strs: "\<forall>k < length (spec_tokens [] line). \<exists>off. args' ! (0 + k) = Some off \<and>
          cstring_at ([] @ suffix) off = spec_tokens [] line ! k"
    using split_loop_tokens [OF _ _ _ len, of line zs 0 "[]"] by blast
  from sl cpy have "splitArgs line_src m =
      (length (spec_tokens [] line), [], m\<lparr>args_ptrs := args', line_cpy := suffix\<rparr>)"
    by (simp add: splitArgs_def)
  with la len strs show ?thesis
    unfolding line_def by (intro exI [of _ args'] exI [of _ suffix]) simp
qed

text \<open>
  Claim C6. Let the line be the C string in the buffer \<open>line_src\<close> points to. When
  splitting it on runs of spaces gives at most 39 tokens, \<open>splitArgs\<close> returns exactly
  their number and prints no warning, and the first \<open>count\<close> entries of \<open>args\<close> point
  to exactly these tokens, in their order in the line. For the empty line the count is
  zero.
\<close>

theorem splitArgs_token_count:
  assumes len: "length (args_ptrs m) = MAX_ARG"
    and few: "snd (spec_split (cstring_at (deref m line_src) 0)) \<le> 39"
  shows "\<exists>m'. splitArgs line_src m =
            (snd (spec_split (cstring_at (deref m line_src) 0)), [], m') \<and>
          arg_strings m' (snd (spec_split (cstring_at (deref m line_src) 0))) =
            fst (spec_split (cstring_at (deref m line_src) 0)) \<and>
          (cstring_at (deref m line_src) 0 = [] \<longrightarrow>
             snd (spec_split (cstring_at (deref m line_src) 0)) = 0)"
proof -
  define toks where "toks = spec_tokens [] (cstring_at (deref m line_src) 0)"
  from few have "length (spec_tokens [] (cstring_at (deref m line_src) 0)) \<le> 39"
    by (simp add: spec_split_def)
  from splitArgs_pointers [OF len this] obtain args' cpy' where
    r: "splitArgs line_src m = (length toks, [], m\<lparr>args_ptrs := args', line_cpy := cpy'\<rparr>)"
    and la: "length args' = MAX_ARG"
    and strs: "\<forall>k < length toks. \<exists>off. args' ! k = Some off \<and> cstring_at cpy' off = toks ! k"
    unfolding toks_def by blast
  let ?m' = "m\<lparr>args_ptrs := args', line_cpy := cpy'\<rparr>"
  have "arg_strings ?m' (length toks) = toks"
  proof (rule nth_equalityI)
    show "length (arg_strings ?m' (length toks)) = length toks"
      by (simp add: arg_strings_def)
  next
    fix k assume "k < length (arg_strings ?m' (length toks))"
    then have k: "k < length toks" by (simp add: arg_strings_def)
    with strs obtain off where "args' ! k = Some off" "cstring_at cpy' off = toks ! k"
      by auto
    moreover from k few la have "k < length args'"
      by (simp add: toks_def spec_split_def MAX_ARG_def)
    ultimately show "arg_strings ?m' (length toks) ! k = toks ! k"
      using k by (simp add: arg_strings_def arg_string_def)
  qed
  with r show ?thesis
    by (auto simp: spec_split_def toks_def)
qed

theorem splitArgs_token_count_witness:
  "length (args_ptrs mem_example) = MAX_ARG \<and>
   cstring_at (deref mem_example LineBuf) 0 = ''ls -l'' \<and>
   spec_split ''ls -l'' = ([''ls'', ''-l''], 2) \<and>
   fst (splitArgs LineBuf mem_example) = 2 \<and>
   arg_strings (snd (snd (splitArgs LineBuf mem_example))) 2 = [''ls'', ''-l'']"
proof -
  have l: "length (args_ptrs mem_example) = MAX_ARG"
    by (simp add: mem_example_def)
  have f: "snd (spec_split (cstring_at (deref mem_example LineBuf) 0)) \<le> 39"
    by (simp add: line_example spec_split_example)
  from splitArgs_token_count [OF l f] obtain m' where
    "splitArgs LineBuf mem_example = (snd (spec_split ''ls -l''), [], m')"
    "arg_strings m' (snd (spec_split ''ls -l'')) = fst (spec_split ''ls -l'')"
    unfolding line_example by blast
  then have "fst (splitArgs LineBuf mem_example) = 2"
    "arg_strings (snd (snd (splitArgs LineBuf mem_example))) 2 = [''ls'', ''-l'']"
    by (simp_all add: spec_split_example)
  with l line_example spec_split_example show ?thesis by blast
qed

subsection \<open>The iterations of main\<close>

lemmas split_defs = splitArgs_def split_loop.simps strtok_def strcpy_def cstring_at_def byte_at_def
  deref_def read_line_def arg_string_def arg_strings_def NUL_def MAX_ARG_def

lemma split_bang:
  "splitArgs LineBuf (read_line ''!!'' (mem (startup (''ls'' @ [NUL]) [] w_tty))) =
     (1, [], \<lparr>line_buf = ''!!'' @ [NUL, NUL], last_line_buf = ''ls'' @ [NUL],
              args_ptrs = Some 0 # replicate 39 None, line_cpy = ''!!'' @ [NUL]\<rparr>)"
  by (simp add: split_defs startup_def Let_def numeral_eq_Suc)

lemma split_history:
  "splitArgs LastLineBuf \<lparr>line_buf = ''!!'' @ [NUL, NUL], last_line_buf = ''ls'' @ [NUL],
              args_ptrs = Some 0 # replicate 39 None, line_cpy = ''!!'' @ [NUL]\<rparr> =
     (1, [], \<lparr>line_buf = ''!!'' @ [NUL, NUL], last_line_buf = ''ls'' @ [NUL],
              args_ptrs = Some 0 # replicate 39 None, line_cpy = ''ls'' @ [NUL]\<rparr>)"
  by (simp add: split_defs Let_def numeral_eq_Suc)

lemma interpret_ls:
  "interpretArgs [''ls''] None w_tty =
     w_tty\<lparr>children := [\<lparr>job_of = RunSimple [''ls''], inherited = fdtab w_tty, reaped = True\<rparr>]\<rparr>"
  by (simp add: interpretArgs_def scan_loop.simps scan_arg_def first_char_def init_locals_def
      execute_def restore_def forkInto_def w_tty_def os_defs Let_def)


lemma reports_nothing: "reports [] w = w"
  by (simp add: reports_def)

lemma main_iteration_empty:
  assumes "splitArgs LineBuf (read_line input (mem sh)) = (n, printed, m1)"
    and "arg_string m1 0 = None \<or> arg_string m1 0 = Some []"
  shows "main_iteration input sh =
           (True, sh\<lparr>mem := m1, os := report EmptyCommand (reports printed (os sh))\<rparr>)"
  using assms by (simp add: main_iteration_def Let_def)

lemma main_iteration_no_history:
  assumes "splitArgs LineBuf (read_line input (mem sh)) = (n, printed, m1)"
    and "arg_string m1 0 = Some ''!!''" and "cstring_at (last_line_buf m1) 0 = []"
  shows "main_iteration input sh =
           (True, sh\<lparr>mem := m1, os := report NoHistory (reports printed (os sh))\<rparr>)"
  using assms by (simp add: main_iteration_def Let_def)

lemma main_iteration_history:
  assumes "splitArgs LineBuf (read_line input (mem sh)) = (n, printed, m1)"
    and "arg_string m1 0 = Some ''!!''" and "cstring_at (last_line_buf m1) 0 \<noteq> []"
    and "splitArgs LastLineBuf m1 = (n', printed', m2)"
  shows "main_iteration input sh =
           (True, call_interpretArgs n'
              (sh\<lparr>mem := m2, os := reports printed' (reports printed (os sh))\<rparr>))"
  using assms by (simp add: main_iteration_def Let_def)

lemma main_iteration_command:
  assumes "splitArgs LineBuf (read_line input (mem sh)) = (n, printed, m1)"
    and "arg_string m1 0 = Some a" and "a \<noteq> []" and "a \<noteq> ''exit()''" and "a \<noteq> ''exit''"
    and "a \<noteq> ''!!''"
  shows "main_iteration input sh =
           (True, call_interpretArgs n
              (sh\<lparr>os := reports printed (os sh),
                  mem := m1\<lparr>last_line_buf := strcpy (last_line_buf m1) (line_buf m1)\<rparr>\<rparr>))"
  using assms by (simp add: main_iteration_def Let_def)

text \<open>
  Claim C7 says that \<open>!!\<close> with no line stored, also right after startup, reports
  \<open>NoHistory\<close> and runs nothing. \<open>main\<close> clears \<open>line_buf\<close> and \<open>args\<close> with
  \<open>memset\<close> but not \<open>last_line_buf\<close>, and tests \<open>strlen(last_line_buf) == 0\<close>. When
  the bytes the stack holds there do not start with a terminator (here they spell
  \<open>ls\<close>), \<open>!!\<close> as the first line splits these bytes and runs them: nothing is
  printed and a process is forked.
\<close>

theorem history_replays_stack_bytes:
  "main_iteration ''!!'' (startup (''ls'' @ [NUL]) [] w_tty) =
     (True,
      \<lparr>mem = \<lparr>line_buf = ''!!'' @ [NUL, NUL], last_line_buf = ''ls'' @ [NUL],
               args_ptrs = Some 0 # replicate 39 None, line_cpy = ''ls'' @ [NUL]\<rparr>,
       os = w_tty\<lparr>children := [\<lparr>job_of = RunSimple [''ls''], inherited = fdtab w_tty,
                                  reaped = True\<rparr>]\<rparr>\<rparr>) \<and>
   stderr_log (os (snd (main_iteration ''!!'' (startup (''ls'' @ [NUL]) [] w_tty)))) = [] \<and>
   map job_of (children (os (snd (main_iteration ''!!'' (startup (''ls'' @ [NUL]) [] w_tty))))) =
     [RunSimple [''ls'']]"
proof -
  let ?m1 = "\<lparr>line_buf = ''!!'' @ [NUL, NUL], last_line_buf = ''ls'' @ [NUL],
              args_ptrs = Some 0 # replicate 39 None, line_cpy = ''!!'' @ [NUL]\<rparr>"
  let ?m2 = "\<lparr>line_buf = ''!!'' @ [NUL, NUL], last_line_buf = ''ls'' @ [NUL],
              args_ptrs = Some 0 # replicate 39 None, line_cpy = ''ls'' @ [NUL]\<rparr>"
  let ?sh = "startup (''ls'' @ [NUL]) [] w_tty"
  have a: "arg_string ?m1 0 = Some ''!!''"
    by (simp add: arg_string_def cstring_at_def NUL_def)
  have h: "cstring_at (last_line_buf ?m1) 0 \<noteq> []"
    by (simp add: cstring_at_def NUL_def)
  have "main_iteration ''!!'' ?sh =
     (True, call_interpretArgs 1 (?sh\<lparr>mem := ?m2, os := reports [] (reports [] (os ?sh))\<rparr>))"
    by (rule main_iteration_history [OF split_bang a h split_history])
  also have "?sh\<lparr>mem := ?m2, os := reports [] (reports [] (os ?sh))\<rparr> = \<lparr>mem = ?m2, os = w_tty\<rparr>"
    by (simp add: startup_def reports_nothing)
  also have "call_interpretArgs 1 \<lparr>mem = ?m2, os = w_tty\<rparr> =
      \<lparr>mem = ?m2, os = w_tty\<lparr>children := [\<lparr>job_of = RunSimple [''ls''], inherited = fdtab w_tty,
                                  reaped = True\<rparr>]\<rparr>\<rparr>"
    by (simp add: call_interpretArgs_def arg_strings_def arg_string_def cstring_at_def NUL_def
        interpret_ls)
  finally have r: "main_iteration ''!!'' ?sh =
     (True, \<lparr>mem = ?m2, os = w_tty\<lparr>children := [\<lparr>job_of = RunSimple [''ls''],
        inherited = fdtab w_tty, reaped = True\<rparr>]\<rparr>\<rparr>)" .
  show ?thesis
    unfolding r by (simp add: w_tty_def)
qed

lemma split_indented:
  "splitArgs LineBuf (read_line '' ls'' (mem (startup [] [] w_tty))) =
     (1, [], \<lparr>line_buf = '' ls'' @ [NUL, NUL], last_line_buf = [],
              args_ptrs = Some 1 # replicate 39 None, line_cpy = '' ls'' @ [NUL]\<rparr>)"
  by (simp add: split_defs startup_def Let_def numeral_eq_Suc)

lemma indented_command:
  "main_iteration '' ls'' (startup [] [] w_tty) = (True, sh_after_ls)"
proof -
  let ?m1 = "\<lparr>line_buf = '' ls'' @ [NUL, NUL], last_line_buf = [],
              args_ptrs = Some 1 # replicate 39 None, line_cpy = '' ls'' @ [NUL]\<rparr>"
  let ?sh = "startup [] [] w_tty"
  have a: "arg_string ?m1 0 = Some ''ls''"
    by (simp add: arg_string_def cstring_at_def NUL_def)
  have "main_iteration '' ls'' ?sh =
      (True, call_interpretArgs 1
         (?sh\<lparr>os := reports [] (os ?sh),
              mem := ?m1\<lparr>last_line_buf := strcpy (last_line_buf ?m1) (line_buf ?m1)\<rparr>\<rparr>))"
    by (rule main_iteration_command [OF split_indented a]) simp_all
  also have "?sh\<lparr>os := reports [] (os ?sh),
              mem := ?m1\<lparr>last_line_buf := strcpy (last_line_buf ?m1) (line_buf ?m1)\<rparr>\<rparr> =
      \<lparr>mem = mem sh_after_ls, os = w_tty\<rparr>"
    by (simp add: startup_def reports_nothing sh_after_ls_def strcpy_def cstring_at_def NUL_def)
  also have "call_interpretArgs 1 \<lparr>mem = mem sh_after_ls, os = w_tty\<rparr> = sh_after_ls"
    by (simp add: call_interpretArgs_def arg_strings_def arg_string_def cstring_at_def NUL_def
        interpret_ls sh_after_ls_def)
  finally show ?thesis .
qed

lemma split_empty_after_ls:
  "splitArgs LineBuf (read_line [] (mem sh_after_ls)) =
     (0, [], \<lparr>line_buf = [NUL, NUL, CHR ''s'', NUL, NUL], last_line_buf = '' ls'' @ [NUL],
              args_ptrs = Some 1 # replicate 39 None, line_cpy = NUL # ''ls'' @ [NUL]\<rparr>)"
  by (simp add: split_defs sh_after_ls_def Let_def)

lemma interpret_nothing:
  "reaped c \<Longrightarrow> interpretArgs [] beyond (w_tty\<lparr>children := [c]\<rparr>) =
     w_tty\<lparr>children := [c, \<lparr>job_of = RunSimple [], inherited = fdtab w_tty, reaped = True\<rparr>]\<rparr>"
  by (simp add: interpretArgs_def scan_loop.simps init_locals_def
      execute_def restore_def forkInto_def w_tty_def os_defs Let_def)

text \<open>
  Claim C8 says that every empty line gives \<open>EmptyCommand\<close> and no process.
  \<open>splitArgs\<close> stores nothing in \<open>args\<close> for an empty line, and \<open>main\<close> tests
  \<open>args[0]\<close>, not the count: after an earlier command \<open>args[0]\<close> still points into
  \<open>line_cpy\<close>. After the line \<open>" ls"\<close> it points one byte past the start, where the
  bytes \<open>ls\<close> of the old copy remain (the empty line overwrites the first byte only):
  the test fails, the empty line is stored as history, and \<open>interpretArgs\<close> is called
  with no arguments and forks.
\<close>

theorem empty_line_after_indented_command:
  "main_loop ['' ls'', ''''] (startup [] [] w_tty) =
     \<lparr>mem = \<lparr>line_buf = [NUL, NUL, CHR ''s'', NUL, NUL], last_line_buf = NUL # ''ls'' @ [NUL],
              args_ptrs = Some 1 # replicate 39 None, line_cpy = NUL # ''ls'' @ [NUL]\<rparr>,
      os = w_tty\<lparr>children :=
             [\<lparr>job_of = RunSimple [''ls''], inherited = fdtab w_tty, reaped = True\<rparr>,
              \<lparr>job_of = RunSimple [], inherited = fdtab w_tty, reaped = True\<rparr>]\<rparr>\<rparr> \<and>
   stderr_log (os (main_loop ['' ls'', ''''] (startup [] [] w_tty))) = [] \<and>
   length (children (os (main_loop ['' ls'', ''''] (startup [] [] w_tty)))) = 2"
proof -
  let ?m1 = "\<lparr>line_buf = [NUL, NUL, CHR ''s'', NUL, NUL], last_line_buf = '' ls'' @ [NUL],
              args_ptrs = Some 1 # replicate 39 None, line_cpy = NUL # ''ls'' @ [NUL]\<rparr>"
  let ?c = "\<lparr>job_of = RunSimple [''ls''], inherited = fdtab w_tty, reaped = True\<rparr>"
  let ?final = "\<lparr>mem = ?m1\<lparr>last_line_buf := NUL # ''ls'' @ [NUL]\<rparr>,
      os = w_tty\<lparr>children := [?c, \<lparr>job_of = RunSimple [], inherited = fdtab w_tty,
          reaped = True\<rparr>]\<rparr>\<rparr>"
  have a: "arg_string ?m1 0 = Some ''ls''"
    by (simp add: arg_string_def cstring_at_def NUL_def)
  have "main_iteration [] sh_after_ls =
      (True, call_interpretArgs 0
         (sh_after_ls\<lparr>os := reports [] (os sh_after_ls),
              mem := ?m1\<lparr>last_line_buf := strcpy (last_line_buf ?m1) (line_buf ?m1)\<rparr>\<rparr>))"
    by (rule main_iteration_command [OF split_empty_after_ls a]) simp_all
  also have "sh_after_ls\<lparr>os := reports [] (os sh_after_ls),
              mem := ?m1\<lparr>last_line_buf := strcpy (last_line_buf ?m1) (line_buf ?m1)\<rparr>\<rparr> =
      \<lparr>mem = ?m1\<lparr>last_line_buf := NUL # ''ls'' @ [NUL]\<rparr>, os = w_tty\<lparr>children := [?c]\<rparr>\<rparr>"
    by (simp add: reports_nothing sh_after_ls_def strcpy_def cstring_at_def NUL_def)
  also have "call_interpretArgs 0
      \<lparr>mem = ?m1\<lparr>last_line_buf := NUL # ''ls'' @ [NUL]\<rparr>, os = w_tty\<lparr>children := [?c]\<rparr>\<rparr> = ?final"
    by (simp add: call_interpretArgs_def arg_strings_def interpret_nothing)
  finally have "main_iteration [] sh_after_ls = (True, ?final)" .
  with indented_command have r: "main_loop ['' ls'', ''''] (startup [] [] w_tty) = ?final"
    by simp
  show ?thesis
    unfolding r by (simp add: w_tty_def)
qed

subsection \<open>The two processes of a pipe do not run at the same time\<close>

lemma reader_step_waits:
  assumes "s' \<in> set (reader_steps s)"
    and "reader s \<in> {R_Redirect, R_Exec, R_Running} \<Longrightarrow>
           writer s = W_Exited \<or> writer s = W_ReturnedExited"
    and "reader s' \<in> {R_Redirect, R_Exec, R_Running}"
  shows "writer s' = W_Exited \<or> writer s' = W_ReturnedExited"
  using assms by (cases "reader s") (auto simp: reader_steps_def split: if_splits)

lemma writer_step_waits:
  assumes "s' \<in> set (writer_steps cap n s)"
    and "reader s \<in> {R_Redirect, R_Exec, R_Running} \<Longrightarrow>
           writer s = W_Exited \<or> writer s = W_ReturnedExited"
    and "reader s' \<in> {R_Redirect, R_Exec, R_Running}"
  shows "writer s' = W_Exited \<or> writer s' = W_ReturnedExited"
proof -
  from assms(1) have "reader s' = reader s"
    by (cases "writer s") (auto simp: writer_steps_def split: nat.splits if_splits)
  with assms(2,3) have "writer s = W_Exited \<or> writer s = W_ReturnedExited" by simp
  with assms(1) show ?thesis by (auto simp: writer_steps_def)
qed

lemma run_reachable:
  "reachable cap n s \<Longrightarrow> run cap n sched s = Some s' \<Longrightarrow> reachable cap n s'"
proof (induction sched arbitrary: s)
  case Nil
  then show ?case by simp
next
  case (Cons i sched)
  from Cons.prems(2) have i: "i < length (pipeline_steps cap n s)"
    and r: "run cap n sched (pipeline_steps cap n s ! i) = Some s'"
    by (auto split: if_splits)
  from i Cons.prems(1) have "reachable cap n (pipeline_steps cap n s ! i)"
    by (auto intro: reachable.step)
  from Cons.IH [OF this r] show ?case .
qed

lemma run_example:
  "run 4 2 (replicate 12 0) pipeline_start = Some \<lparr>reader = R_Running, writer = W_Exited, buffered = 2\<rparr>"
  by (simp add: pipeline_start_def pipeline_steps_def reader_steps_def writer_steps_def
      numeral_eq_Suc)

text \<open>
  Claim C1 says that \<open>forkAndPipeInto\<close> lets the writer (running \<open>args\<close>) and the
  reader (running \<open>dest_prog\<close>) run concurrently, the start of the reader never
  waiting for the exit of the writer. In the source the reader's process calls
  \<open>wait(NULL)\<close> before it redirects its input and calls \<open>execlp(dest_prog, ...)\<close>:
  under every scheduling, whenever the reader is past the \<open>wait\<close> (redirecting,
  executing or running \<open>dest_prog\<close>) the writer's process has terminated.
\<close>

theorem reader_waits_for_writer:
  "reachable cap n s \<Longrightarrow> reader s \<in> {R_Redirect, R_Exec, R_Running} \<Longrightarrow>
     writer s = W_Exited \<or> writer s = W_ReturnedExited"
proof (induction rule: reachable.induct)
  case start
  then show ?case by (simp add: pipeline_start_def)
next
  case (step s s')
  from step.hyps(2) consider (r) "s' \<in> set (reader_steps s)" | (w) "s' \<in> set (writer_steps cap n s)"
    by (auto simp: pipeline_steps_def)
  then show ?case
  proof cases
    case r
    from r step.IH step.prems show ?thesis by (rule reader_step_waits)
  next
    case w
    from w step.IH step.prems show ?thesis by (rule writer_step_waits)
  qed
qed

theorem reader_waits_for_writer_witness:
  "reachable 4 2 \<lparr>reader = R_Running, writer = W_Exited, buffered = 2\<rparr> \<and>
   reader \<lparr>reader = R_Running, writer = W_Exited, buffered = 2\<rparr> \<in> {R_Redirect, R_Exec, R_Running} \<and>
   writer \<lparr>reader = R_Running, writer = W_Exited, buffered = 2\<rparr> = W_Exited"
proof -
  have r: "reachable 4 2 \<lparr>reader = R_Running, writer = W_Exited, buffered = 2\<rparr>"
    by (rule run_reachable [OF reachable.start run_example])
  have m: "reader \<lparr>reader = R_Running, writer = W_Exited, buffered = 2\<rparr> \<in>
      {R_Redirect, R_Exec, R_Running}"
    by simp
  from reader_waits_for_writer [OF r m] r m show ?thesis by simp
qed

subsection \<open>A program that writes more than the pipe buffers\<close>

lemma reader_steps_effect:
  assumes "s' \<in> set (reader_steps s)"
  shows "(s' = s\<lparr>reader := reader s'\<rparr> \<and> reader s' \<noteq> R_Pipe \<and> reader s' \<noteq> R_Fork) \<or>
         (s' = s\<lparr>reader := reader s'\<rparr> \<and> reader s = R_Pipe) \<or>
         (reader s = R_Fork \<and> s' = s\<lparr>reader := R_CloseWrite, writer := W_CloseRead\<rparr>) \<or>
         (reader s = R_Running \<and> s' = s\<lparr>buffered := buffered s - 1\<rparr>)"
  using assms by (cases "reader s") (auto simp: reader_steps_def split: if_splits)

lemma reader_step_stuck:
  assumes "s' \<in> set (reader_steps s)" "writer_stuck cap n s"
    "reader s = R_Running \<Longrightarrow> writer s = W_Exited \<or> writer s = W_ReturnedExited"
  shows "writer_stuck cap n s'"
proof -
  from reader_steps_effect [OF assms(1)]
  consider (move) "s' = s\<lparr>reader := reader s'\<rparr>" "reader s' \<noteq> R_Pipe" "reader s' \<noteq> R_Fork"
    | (pipe) "s' = s\<lparr>reader := reader s'\<rparr>" "reader s = R_Pipe"
    | (fork) "reader s = R_Fork" "s' = s\<lparr>reader := R_CloseWrite, writer := W_CloseRead\<rparr>"
    | (read) "reader s = R_Running" "s' = s\<lparr>buffered := buffered s - 1\<rparr>"
    by blast
  then show ?thesis
  proof cases
    case move
    from move(1) have "writer s' = writer s" "buffered s' = buffered s"
      by (metis pipeline.select_convs(2) pipeline.surjective pipeline.update_convs(1),
          metis pipeline.select_convs(3) pipeline.surjective pipeline.update_convs(1))
    with assms(2) move(2,3) show ?thesis by (auto simp: writer_stuck_def)
  next
    case pipe
    from pipe(1) have "writer s' = writer s" "buffered s' = buffered s"
      by (metis pipeline.select_convs(2) pipeline.surjective pipeline.update_convs(1),
          metis pipeline.select_convs(3) pipeline.surjective pipeline.update_convs(1))
    with assms(2) pipe(2) show ?thesis by (auto simp: writer_stuck_def)
  next
    case fork
    with assms(2) show ?thesis by (auto simp: writer_stuck_def)
  next
    case read
    with assms(3) have "writer s = W_ReturnedExited \<or> writer s = W_Exited" by blast
    with assms(2) read show ?thesis by (auto simp: writer_stuck_def)
  qed
qed

lemma writer_step_stuck:
  assumes "s' \<in> set (writer_steps cap n s)" "writer_stuck cap n s" "cap < n"
  shows "writer_stuck cap n s'"
proof (cases "writer s")
  case (W_Running k)
  with assms show ?thesis
    by (cases k) (auto simp: writer_steps_def writer_stuck_def split: if_splits)
qed (use assms in \<open>auto simp: writer_steps_def writer_stuck_def\<close>)

lemma reachable_stuck:
  assumes "cap < n"
  shows "reachable cap n s \<Longrightarrow>
           writer_stuck cap n s \<and>
           (reader s \<in> {R_Redirect, R_Exec, R_Running} \<longrightarrow>
              writer s = W_Exited \<or> writer s = W_ReturnedExited)"
proof (induction rule: reachable.induct)
  case start
  show ?case by (simp add: writer_stuck_def pipeline_start_def)
next
  case (step s s')
  from step.IH have st: "writer_stuck cap n s"
    and past: "reader s \<in> {R_Redirect, R_Exec, R_Running} \<Longrightarrow>
      writer s = W_Exited \<or> writer s = W_ReturnedExited"
    by blast+
  from step.hyps(2) consider (r) "s' \<in> set (reader_steps s)" | (w) "s' \<in> set (writer_steps cap n s)"
    by (auto simp: pipeline_steps_def)
  then show ?case
  proof cases
    case r
    from past have "reader s = R_Running \<Longrightarrow> writer s = W_Exited \<or> writer s = W_ReturnedExited"
      by simp
    with r st have "writer_stuck cap n s'" by (rule reader_step_stuck)
    moreover have "writer s' = W_Exited \<or> writer s' = W_ReturnedExited"
      if "reader s' \<in> {R_Redirect, R_Exec, R_Running}"
      using r past that by (rule reader_step_waits)
    ultimately show ?thesis by blast
  next
    case w
    from w st assms have "writer_stuck cap n s'" by (rule writer_step_stuck)
    moreover have "writer s' = W_Exited \<or> writer s' = W_ReturnedExited"
      if "reader s' \<in> {R_Redirect, R_Exec, R_Running}"
      using w past that by (rule writer_step_waits)
    ultimately show ?thesis by blast
  qed
qed

lemma run_blocked_example:
  "run 1 2 (replicate 7 0) pipeline_start = Some \<lparr>reader = R_Wait, writer = W_Running 1, buffered = 1\<rparr> \<and>
   pipeline_steps 1 2 \<lparr>reader = R_Wait, writer = W_Running 1, buffered = 1\<rparr> = []"
  by (simp add: pipeline_start_def pipeline_steps_def reader_steps_def writer_steps_def
      numeral_eq_Suc)

text \<open>
  When \<open>args\<close> writes more bytes than the pipe buffers, the pipeline never completes:
  the program never exits (it always has bytes left to write, and blocks once the
  buffer is full), and \<open>dest_prog\<close> runs only if \<open>args\<close> could not be executed at all.
\<close>

theorem large_output_blocks_pipe:
  assumes "cap < n" "reachable cap n s"
  shows "writer s \<noteq> W_Exited \<and> (reader s = R_Running \<longrightarrow> writer s = W_ReturnedExited) \<and>
         (\<forall>k. writer s = W_Running k \<longrightarrow> 0 < k)"
proof -
  from reachable_stuck [OF assms] have st: "writer_stuck cap n s"
    and past: "reader s \<in> {R_Redirect, R_Exec, R_Running} \<longrightarrow>
      writer s = W_Exited \<or> writer s = W_ReturnedExited"
    by blast+
  from st have "writer s \<noteq> W_Exited" by (simp add: writer_stuck_def)
  moreover from past this
  have "reader s = R_Running \<longrightarrow> writer s = W_ReturnedExited" by auto
  moreover from st assms(1) have "\<forall>k. writer s = W_Running k \<longrightarrow> 0 < k"
    by (auto simp: writer_stuck_def)
  ultimately show ?thesis by blast
qed

theorem large_output_blocks_pipe_witness:
  "(1::nat) < 2 \<and> reachable 1 2 \<lparr>reader = R_Wait, writer = W_Running 1, buffered = 1\<rparr> \<and>
   pipeline_steps 1 2 \<lparr>reader = R_Wait, writer = W_Running 1, buffered = 1\<rparr> = [] \<and>
   writer \<lparr>reader = R_Wait, writer = W_Running 1, buffered = 1\<rparr> \<noteq> W_Exited"
proof -
  have c: "(1::nat) < 2" by simp
  have r: "reachable 1 2 \<lparr>reader = R_Wait, writer = W_Running 1, buffered = 1\<rparr>"
    using run_blocked_example by (intro run_reachable [OF reachable.start]) blast
  from large_output_blocks_pipe [OF c r] c r run_blocked_example show ?thesis by blast
qed

subsection \<open>Restoration when the descriptor can be saved\<close>

lemma redirect_command_visit:
  "visits [''echo'', ''hi'', ''>'', ''out.txt''] None w_tty (Suc (Suc (Suc (Suc 0))))
     (init_locals\<lparr>exec_args := [''echo'', ''hi''], redirected := True, redirected_to := 1,
        redirected_from := 4\<rparr>)
     (w_tty\<lparr>fdtab := [Some Terminal, Some (OpenFile ''out.txt'' O_WRONLY), Some Terminal, None,
                       Some Terminal],
             fs := (fs w_tty)(''out.txt'' \<mapsto> \<lparr>content = [], perms = 384\<rparr>)\<rparr>)"
proof -
  let ?args = "[''echo'', ''hi'', ''>'', ''out.txt'']"
  let ?l1 = "init_locals\<lparr>exec_args := [''echo'']\<rparr>"
  let ?l2 = "init_locals\<lparr>exec_args := [''echo'', ''hi'']\<rparr>"
  let ?l3 = "init_locals\<lparr>exec_args := [''echo'', ''hi''], redirected := True, redirected_to := 1,
        redirected_from := 4\<rparr>"
  have "scan_arg ?args None 0 init_locals w_tty = (0, ?l1, w_tty)"
    by (simp add: scan_arg_def first_char_def init_locals_def Let_def)
  from visits.iterate [OF visits.enter _ _ this]
  have v1: "visits ?args None w_tty (Suc 0) ?l1 w_tty"
    by (simp add: init_locals_def)
  have "scan_arg ?args None (Suc 0) ?l1 w_tty = (Suc 0, ?l2, w_tty)"
    by (simp add: scan_arg_def first_char_def init_locals_def Let_def)
  from visits.iterate [OF v1 _ _ this]
  have v2: "visits ?args None w_tty (Suc (Suc 0)) ?l2 w_tty"
    by (simp add: init_locals_def)
  have "scan_arg ?args None (Suc (Suc 0)) ?l2 w_tty = (Suc (Suc (Suc 0)), ?l3,
      w_tty\<lparr>fdtab := [Some Terminal, Some (OpenFile ''out.txt'' O_WRONLY), Some Terminal, None,
                       Some Terminal],
             fs := (fs w_tty)(''out.txt'' \<mapsto> \<lparr>content = [], perms = 384\<rparr>)\<rparr>)"
    by (simp add: scan_arg_def first_char_def arg_at_def init_locals_def redirectToFile_example)
       (simp add: STDOUT_FILENO_def)
  from visits.iterate [OF v2 _ _ this] show ?thesis
    by (simp add: init_locals_def)
qed

text \<open>
  When standard input and standard output are open and two more descriptors can be
  opened (one for the file, one for the saved copy), \<open>interpretArgs\<close> leaves the
  descriptor table exactly as it found it, whatever the arguments are and on every
  path: no redirect, a failed \<open>open\<close>, a structural error, a failed or a successful
  \<open>fork\<close>.
\<close>

theorem descriptors_restored:
  assumes "fd_target w STDIN_FILENO \<noteq> None" "fd_target w STDOUT_FILENO \<noteq> None"
    "2 \<le> free_slots w"
  shows "fdtab (interpretArgs args beyond w) = fdtab w"
proof -
  obtain l w1 where sl: "scan_loop args beyond 0 init_locals w = (l, w1)"
    by (cases "scan_loop args beyond 0 init_locals w") auto
  from scan_loop_final [OF sl] obtain arg where v: "visits args beyond w arg l w1" by blast
  from sl have "fdtab (interpretArgs args beyond w) = fdtab (restore l (execute l w1))"
    by (simp add: interpretArgs_def)
  also have "\<dots> = fdtab (restore l w1)"
    by (rule restore_cong) (rule execute_fdtab)
  also from visits_restore [OF assms v] have "\<dots> = fdtab w" .
  finally show ?thesis .
qed

theorem descriptors_restored_witness:
  "fd_target w_tty STDIN_FILENO \<noteq> None \<and> fd_target w_tty STDOUT_FILENO \<noteq> None \<and>
   2 \<le> free_slots w_tty \<and>
   fdtab (interpretArgs [''echo'', ''hi'', ''>'', ''out.txt''] None w_tty) =
     [Some Terminal, Some Terminal, Some Terminal, None, None] \<and>
   map inherited (children (interpretArgs [''echo'', ''hi'', ''>'', ''out.txt''] None w_tty)) =
     [[Some Terminal, Some (OpenFile ''out.txt'' O_WRONLY), Some Terminal, None, Some Terminal]]"
proof -
  let ?args = "[''echo'', ''hi'', ''>'', ''out.txt'']"
  let ?l = "init_locals\<lparr>exec_args := [''echo'', ''hi''], redirected := True, redirected_to := 1,
        redirected_from := 4\<rparr>"
  let ?w1 = "w_tty\<lparr>fdtab := [Some Terminal, Some (OpenFile ''out.txt'' O_WRONLY), Some Terminal, None,
                       Some Terminal],
             fs := (fs w_tty)(''out.txt'' \<mapsto> \<lparr>content = [], perms = 384\<rparr>)\<rparr>"
  have a: "fd_target w_tty STDIN_FILENO \<noteq> None" "fd_target w_tty STDOUT_FILENO \<noteq> None"
    "2 \<le> free_slots w_tty"
    by (simp_all add: w_tty_def fd_target_def STDIN_FILENO_def STDOUT_FILENO_def free_slots_def)
  have t: "fdtab w_tty = [Some Terminal, Some Terminal, Some Terminal, None, None]"
    by (simp add: w_tty_def)
  from descriptors_restored [OF a, of ?args None] t
  have f: "fdtab (interpretArgs ?args None w_tty) =
      [Some Terminal, Some Terminal, Some Terminal, None, None]"
    by (rule trans)
  have "scan_loop ?args None 0 init_locals w_tty = (?l, ?w1)"
    by (rule scan_loop_ended [OF redirect_command_visit]) simp
  then have c: "children (interpretArgs ?args None w_tty) = children (execute ?l ?w1)"
    by (simp add: interpretArgs_def restore_frame)
  have e: "execute ?l ?w1 = forkInto [''echo'', ''hi''] True ?w1"
    by (simp add: execute_def init_locals_def)
  have "map inherited (children (forkInto [''echo'', ''hi''] True ?w1)) =
      [[Some Terminal, Some (OpenFile ''out.txt'' O_WRONLY), Some Terminal, None, Some Terminal]]"
    by (simp add: forkInto_def sys_fork_def sys_wait_def w_tty_def)
  with c e have i: "map inherited (children (interpretArgs ?args None w_tty)) =
      [[Some Terminal, Some (OpenFile ''out.txt'' O_WRONLY), Some Terminal, None, Some Terminal]]"
    by simp
  from a f i show ?thesis by blast
qed

subsection \<open>The contract of redirectToFile when the descriptor can be saved\<close>

lemma redirectToFile_opened_frame:
  assumes o: "(if dest = STDIN_FILENO then sys_open path O_RDONLY w
               else sys_creat path (S_IRUSR OR S_IWUSR) w) = (fd, w1)" and fd: "fd \<noteq> -1"
    and r: "redirectToFile (Some path) dest e w = (saved, e', w')"
  shows "fs w' = fs w1 \<and> children w' = children w \<and> nproc w' = nproc w"
proof -
  obtain c w2 where d: "sys_dup dest w1 = (c, w2)" by (cases "sys_dup dest w1") auto
  obtain x w3 where d2: "sys_dup2 fd dest w2 = (x, w3)" by (cases "sys_dup2 fd dest w2") auto
  from o fd have a: "children w1 = children w" "nproc w1 = nproc w"
    by (auto split: if_splits dest!: sys_open_ok sys_creat_ok)
  from d have b: "fs w2 = fs w1" "children w2 = children w1" "nproc w2 = nproc w1"
    by (auto simp: sys_dup_def split: option.splits)
  from d2 have c: "fs w3 = fs w2" "children w3 = children w2" "nproc w3 = nproc w2"
    by (auto simp: sys_dup2_def split: option.splits if_splits)
  from r o fd d d2 have "w' = snd (sys_close fd (if x = -1 then report RedirectFailure w3 else w3))"
    by (auto simp: redirectToFile_def redirect_def Let_def split: if_splits prod.splits)
  then have "fs w' = fs w3" "children w' = children w3" "nproc w' = nproc w3"
    by (auto simp: sys_close_def report_def split: option.splits)
  with a b c show ?thesis by simp
qed

lemma redirectToFile_saved:
  assumes t: "fd_target w dest = Some t" and two: "2 \<le> free_slots w"
    and o: "(if dest = STDIN_FILENO then sys_open path O_RDONLY w
             else sys_creat path (S_IRUSR OR S_IWUSR) w) = (fd, w1)" and fd: "fd \<noteq> -1"
    and r: "redirectToFile (Some path) dest e w = (saved, e', w')"
  shows "saved \<noteq> -1 \<and> saved \<noteq> fd"
proof -
  from o fd obtain i u where i: "free_slot (fdtab w) = Some i" "fd = int i"
      "fdtab w1 = (fdtab w)[i := Some u]"
    by (auto split: if_splits dest!: sys_open_ok sys_creat_ok)
  from free_slot_Some [OF i(1)] t have di: "nat dest \<noteq> i" "0 \<le> dest" "nat dest < length (fdtab w)"
    and il: "i < length (fdtab w)"
    by (auto simp: fd_target_def split: if_splits)
  with i(3) t have t1: "fd_target w1 dest = Some t"
    by (simp add: fd_target_def)
  from second_free_slot [OF i(1), of u] two i(3) obtain j where j: "free_slot (fdtab w1) = Some j"
    by (auto simp: free_slots_def)
  from free_slot_Some [OF j] i(3) il have "j \<noteq> i" by auto
  from t1 j have "fst (sys_dup dest w1) = int j"
    by (simp add: sys_dup_def)
  then have "fst (redirect fd dest e w1) = int j"
    by (auto simp: redirect_def Let_def split: prod.splits)
  with r o fd have "saved = int j"
    by (auto simp: redirectToFile_def Let_def split: prod.splits)
  with \<open>j \<noteq> i\<close> i(2) show ?thesis by simp
qed

lemma redirectToFile_in_example:
  "redirectToFile (Some ''in.txt'') STDIN_FILENO False w_tty =
      (4, False, w_tty\<lparr>fdtab := [Some (OpenFile ''in.txt'' O_RDONLY), Some Terminal, Some Terminal,
         None, Some Terminal]\<rparr>)"
  by (simp add: redirectToFile_def redirect_def w_tty_def os_defs Let_def)

lemma w_tty_room:
  "fd_target w_tty STDIN_FILENO = Some Terminal" "fd_target w_tty STDOUT_FILENO = Some Terminal"
  "2 \<le> free_slots w_tty"
  by (simp_all add: w_tty_def fd_target_def STDIN_FILENO_def STDOUT_FILENO_def free_slots_def)

text \<open>
  \<open>redirectToFile\<close> reports \<open>MissingPath\<close> for a null path. Otherwise it opens the
  path read-only when \<open>dest\<close> is standard input, and creates or truncates it with the
  permission bits \<open>S_IRUSR | S_IWUSR\<close> when \<open>dest\<close> is standard output; when that call
  fails it reports \<open>FileOpenFailure\<close>, sets the error flag and returns \<open>-1\<close> with the
  descriptor table as it was. When the call succeeds, \<open>dest\<close> is open and two
  descriptors were free (one for the file, one for the copy), the result is a
  descriptor that was free and now refers to what \<open>dest\<close> referred to, \<open>dest\<close> refers
  to the file, the file's own descriptor is closed again, no error is flagged or
  printed, the files are as the opening call left them and no process is created.
\<close>

theorem redirectToFile_contract_when_saved:
  "redirectToFile None dest e w = (-1, True, report MissingPath w) \<and>
   (fst (sys_open path O_RDONLY w) = -1 \<longrightarrow>
      redirectToFile (Some path) STDIN_FILENO e w = (-1, True, report (FileOpenFailure path) w)) \<and>
   (fst (sys_creat path (S_IRUSR OR S_IWUSR) w) = -1 \<longrightarrow>
      redirectToFile (Some path) STDOUT_FILENO e w = (-1, True, report (FileOpenFailure path) w)) \<and>
   ((dest = STDIN_FILENO \<or> dest = STDOUT_FILENO) \<and> fd_target w dest = Some t \<and>
    2 \<le> free_slots w \<and>
    (if dest = STDIN_FILENO then sys_open path O_RDONLY w
     else sys_creat path (S_IRUSR OR S_IWUSR) w) = (fd, w1) \<and> fd \<noteq> -1 \<and>
    redirectToFile (Some path) dest e w = (saved, e', w') \<longrightarrow>
      0 \<le> saved \<and> saved \<noteq> fd \<and> fd_target w saved = None \<and> fd_target w fd = None \<and>
      e' = e \<and> stderr_log w' = stderr_log w \<and>
      fdtab w' = (fdtab w)[nat saved := Some t,
         nat dest := Some (OpenFile path (if dest = STDIN_FILENO then O_RDONLY else O_WRONLY))] \<and>
      fd_target w' fd = None \<and>
      fs w' = fs w1 \<and> children w' = children w \<and> nproc w' = nproc w)"
proof (intro conjI impI)
  show "redirectToFile None dest e w = (-1, True, report MissingPath w)"
    by (simp add: redirectToFile_def)
next
  assume "fst (sys_open path O_RDONLY w) = -1"
  then show "redirectToFile (Some path) STDIN_FILENO e w =
      (-1, True, report (FileOpenFailure path) w)"
    by (simp add: redirectToFile_def sys_open_fail)
next
  assume "fst (sys_creat path (S_IRUSR OR S_IWUSR) w) = -1"
  then show "redirectToFile (Some path) STDOUT_FILENO e w =
      (-1, True, report (FileOpenFailure path) w)"
    by (simp add: redirectToFile_def sys_creat_fail STDIN_FILENO_def STDOUT_FILENO_def)
next
  assume a: "(dest = STDIN_FILENO \<or> dest = STDOUT_FILENO) \<and> fd_target w dest = Some t \<and>
    2 \<le> free_slots w \<and>
    (if dest = STDIN_FILENO then sys_open path O_RDONLY w
     else sys_creat path (S_IRUSR OR S_IWUSR) w) = (fd, w1) \<and> fd \<noteq> -1 \<and>
    redirectToFile (Some path) dest e w = (saved, e', w')"
  then have dest: "dest = STDIN_FILENO \<or> dest = STDOUT_FILENO" and t: "fd_target w dest = Some t"
    and two: "2 \<le> free_slots w"
    and o: "(if dest = STDIN_FILENO then sys_open path O_RDONLY w
     else sys_creat path (S_IRUSR OR S_IWUSR) w) = (fd, w1)" and fd: "fd \<noteq> -1"
    and r: "redirectToFile (Some path) dest e w = (saved, e', w')"
    by simp_all
  from redirectToFile_saved [OF t two o fd r] have s: "saved \<noteq> -1" "saved \<noteq> fd" by simp_all
  from redirectToFile_swapped [OF dest t r s(1)]
  have sw: "0 \<le> saved" "e' = e" "stderr_log w' = stderr_log w"
    "fdtab w' = (fdtab w)[nat saved := Some t,
            nat dest := Some (OpenFile path (if dest = STDIN_FILENO then O_RDONLY else O_WRONLY))]"
    "fd_target w saved = None" "nat saved < length (fdtab w)"
    by simp_all
  from o fd obtain i where i: "free_slot (fdtab w) = Some i" "fd = int i"
    by (auto split: if_splits dest!: sys_open_ok sys_creat_ok)
  from free_slot_Some [OF i(1)] i(2) have f: "fd_target w fd = None"
    and il: "i < length (fdtab w)" "fdtab w ! i = None"
    by (simp_all add: fd_target_def)
  from t il(2) have "nat dest \<noteq> i"
    by (auto simp: fd_target_def split: if_splits)
  moreover from s(2) sw(1) i(2) have "nat saved \<noteq> i" by auto
  ultimately have "fdtab w' ! i = None"
    using sw(4) il(2) by (simp add: nth_update_any)
  with i(2) have f': "fd_target w' fd = None"
    by (simp add: fd_target_def)
  from sw s f f' redirectToFile_opened_frame [OF o fd r]
  show "0 \<le> saved" and "saved \<noteq> fd" and "fd_target w saved = None" and "fd_target w fd = None"
    and "e' = e" and "stderr_log w' = stderr_log w"
    and "fdtab w' = (fdtab w)[nat saved := Some t,
         nat dest := Some (OpenFile path (if dest = STDIN_FILENO then O_RDONLY else O_WRONLY))]"
    and "fd_target w' fd = None"
    and "fs w' = fs w1" and "children w' = children w" and "nproc w' = nproc w"
    by simp_all
qed

theorem redirectToFile_contract_when_saved_witness:
  "redirectToFile None STDOUT_FILENO False w_tty = (-1, True, report MissingPath w_tty) \<and>
   fst (sys_open ''missing'' O_RDONLY w_tty) = -1 \<and>
   redirectToFile (Some ''missing'') STDIN_FILENO False w_tty =
     (-1, True, report (FileOpenFailure ''missing'') w_tty) \<and>
   fst (sys_creat ''ro.txt'' (S_IRUSR OR S_IWUSR) w_tty) = -1 \<and>
   redirectToFile (Some ''ro.txt'') STDOUT_FILENO False w_tty =
     (-1, True, report (FileOpenFailure ''ro.txt'') w_tty) \<and>
   fd_target w_tty STDIN_FILENO = Some Terminal \<and> fd_target w_tty STDOUT_FILENO = Some Terminal \<and>
   2 \<le> free_slots w_tty \<and>
   fst (sys_open ''in.txt'' O_RDONLY w_tty) = 3 \<and>
   redirectToFile (Some ''in.txt'') STDIN_FILENO False w_tty =
     (4, False, w_tty\<lparr>fdtab := [Some (OpenFile ''in.txt'' O_RDONLY), Some Terminal, Some Terminal,
         None, Some Terminal]\<rparr>) \<and>
   (fdtab w_tty)[nat 4 := Some Terminal, nat STDIN_FILENO := Some (OpenFile ''in.txt'' O_RDONLY)] =
     [Some (OpenFile ''in.txt'' O_RDONLY), Some Terminal, Some Terminal, None, Some Terminal] \<and>
   fst (sys_creat ''out.txt'' (S_IRUSR OR S_IWUSR) w_tty) = 3 \<and>
   redirectToFile (Some ''out.txt'') STDOUT_FILENO False w_tty =
     (4, False,
      w_tty\<lparr>fdtab := [Some Terminal, Some (OpenFile ''out.txt'' O_WRONLY), Some Terminal, None,
                       Some Terminal],
             fs := (fs w_tty)(''out.txt'' \<mapsto> \<lparr>content = [], perms = 384\<rparr>)\<rparr>) \<and>
   (fdtab w_tty)[nat 4 := Some Terminal, nat STDOUT_FILENO := Some (OpenFile ''out.txt'' O_WRONLY)] =
     [Some Terminal, Some (OpenFile ''out.txt'' O_WRONLY), Some Terminal, None, Some Terminal]"
proof -
  let ?win = "w_tty\<lparr>fdtab := [Some (OpenFile ''in.txt'' O_RDONLY), Some Terminal, Some Terminal,
         None, Some Terminal]\<rparr>"
  let ?wout = "w_tty\<lparr>fdtab := [Some Terminal, Some (OpenFile ''out.txt'' O_WRONLY), Some Terminal,
                          None, Some Terminal],
             fs := (fs w_tty)(''out.txt'' \<mapsto> \<lparr>content = [], perms = 384\<rparr>)\<rparr>"
  let ?oin = "w_tty\<lparr>fdtab := [Some Terminal, Some Terminal, Some Terminal,
                          Some (OpenFile ''in.txt'' O_RDONLY), None]\<rparr>"
  let ?oout = "w_tty\<lparr>fdtab := [Some Terminal, Some Terminal, Some Terminal,
                          Some (OpenFile ''out.txt'' O_WRONLY), None],
                fs := (fs w_tty)(''out.txt'' \<mapsto> \<lparr>content = [], perms = 384\<rparr>)\<rparr>"
  have a: "redirectToFile None STDOUT_FILENO False w_tty = (-1, True, report MissingPath w_tty)"
    by (rule redirectToFile_contract_when_saved [of STDOUT_FILENO False w_tty, THEN conjunct1])
  from redirectToFile_contract_when_saved [of _ False w_tty "''missing''", THEN conjunct2,
      THEN conjunct1] open_missing
  have b: "redirectToFile (Some ''missing'') STDIN_FILENO False w_tty =
     (-1, True, report (FileOpenFailure ''missing'') w_tty)"
    by (rule mp)
  from redirectToFile_contract_when_saved [of _ False w_tty "''ro.txt''", THEN conjunct2,
      THEN conjunct2, THEN conjunct1] creat_ro
  have c: "redirectToFile (Some ''ro.txt'') STDOUT_FILENO False w_tty =
     (-1, True, report (FileOpenFailure ''ro.txt'') w_tty)"
    by (rule mp)
  have "(STDIN_FILENO = STDIN_FILENO \<or> STDIN_FILENO = STDOUT_FILENO) \<and>
      fd_target w_tty STDIN_FILENO = Some Terminal \<and> 2 \<le> free_slots w_tty \<and>
      (if STDIN_FILENO = STDIN_FILENO then sys_open ''in.txt'' O_RDONLY w_tty
       else sys_creat ''in.txt'' (S_IRUSR OR S_IWUSR) w_tty) = (3, ?oin) \<and> (3::int) \<noteq> -1 \<and>
      redirectToFile (Some ''in.txt'') STDIN_FILENO False w_tty = (4, False, ?win)"
    using w_tty_room open_in redirectToFile_in_example by simp
  with redirectToFile_contract_when_saved [of STDIN_FILENO False w_tty "''in.txt''" Terminal
      3 ?oin 4 False ?win, THEN conjunct2, THEN conjunct2, THEN conjunct2]
  have "fdtab ?win = (fdtab w_tty)[nat 4 := Some Terminal,
         nat STDIN_FILENO := Some (OpenFile ''in.txt''
            (if STDIN_FILENO = STDIN_FILENO then O_RDONLY else O_WRONLY))]"
    by blast
  then have d: "(fdtab w_tty)[nat 4 := Some Terminal,
        nat STDIN_FILENO := Some (OpenFile ''in.txt'' O_RDONLY)] =
     [Some (OpenFile ''in.txt'' O_RDONLY), Some Terminal, Some Terminal, None, Some Terminal]"
    by simp
  have "(STDOUT_FILENO = STDIN_FILENO \<or> STDOUT_FILENO = STDOUT_FILENO) \<and>
      fd_target w_tty STDOUT_FILENO = Some Terminal \<and> 2 \<le> free_slots w_tty \<and>
      (if STDOUT_FILENO = STDIN_FILENO then sys_open ''out.txt'' O_RDONLY w_tty
       else sys_creat ''out.txt'' (S_IRUSR OR S_IWUSR) w_tty) = (3, ?oout) \<and> (3::int) \<noteq> -1 \<and>
      redirectToFile (Some ''out.txt'') STDOUT_FILENO False w_tty = (4, False, ?wout)"
    using w_tty_room creat_out redirectToFile_example
    by (simp add: STDIN_FILENO_def STDOUT_FILENO_def)
  with redirectToFile_contract_when_saved [of STDOUT_FILENO False w_tty "''out.txt''" Terminal
      3 ?oout 4 False ?wout, THEN conjunct2, THEN conjunct2, THEN conjunct2]
  have "fdtab ?wout = (fdtab w_tty)[nat 4 := Some Terminal,
         nat STDOUT_FILENO := Some (OpenFile ''out.txt''
            (if STDOUT_FILENO = STDIN_FILENO then O_RDONLY else O_WRONLY))]"
    by blast
  then have e: "(fdtab w_tty)[nat 4 := Some Terminal,
        nat STDOUT_FILENO := Some (OpenFile ''out.txt'' O_WRONLY)] =
     [Some Terminal, Some (OpenFile ''out.txt'' O_WRONLY), Some Terminal, None, Some Terminal]"
    by (simp add: STDIN_FILENO_def STDOUT_FILENO_def)
  have o: "fst (sys_open ''in.txt'' O_RDONLY w_tty) = 3"
    "fst (sys_creat ''out.txt'' (S_IRUSR OR S_IWUSR) w_tty) = 3"
    by (simp_all add: open_in creat_out)
  show ?thesis
    by (intro conjI a open_missing b creat_ro c w_tty_room o redirectToFile_in_example d
        redirectToFile_example e)
qed

subsection \<open>Where the tests of main do hold\<close>

lemma read_line_string:
  "NUL \<notin> set input \<Longrightarrow> cstring_at (deref (read_line input m) LineBuf) 0 = input"
proof -
  assume "NUL \<notin> set input"
  then have "takeWhile (\<lambda>c. c \<noteq> NUL) (input @ NUL # NUL # drop (length input + 2) (line_buf m)) = input"
    by (subst takeWhile_append2) auto
  then show ?thesis
    by (simp add: read_line_def deref_def cstring_at_def)
qed

lemma splitArgs_empty_line:
  assumes "cstring_at (deref m line_src) 0 = []"
  shows "splitArgs line_src m = (0, [], m\<lparr>line_cpy := NUL # drop 1 (line_cpy m)\<rparr>)"
proof -
  from assms have "strcpy (line_cpy m) (deref m line_src) = NUL # drop 1 (line_cpy m)"
    by (simp add: strcpy_def)
  moreover have "strtok ([] @ [] @ NUL # drop 1 (line_cpy m)) (length ([]::string)) =
      (None, [] @ [] @ NUL # drop 1 (line_cpy m), length ([]::string) + length ([]::string))"
    by (rule strtok_none) simp_all
  ultimately show ?thesis
    by (simp add: splitArgs_def split_loop_None)
qed

text \<open>
  An empty line is answered with \<open>EmptyCommand\<close>, without a fork and without a change
  to the history, whenever \<open>args[0]\<close> is null (as after startup) or points to the start
  of \<open>line_cpy\<close> (as after a line that began with its first token).
\<close>

theorem empty_line_reported:
  assumes "args_ptrs (mem sh) \<noteq> []"
    and "args_ptrs (mem sh) ! 0 = None \<or> args_ptrs (mem sh) ! 0 = Some 0"
  shows "main_iteration [] sh =
           (True, sh\<lparr>mem := (read_line [] (mem sh))\<lparr>line_cpy := NUL # drop 1 (line_cpy (mem sh))\<rparr>,
                     os := report EmptyCommand (os sh)\<rparr>)"
proof -
  let ?m0 = "read_line [] (mem sh)"
  let ?m1 = "?m0\<lparr>line_cpy := NUL # drop 1 (line_cpy ?m0)\<rparr>"
  have "cstring_at (deref ?m0 LineBuf) 0 = []"
    by (rule read_line_string) simp
  then have s: "splitArgs LineBuf ?m0 = (0, [], ?m1)"
    by (rule splitArgs_empty_line)
  from assms have "arg_string ?m1 0 = None \<or> arg_string ?m1 0 = Some []"
    by (auto simp: arg_string_def read_line_def cstring_at_def)
  from main_iteration_empty [OF s this] show ?thesis
    by (simp add: reports_nothing read_line_def)
qed

theorem empty_line_reported_witness:
  "args_ptrs (mem (startup [] [] w_tty)) \<noteq> [] \<and>
   args_ptrs (mem (startup [] [] w_tty)) ! 0 = None \<and>
   stderr_log (os (snd (main_iteration [] (startup [] [] w_tty)))) = [EmptyCommand] \<and>
   children (os (snd (main_iteration [] (startup [] [] w_tty)))) = []"
proof -
  have a: "args_ptrs (mem (startup [] [] w_tty)) \<noteq> []"
    "args_ptrs (mem (startup [] [] w_tty)) ! 0 = None"
    by (simp_all add: startup_def MAX_ARG_def)
  then have "args_ptrs (mem (startup [] [] w_tty)) ! 0 = None \<or>
      args_ptrs (mem (startup [] [] w_tty)) ! 0 = Some 0"
    by simp
  from empty_line_reported [OF a(1) this]
  have "os (snd (main_iteration [] (startup [] [] w_tty))) = report EmptyCommand w_tty"
    by (simp add: startup_def)
  then have "stderr_log (os (snd (main_iteration [] (startup [] [] w_tty)))) = [EmptyCommand]"
    "children (os (snd (main_iteration [] (startup [] [] w_tty)))) = []"
    by (simp_all add: report_def w_tty_def)
  with a show ?thesis by blast
qed

text \<open>
  \<open>!!\<close> is answered with \<open>NoHistory\<close>, without a fork and with the history left as it
  is, whenever \<open>last_line_buf\<close> begins with a terminator.
\<close>

theorem no_history_reported:
  assumes len: "length (args_ptrs (mem sh)) = MAX_ARG"
    and none: "cstring_at (last_line_buf (mem sh)) 0 = []"
  shows "\<exists>m1. main_iteration ''!!'' sh =
           (True, sh\<lparr>mem := m1, os := report NoHistory (os sh)\<rparr>) \<and>
         last_line_buf m1 = last_line_buf (mem sh)"
proof -
  let ?m0 = "read_line ''!!'' (mem sh)"
  have line: "cstring_at (deref ?m0 LineBuf) 0 = ''!!''"
    by (rule read_line_string) (simp add: NUL_def)
  have sp: "spec_tokens [] ''!!'' = [''!!'']"
    by simp
  from len have "length (args_ptrs ?m0) = MAX_ARG"
    by (simp add: read_line_def)
  from splitArgs_pointers [OF this, of LineBuf] obtain args' cpy' off where
    s: "splitArgs LineBuf ?m0 = (1, [], ?m0\<lparr>args_ptrs := args', line_cpy := cpy'\<rparr>)"
    and la: "length args' = MAX_ARG"
    and a: "args' ! 0 = Some off" "cstring_at cpy' off = ''!!''"
    unfolding line sp by auto
  let ?m1 = "?m0\<lparr>args_ptrs := args', line_cpy := cpy'\<rparr>"
  from la a have a0: "arg_string ?m1 0 = Some ''!!''"
    by (simp add: arg_string_def MAX_ARG_def)
  have l: "last_line_buf ?m1 = last_line_buf (mem sh)"
    by (simp add: read_line_def)
  with none have "cstring_at (last_line_buf ?m1) 0 = []" by simp
  from main_iteration_no_history [OF s a0 this] l show ?thesis
    by (auto simp: reports_nothing)
qed

theorem no_history_reported_witness:
  "length (args_ptrs (mem (startup [] [] w_tty))) = MAX_ARG \<and>
   cstring_at (last_line_buf (mem (startup [] [] w_tty))) 0 = [] \<and>
   stderr_log (os (snd (main_iteration ''!!'' (startup [] [] w_tty)))) = [NoHistory] \<and>
   children (os (snd (main_iteration ''!!'' (startup [] [] w_tty)))) = []"
proof -
  have a: "length (args_ptrs (mem (startup [] [] w_tty))) = MAX_ARG"
    "cstring_at (last_line_buf (mem (startup [] [] w_tty))) 0 = []"
    by (simp_all add: startup_def cstring_at_def)
  from no_history_reported [OF a] obtain m1 where
    "main_iteration ''!!'' (startup [] [] w_tty) =
       (True, (startup [] [] w_tty)\<lparr>mem := m1, os := report NoHistory (os (startup [] [] w_tty))\<rparr>)"
    by blast
  then have "os (snd (main_iteration ''!!'' (startup [] [] w_tty))) = report NoHistory w_tty"
    by (simp add: startup_def)
  then have "stderr_log (os (snd (main_iteration ''!!'' (startup [] [] w_tty)))) = [NoHistory]"
    "children (os (snd (main_iteration ''!!'' (startup [] [] w_tty)))) = []"
    by (simp_all add: report_def w_tty_def)
  with a show ?thesis by blast
qed

end
